theory Spec2Isabelle
  imports Main "HOL-Library.Word"
begin

section \<open>Data model of the importer (src/pims/importer/importer.py)\<close>

text \<open>
  Paths are those of \<open>pathlib\<close>, which \<open>pims.files.file.Path\<close> extends, on a POSIX
  system. A path is the list of its parts, as \<open>parts\<close> gives them: an absolute path
  starts with the part \<open>/\<close> (or \<open>//\<close>, for exactly two leading slashes). \<open>Path s\<close> is the
  path a string denotes: the string is split at the slashes, empty parts and \<open>.\<close> are
  dropped, and the root comes first. \<open>joinpath a b\<close> is \<open>a / b\<close>: the parts of \<open>b\<close> follow
  those of \<open>a\<close>, unless \<open>b\<close> is absolute, which gives \<open>b\<close>. \<open>parent\<close> drops the last part
  and \<open>name\<close> is the last part; the root is its own parent and has an empty name.
\<close>

type_synonym path = "string list"

definition is_absolute :: "path \<Rightarrow> bool" where
  "is_absolute p = (case p of [] \<Rightarrow> False | x # _ \<Rightarrow> x = ''/'' \<or> x = ''//'')"

fun split_sep :: "string \<Rightarrow> string list" where
  "split_sep [] = [[]]"
| "split_sep (c # cs) =
     (if c = CHR ''/'' then [] # split_sep cs
      else (case split_sep cs of [] \<Rightarrow> [[c]] | x # xs \<Rightarrow> (c # x) # xs))"

definition anchor :: "string \<Rightarrow> path" where
  "anchor s = (let n = length (takeWhile (\<lambda>c. c = CHR ''/'') s)
             in if n = 0 then [] else if n = 2 then [''//''] else [''/''])"

definition Path :: "string \<Rightarrow> path" where
  "Path s = anchor s @ filter (\<lambda>x. x \<noteq> [] \<and> x \<noteq> ''.'') (split_sep s)"

definition joinpath :: "path \<Rightarrow> path \<Rightarrow> path" where
  "joinpath a b = (if is_absolute b then b else a @ b)"

definition parent :: "path \<Rightarrow> path" where
  "parent p = (if is_absolute p \<and> tl p = [] then p else butlast p)"

definition name :: "path \<Rightarrow> string" where
  "name p = (if p = [] \<or> (is_absolute p \<and> tl p = []) then [] else last p)"

text \<open>
  The exceptions the importer raises itself, those of the Python runtime it can meet,
  and \<open>OtherException\<close> for whatever else a collaborator raises.
\<close>

datatype exn =
    FilepathNotFoundProblem
  | NoMatchingFormatProblem
  | FileErrorProblem
  | ImageParsingProblem
  | FormatConversionProblem
  | NotImplementedError
  | AssertionError
  | AttributeError
  | TypeError
  | ValueError
  | FileNotFoundError
  | FileExistsError
  | OSError
  | ArchiveError
  | OtherException string

text \<open>\<open>except (FileNotFoundError, FileExistsError, OSError)\<close>: the first two are
  subclasses of the third.\<close>

fun is_OSError :: "exn \<Rightarrow> bool" where
  "is_OSError FileNotFoundError = True"
| "is_OSError FileExistsError = True"
| "is_OSError OSError = True"
| "is_OSError _ = False"

text \<open>The event kinds the importer notifies (the members of \<open>ImportEventType\<close> it uses).\<close>

datatype ImportEventType =
    START_DATA_EXTRACTION | FILE_NOT_FOUND | MOVED_PENDING_FILE | END_DATA_EXTRACTION
  | START_FORMAT_DETECTION | ERROR_NO_FORMAT | END_FORMAT_DETECTION
  | START_UNPACKING | ERROR_UNPACKING | END_UNPACKING
  | START_INTEGRITY_CHECK | ERROR_INTEGRITY_CHECK | END_INTEGRITY_CHECK
  | START_SPATIAL_DEPLOY | END_SPATIAL_DEPLOY
  | START_CONVERSION | ERROR_CONVERSION | END_CONVERSION
  | START_HISTOGRAM_DEPLOY | ERROR_HISTOGRAM | END_HISTOGRAM_DEPLOY
  | REGISTER_FILE | FILE_ERROR | FILE_NOT_MOVED | END_SUCCESSFUL_IMPORT

text \<open>
  What \<open>getattr(listener, method)(*args, **kwargs)\<close> does for one listener and
  one event kind: the handler returns, the listener has no such attribute
  (an \<open>AttributeError\<close> from \<open>getattr\<close>), or the handler raises.
\<close>

datatype outcome = Returns | Missing | Raises exn

text \<open>
  A listener: its behaviour per event kind, whether it is a \<open>CytomineListener\<close>, and
  \<open>new_listener_from_registered_child\<close>, which returns the child's listener (an opaque
  handle) or raises.
\<close>

record listener =
  on_event :: "ImportEventType \<Rightarrow> outcome"
  is_cytomine :: bool
  new_listener_from_registered_child :: "path \<Rightarrow> exn + nat"

record format =
  get_identifier :: string
  is_spatial :: bool
  need_conversion :: bool
  conversion_identifier :: string

record image =
  img_path :: path
  img_format :: format

datatype Task = IMPORT | IMPORT_WITH_CYTOMINE

text \<open>The argument list of one deferred child import: \<open>[str(child), child.name,
  prefer_copy]\<close>, preceded by the child listener (and its auth) on the Cytomine path.\<close>

record import_args =
  child_listener :: "nat option"
  child_path :: path
  child_name :: string
  child_prefer_copy :: bool

type_synonym import_task = "Task \<times> import_args"

datatype executor = InProcess | Worker

text \<open>Calls that change the file system.\<close>

datatype fs_call =
    Mkdir path
  | Move path path
  | Copy path path
  | Symlink path path
  | Extract path path
  | Convert format path
  | BuildHistogram path

text \<open>
  The state of one \<open>FileImporter\<close>: the attributes of the class, followed by what the
  run has done so far: the event kinds passed to \<open>notify\<close>, the handlers that
  returned (listener index and kind), the deliveries that were logged as failed, the
  file-system calls issued, and the child tasks executed.
\<close>

record importer =
  listeners :: "listener list"
  pending_file :: path
  pending_name :: "string option"
  upload_dir :: "path option"
  upload_path :: "path option"
  original_path :: "path option"
  original :: "image option"
  spatial_path :: "path option"
  spatial :: "image option"
  histogram_path :: "path option"
  histogram :: "path option"
  processed_dir :: "path option"
  extracted_dir :: "path option"
  events :: "ImportEventType list"
  deliveries :: "(nat \<times> ImportEventType) list"
  logged :: "(nat \<times> ImportEventType) list"
  fs_calls :: "fs_call list"
  executed :: "(executor \<times> import_task) list"

text \<open>\<open>FileImporter.__init__\<close> (lines 127-156).\<close>

definition FileImporter :: "path \<Rightarrow> string option \<Rightarrow> listener list option \<Rightarrow> importer" where
  "FileImporter pending_file' pending_name' listeners' =
     \<lparr> listeners = (case listeners' of Some ls \<Rightarrow> ls | None \<Rightarrow> []),
       pending_file = pending_file',
       pending_name = pending_name',
       upload_dir = None, upload_path = None, original_path = None, original = None,
       spatial_path = None, spatial = None, histogram_path = None, histogram = None,
       processed_dir = None, extracted_dir = None,
       events = [], deliveries = [], logged = [], fs_calls = [], executed = [] \<rparr>"

text \<open>
  The collaborators that are not part of the importer: the settings and path constants,
  the file system, the format registry, the role checks and the task substrate.
  \<open>raises\<close> is the exception a file-system call raises, if any; \<open>convert_result\<close> is
  what \<open>format.convert\<close> returns when it does not raise; \<open>bg_task\<close> is the exception an
  in-process child import raises, if any; \<open>celery_group\<close> gives, for a submitted batch,
  the tasks the workers executed and the exception raised by the submission or the join,
  if any. The queries (\<open>exists\<close>, \<open>is_extracted\<close>, \<open>match\<close>, \<open>from_path\<close>, the role
  checks, \<open>check_integrity\<close>, \<open>get_extracted_children\<close>) are taken not to raise.
\<close>

record world =
  FILE_ROOT_PATH :: path
  PENDING_PATH :: path
  WRITING_PATH :: path
  UPLOAD_DIR_PREFIX :: string
  PROCESSED_DIR :: string
  EXTRACTED_DIR :: string
  ORIGINAL_STEM :: string
  SPATIAL_STEM :: string
  HISTOGRAM_STEM :: string
  task_queue_enabled :: bool
  unique_name_generator :: string
  is_extracted :: "path \<Rightarrow> bool"
  path_exists :: "path \<Rightarrow> bool"
  raises :: "fs_call \<Rightarrow> exn option"
  convert_result :: "format \<Rightarrow> path \<Rightarrow> bool"
  importable_match :: "path \<Rightarrow> format option"
  spatial_readable_match :: "path \<Rightarrow> format option"
  archive_from_path :: "path \<Rightarrow> format option"
  has_original_role :: "path \<Rightarrow> bool"
  has_spatial_role :: "path \<Rightarrow> bool"
  has_histogram_role :: "path \<Rightarrow> bool"
  check_integrity :: "image \<Rightarrow> string list"
  get_extracted_children :: "path \<Rightarrow> path list"
  bg_task :: "import_task \<Rightarrow> exn option"
  celery_group :: "import_task list \<Rightarrow> import_task list \<times> exn option"

section \<open>Actions: state passing with exceptions\<close>

type_synonym 'a action = "importer \<Rightarrow> (exn + 'a) \<times> importer"

definition returnM :: "'a \<Rightarrow> 'a action" where
  "returnM x = (\<lambda>s. (Inr x, s))"

definition raiseM :: "exn \<Rightarrow> 'a action" where
  "raiseM e = (\<lambda>s. (Inl e, s))"

definition bindM :: "'a action \<Rightarrow> ('a \<Rightarrow> 'b action) \<Rightarrow> 'b action" where
  "bindM m f = (\<lambda>s. case m s of (Inl e, s') \<Rightarrow> (Inl e, s') | (Inr x, s') \<Rightarrow> f x s')"

definition thenM :: "unit action \<Rightarrow> 'b action \<Rightarrow> 'b action" where
  "thenM m n = bindM m (\<lambda>_. n)"

text \<open>\<open>try: m except Exception as e: h e\<close>.\<close>

definition try_except :: "'a action \<Rightarrow> (exn \<Rightarrow> 'a action) \<Rightarrow> 'a action" where
  "try_except m h = (\<lambda>s. case m s of (Inl e, s') \<Rightarrow> h e s' | (Inr x, s') \<Rightarrow> (Inr x, s'))"

text \<open>An assignment to attributes of \<open>self\<close>.\<close>

definition update :: "(importer \<Rightarrow> importer) \<Rightarrow> unit action" where
  "update f = (\<lambda>s. (Inr (), f s))"

text \<open>A step that reads attributes of \<open>self\<close>.\<close>

definition with_self :: "(importer \<Rightarrow> 'a action) \<Rightarrow> 'a action" where
  "with_self f = (\<lambda>s. f s s)"

definition assertM :: "bool \<Rightarrow> unit action" where
  "assertM b = (if b then returnM () else raiseM AssertionError)"

section \<open>notify (lines 158-164)\<close>

text \<open>
  The loop over the listeners, with the index of the current listener. Only
  \<open>AttributeError\<close> is caught: it is logged and the loop goes on. Any other exception
  leaves the loop.
\<close>

fun notify_loop :: "ImportEventType \<Rightarrow> listener list \<Rightarrow> nat \<Rightarrow> unit action" where
  "notify_loop method [] i s = (Inr (), s)"
| "notify_loop method (l # ls) i s =
     (case on_event l method of
        Returns \<Rightarrow> notify_loop method ls (Suc i) (s\<lparr>deliveries := deliveries s @ [(i, method)]\<rparr>)
      | Missing \<Rightarrow> notify_loop method ls (Suc i) (s\<lparr>logged := logged s @ [(i, method)]\<rparr>)
      | Raises e \<Rightarrow>
          if e = AttributeError
          then notify_loop method ls (Suc i) (s\<lparr>logged := logged s @ [(i, method)]\<rparr>)
          else (Inl e, s))"

definition notify :: "ImportEventType \<Rightarrow> unit action" where
  "notify method s = notify_loop method (listeners s) 0 (s\<lparr>events := events s @ [method]\<rparr>)"

section \<open>Directory and link primitives (lines 420-448)\<close>

text \<open>Issue one file-system call: it is recorded, and raises what the world says.\<close>

definition fs_call :: "world \<Rightarrow> fs_call \<Rightarrow> unit action" where
  "fs_call w c = (\<lambda>s.
     (case raises w c of None \<Rightarrow> Inr () | Some e \<Rightarrow> Inl e,
      s\<lparr>fs_calls := fs_calls s @ [c]\<rparr>))"

definition mkdir :: "world \<Rightarrow> path \<Rightarrow> unit action" where
  "mkdir w directory =
     try_except (fs_call w (Mkdir directory))
       (\<lambda>e. if is_OSError e
             then thenM (notify FILE_ERROR) (raiseM FileErrorProblem)
             else raiseM e)"

definition move :: "world \<Rightarrow> path \<Rightarrow> path \<Rightarrow> bool \<Rightarrow> unit action" where
  "move w origin dest prefer_copy =
     try_except
       (if prefer_copy then fs_call w (Copy origin dest) else fs_call w (Move origin dest))
       (\<lambda>e. if is_OSError e
             then thenM (notify FILE_NOT_MOVED) (raiseM FileErrorProblem)
             else raiseM e)"

definition mksymlink :: "world \<Rightarrow> path \<Rightarrow> path \<Rightarrow> unit action" where
  "mksymlink w path target =
     try_except (fs_call w (Symlink path target))
       (\<lambda>e. if is_OSError e
             then thenM (notify FILE_ERROR) (raiseM FileErrorProblem)
             else raiseM e)"

section \<open>deploy_spatial (lines 325-391)\<close>

text \<open>\<open>self.processed_dir / x\<close> is a \<open>TypeError\<close> while \<open>processed_dir\<close> is \<open>None\<close>.\<close>

definition in_processed_dir :: "string \<Rightarrow> path action" where
  "in_processed_dir filename =
     with_self (\<lambda>self.
       case processed_dir self of
         None \<Rightarrow> raiseM TypeError
       | Some d \<Rightarrow> returnM (joinpath d (Path filename)))"

text \<open>The \<open>try\<close> block of the conversion (lines 333-354); it gives the spatial path.\<close>

definition convert_spatial :: "world \<Rightarrow> format \<Rightarrow> path action" where
  "convert_spatial w fmt =
     try_except
       (bindM (in_processed_dir (SPATIAL_STEM w @ ''.'' @ conversion_identifier fmt)) (\<lambda>sp.
        thenM (update (\<lambda>s. s\<lparr>spatial_path := Some sp\<rparr>))
       (thenM (notify START_CONVERSION)
       (thenM (fs_call w (Convert fmt sp))
       (if \<not> convert_result w fmt sp \<or> \<not> path_exists w sp
        then thenM (notify ERROR_CONVERSION) (raiseM FormatConversionProblem)
        else returnM sp)))))
       (\<lambda>e. thenM (notify ERROR_CONVERSION) (raiseM FormatConversionProblem))"

definition deploy_spatial :: "world \<Rightarrow> format \<Rightarrow> image action" where
  "deploy_spatial w fmt =
     thenM (notify START_SPATIAL_DEPLOY)
    (bindM
       (if need_conversion fmt
        then
          bindM (convert_spatial w fmt) (\<lambda>sp.
          thenM (notify END_CONVERSION)
         (thenM (notify START_FORMAT_DETECTION)
         (case spatial_readable_match w sp of
            None \<Rightarrow> thenM (notify ERROR_NO_FORMAT) (raiseM NoMatchingFormatProblem)
          | Some spatial_format \<Rightarrow>
              thenM (notify END_FORMAT_DETECTION)
             (thenM (update (\<lambda>s. s\<lparr>spatial := Some \<lparr>img_path = sp, img_format = spatial_format\<rparr>\<rparr>))
             (thenM (notify START_INTEGRITY_CHECK)
             (thenM (if length (check_integrity w \<lparr>img_path = sp, img_format = spatial_format\<rparr>) > 0
                     then thenM (notify ERROR_INTEGRITY_CHECK) (raiseM ImageParsingProblem)
                     else notify END_INTEGRITY_CHECK)
                    (returnM \<lparr>img_path = sp, img_format = spatial_format\<rparr>)))))))
        else
          bindM (in_processed_dir (SPATIAL_STEM w @ ''.'' @ get_identifier fmt)) (\<lambda>sp.
          thenM (update (\<lambda>s. s\<lparr>spatial_path := Some sp\<rparr>))
         (thenM (with_self (\<lambda>self.
                   case original_path self of
                     None \<Rightarrow> raiseM AttributeError
                   | Some orig \<Rightarrow> mksymlink w sp orig))
         (thenM (update (\<lambda>s. s\<lparr>spatial := Some \<lparr>img_path = sp, img_format = fmt\<rparr>\<rparr>))
                (returnM \<lparr>img_path = sp, img_format = fmt\<rparr>)))))
       (\<lambda>img.
          thenM (assertM (has_spatial_role w (img_path img)))
         (thenM (notify END_SPATIAL_DEPLOY)
                (returnM img))))"

section \<open>deploy_histogram (lines 393-418)\<close>

text \<open>The \<open>try\<close> block of lines 403-412.\<close>

definition build_histogram :: "world \<Rightarrow> path \<Rightarrow> unit action" where
  "build_histogram w hp =
     try_except (fs_call w (BuildHistogram hp))
       (\<lambda>e. if e = FileNotFoundError \<or> e = FileExistsError
             then thenM (notify ERROR_HISTOGRAM) (raiseM FileErrorProblem)
             else raiseM e)"

definition deploy_histogram :: "world \<Rightarrow> path action" where
  "deploy_histogram w =
     bindM (in_processed_dir (HISTOGRAM_STEM w)) (\<lambda>hp.
     thenM (update (\<lambda>s. s\<lparr>histogram_path := Some hp\<rparr>))
    (thenM (notify START_HISTOGRAM_DEPLOY)
    (thenM (build_histogram w hp)
    (thenM (update (\<lambda>s. s\<lparr>histogram := Some hp\<rparr>))
    (thenM (assertM (has_histogram_role w hp))
    (thenM (notify END_HISTOGRAM_DEPLOY)
           (returnM hp)))))))"

section \<open>import_collection (lines 450-520)\<close>

text \<open>The first \<open>CytomineListener\<close> among the listeners (lines 452-456).\<close>

fun find_cytomine :: "listener list \<Rightarrow> listener option" where
  "find_cytomine [] = None"
| "find_cytomine (l # ls) = (if is_cytomine l then Some l else find_cytomine ls)"

text \<open>The body of the \<open>try\<close> of lines 474-483: the task of one child, or the exception
  raised while building it.\<close>

definition build_task :: "listener option \<Rightarrow> bool \<Rightarrow> path \<Rightarrow> exn + import_task" where
  "build_task cytomine prefer_copy child =
     (case cytomine of
        Some c \<Rightarrow>
          (case new_listener_from_registered_child c child of
             Inl e \<Rightarrow> Inl e
           | Inr new_listener \<Rightarrow>
               Inr (IMPORT_WITH_CYTOMINE,
                    \<lparr>child_listener = Some new_listener, child_path = child,
                     child_name = name child, child_prefer_copy = prefer_copy\<rparr>))
      | None \<Rightarrow>
          Inr (IMPORT,
               \<lparr>child_listener = None, child_path = child,
                child_name = name child, child_prefer_copy = prefer_copy\<rparr>))"

text \<open>The loop of lines 468-487, with the tasks built so far. A child whose task cannot
  be built is left out (\<open>except Exception: pass\<close>).\<close>

fun register_children ::
  "listener option \<Rightarrow> bool \<Rightarrow> path list \<Rightarrow> import_task list \<Rightarrow> import_task list action" where
  "register_children cytomine prefer_copy [] tasks s = (Inr tasks, s)"
| "register_children cytomine prefer_copy (child # children) tasks s =
     (case notify REGISTER_FILE s of
        (Inl e, s') \<Rightarrow> (Inl e, s')
      | (Inr _, s') \<Rightarrow>
          register_children cytomine prefer_copy children
            (case build_task cytomine prefer_copy child of
               Inl _ \<Rightarrow> tasks
             | Inr t \<Rightarrow> tasks @ [t]) s')"

text \<open>\<open>_sequential_imports\<close> (lines 489-491): each task is called in process, in order;
  a task that raises ends the loop.\<close>

fun sequential_imports :: "world \<Rightarrow> import_task list \<Rightarrow> unit action" where
  "sequential_imports w [] s = (Inr (), s)"
| "sequential_imports w (t # ts) s =
     (case bg_task w t of
        Some e \<Rightarrow> (Inl e, s\<lparr>executed := executed s @ [(InProcess, t)]\<rparr>)
      | None \<Rightarrow> sequential_imports w ts (s\<lparr>executed := executed s @ [(InProcess, t)]\<rparr>))"

text \<open>The body of the \<open>try\<close> of lines 496-511: the batch is submitted and joined.\<close>

definition celery_imports :: "world \<Rightarrow> import_task list \<Rightarrow> unit action" where
  "celery_imports w tasks = (\<lambda>s.
     (case snd (celery_group w tasks) of None \<Rightarrow> Inr () | Some e \<Rightarrow> Inl e,
      s\<lparr>executed := executed s @ map (Pair Worker) (fst (celery_group w tasks))\<rparr>))"

definition dispatch :: "world \<Rightarrow> import_task list \<Rightarrow> unit action" where
  "dispatch w tasks =
     (if \<not> task_queue_enabled w then sequential_imports w tasks
      else try_except (celery_imports w tasks) (\<lambda>e. sequential_imports w tasks))"

text \<open>\<open>imported\<close> is created empty, never appended to, and returned.\<close>

definition import_collection :: "world \<Rightarrow> path \<Rightarrow> bool \<Rightarrow> path list action" where
  "import_collection w collection prefer_copy =
     with_self (\<lambda>self.
       bindM (register_children (find_cytomine (listeners self)) prefer_copy
                (get_extracted_children w collection) [])
         (\<lambda>tasks. thenM (dispatch w tasks) (returnM [])))"

section \<open>run (lines 166-323)\<close>

text \<open>The upload directory (lines 193-197) and the upload path \<open>upload_dir / name\<close>
  (lines 200-204); an empty \<open>pending_name\<close> counts as absent, and a name that is an
  absolute path is the upload path by itself.\<close>

definition new_upload_dir :: "world \<Rightarrow> path" where
  "new_upload_dir w =
     joinpath (FILE_ROOT_PATH w) (Path (UPLOAD_DIR_PREFIX w @ unique_name_generator w))"

definition new_upload_path :: "world \<Rightarrow> importer \<Rightarrow> path" where
  "new_upload_path w self =
     joinpath (new_upload_dir w)
       (Path (case pending_name self of
                Some n \<Rightarrow> if n \<noteq> [] then n else name (pending_file self)
              | None \<Rightarrow> name (pending_file self)))"

text \<open>Lines 182-217: the pending file is checked and relocated into a fresh upload
  directory. The result is the upload directory and the upload path.\<close>

definition relocate :: "world \<Rightarrow> bool \<Rightarrow> (path \<times> path) action" where
  "relocate w prefer_copy =
     thenM (notify START_DATA_EXTRACTION)
       (with_self (\<lambda>self.
          if (\<not> is_extracted w (pending_file self) \<and>
              (parent (pending_file self) \<noteq> WRITING_PATH w \<and>
               parent (pending_file self) \<noteq> PENDING_PATH w))
             \<or> \<not> path_exists w (pending_file self)
          then thenM (notify FILE_NOT_FOUND) (raiseM FilepathNotFoundProblem)
          else
            thenM (update (\<lambda>s. s\<lparr>upload_dir := Some (new_upload_dir w)\<rparr>))
           (thenM (mkdir w (new_upload_dir w))
           (thenM (update (\<lambda>s. s\<lparr>upload_path := Some (new_upload_path w self)\<rparr>))
           (thenM (move w (pending_file self) (new_upload_path w self) prefer_copy)
           (thenM (if \<not> prefer_copy \<and> is_extracted w (pending_file self)
                   then mksymlink w (pending_file self) (new_upload_path w self)
                   else returnM ())
           (thenM (notify MOVED_PENDING_FILE)
           (thenM (notify END_DATA_EXTRACTION)
                  (returnM (new_upload_dir w, new_upload_path w self))))))))))"

text \<open>Lines 219-236: the format of the upload, and whether it came from
  \<open>Archive.from_path\<close>.\<close>

definition detect_format :: "world \<Rightarrow> path \<Rightarrow> (format \<times> bool) action" where
  "detect_format w up =
     thenM (notify START_FORMAT_DETECTION)
       (case importable_match w up of
          Some fmt \<Rightarrow> thenM (notify END_FORMAT_DETECTION) (returnM (fmt, False))
        | None \<Rightarrow>
            (case archive_from_path w up of
               Some fmt \<Rightarrow> thenM (notify END_FORMAT_DETECTION) (returnM (fmt, True))
             | None \<Rightarrow> thenM (notify ERROR_NO_FORMAT) (raiseM NoMatchingFormatProblem)))"

text \<open>The \<open>try\<close> block of lines 248-258: only \<open>ArchiveError\<close> is caught.\<close>

definition unpack :: "world \<Rightarrow> path \<Rightarrow> path \<Rightarrow> unit action" where
  "unpack w up orig =
     try_except
       (thenM (notify START_UNPACKING) (fs_call w (Extract up orig)))
       (\<lambda>e. if e = ArchiveError
             then thenM (notify ERROR_UNPACKING) (raiseM FileErrorProblem)
             else raiseM e)"

text \<open>Lines 238-291: the processed directory and the original representation.
  \<open>Inl collection\<close> is the early \<open>return collection\<close> of line 288; \<open>Inr\<close> carries the
  format, the upload path and the original path the run goes on with.\<close>

definition make_original ::
  "world \<Rightarrow> bool \<Rightarrow> path \<Rightarrow> path \<Rightarrow> format \<Rightarrow> bool
     \<Rightarrow> (path list + format \<times> path \<times> path) action" where
  "make_original w prefer_copy ud up fmt is_archive =
     (let pd = joinpath ud (Path (PROCESSED_DIR w));
          orig = joinpath pd (Path (ORIGINAL_STEM w @ ''.'' @ get_identifier fmt))
      in thenM (update (\<lambda>s. s\<lparr>processed_dir := Some pd\<rparr>))
        (thenM (mkdir w pd)
        (thenM (update (\<lambda>s. s\<lparr>original_path := Some orig\<rparr>))
        (if is_archive
         then
           thenM (unpack w up orig)
             (case importable_match w orig of
                Some fmt' \<Rightarrow>
                  (let new_orig = joinpath pd (Path (ORIGINAL_STEM w @ ''.'' @ get_identifier fmt'))
                   in thenM (move w orig new_orig False)
                     (thenM (update (\<lambda>s. s\<lparr>original_path := Some new_orig\<rparr>))
                     (thenM (notify END_UNPACKING)
                     (thenM (update (\<lambda>s. s\<lparr>upload_path := Some new_orig\<rparr>))
                            (returnM (Inr (fmt', new_orig, new_orig)))))))
              | None \<Rightarrow>
                  (let ed = joinpath pd (Path (EXTRACTED_DIR w))
                   in thenM (update (\<lambda>s. s\<lparr>extracted_dir := Some ed\<rparr>))
                     (thenM (mksymlink w ed orig)
                     (bindM (import_collection w orig prefer_copy) (\<lambda>collection.
                      thenM (notify END_UNPACKING)
                            (returnM (Inl collection)))))))
         else
           thenM (mksymlink w orig up)
          (thenM (assertM (has_original_role w orig))
                 (returnM (Inr (fmt, up, orig))))))))"

text \<open>Lines 293-317: integrity check, spatial and histogram deployment.\<close>

definition deploy :: "world \<Rightarrow> format \<Rightarrow> path \<Rightarrow> path \<Rightarrow> path list action" where
  "deploy w fmt up orig =
     thenM (notify START_INTEGRITY_CHECK)
    (thenM (update (\<lambda>s. s\<lparr>original := Some \<lparr>img_path = orig, img_format = fmt\<rparr>\<rparr>))
    (thenM (if length (check_integrity w \<lparr>img_path = orig, img_format = fmt\<rparr>) > 0
            then thenM (notify ERROR_INTEGRITY_CHECK) (raiseM ImageParsingProblem)
            else notify END_INTEGRITY_CHECK)
    (thenM (if is_spatial fmt
            then bindM (deploy_spatial w fmt) (\<lambda>_. returnM ())
            else raiseM NotImplementedError)
    (thenM (bindM (deploy_histogram w) (\<lambda>_. returnM ()))
    (thenM (notify END_SUCCESSFUL_IMPORT)
           (returnM [up]))))))"

text \<open>The body of the \<open>try\<close> of \<open>run\<close> (lines 182-317).\<close>

definition run_body :: "world \<Rightarrow> bool \<Rightarrow> path list action" where
  "run_body w prefer_copy =
     bindM (relocate w prefer_copy) (\<lambda>(ud, up).
     bindM (detect_format w up) (\<lambda>(fmt, is_archive).
     bindM (make_original w prefer_copy ud up fmt is_archive) (\<lambda>r.
       case r of
         Inl collection \<Rightarrow> returnM collection
       | Inr (fmt', up', orig) \<Rightarrow> deploy w fmt' up' orig)))"

text \<open>\<open>run\<close>: any exception is notified as a generic file error and raised again
  (lines 318-323).\<close>

definition run :: "world \<Rightarrow> bool \<Rightarrow> path list action" where
  "run w prefer_copy =
     try_except (run_body w prefer_copy)
       (\<lambda>e. thenM (notify FILE_ERROR) (raiseM e))"

section \<open>decode_key (lines 738-747)\<close>

text \<open>Python's \<open>xs[-n:]\<close>: the last \<open>n\<close> elements, all of \<open>xs\<close> when it is shorter, and
  all of \<open>xs\<close> when \<open>n = 0\<close>.\<close>

definition last_slice :: "nat \<Rightarrow> 'a list \<Rightarrow> 'a list" where
  "last_slice n xs = (if n = 0 then xs else drop (length xs - n) xs)"

datatype PrivateKey = PrivateKey "8 word list"

text \<open>\<open>b64decode\<close> (the standard library's) and \<open>SecretBox.KEY_SIZE\<close> (PyNaCl's) are
  parameters.\<close>

definition decode_key :: "(string \<Rightarrow> exn + 8 word list) \<Rightarrow> nat \<Rightarrow> string \<Rightarrow> exn + PrivateKey" where
  "decode_key b64decode NACL_KEY_LENGTH key =
     (case b64decode key of
        Inl e \<Rightarrow> Inl e
      | Inr decoded \<Rightarrow>
          let secret_key = last_slice NACL_KEY_LENGTH decoded
          in if length secret_key \<noteq> NACL_KEY_LENGTH then Inl ValueError
             else Inr (PrivateKey secret_key))"

section \<open>Auxiliary functions for the proofs\<close>

text \<open>What \<open>notify\<close> raises for a listener list: the first exception other than
  \<open>AttributeError\<close>, if any.\<close>

fun notify_raises :: "ImportEventType \<Rightarrow> listener list \<Rightarrow> exn option" where
  "notify_raises k [] = None"
| "notify_raises k (l # ls) =
     (case on_event l k of
        Raises e \<Rightarrow> if e = AttributeError then notify_raises k ls else Some e
      | _ \<Rightarrow> notify_raises k ls)"

text \<open>The deliveries \<open>notify\<close> makes and the failures it logs, from listener index \<open>i\<close> on.\<close>

fun handled :: "ImportEventType \<Rightarrow> listener list \<Rightarrow> nat \<Rightarrow> (nat \<times> ImportEventType) list" where
  "handled k [] i = []"
| "handled k (l # ls) i =
     (case on_event l k of
        Returns \<Rightarrow> (i, k) # handled k ls (Suc i)
      | Missing \<Rightarrow> handled k ls (Suc i)
      | Raises e \<Rightarrow> if e = AttributeError then handled k ls (Suc i) else [])"

fun unhandled :: "ImportEventType \<Rightarrow> listener list \<Rightarrow> nat \<Rightarrow> (nat \<times> ImportEventType) list" where
  "unhandled k [] i = []"
| "unhandled k (l # ls) i =
     (case on_event l k of
        Returns \<Rightarrow> unhandled k ls (Suc i)
      | Missing \<Rightarrow> (i, k) # unhandled k ls (Suc i)
      | Raises e \<Rightarrow> if e = AttributeError then (i, k) # unhandled k ls (Suc i) else [])"

text \<open>Whether the handler of a listener for an event kind raises an exception that
  \<open>notify\<close> does not catch, and the number of listeners before the first such one: the
  listeners that \<open>notify\<close> gets through.\<close>

definition aborts :: "ImportEventType \<Rightarrow> listener \<Rightarrow> bool" where
  "aborts k l = (case on_event l k of Raises e \<Rightarrow> e \<noteq> AttributeError | _ \<Rightarrow> False)"

definition reached :: "ImportEventType \<Rightarrow> listener list \<Rightarrow> nat" where
  "reached k ls = length (takeWhile (\<lambda>l. \<not> aborts k l) ls)"

text \<open>Listeners none of which raises anything but \<open>AttributeError\<close>.\<close>

definition quiet :: "listener list \<Rightarrow> bool" where
  "quiet ls = (\<forall>k. notify_raises k ls = None)"

text \<open>How often an event kind has been notified.\<close>

definition emitted :: "ImportEventType \<Rightarrow> importer \<Rightarrow> nat" where
  "emitted k s = count_list (events s) k"

text \<open>Properties of actions used in the proofs: \<open>preserves f m\<close>, the action leaves the
  projection \<open>f\<close> of the state as it is; \<open>inert f\<close>, the projection reads neither the
  recorded effects nor an attribute a run assigns (other than \<open>extracted_dir\<close>);
  \<open>grows m\<close>, the action only appends file-system calls; \<open>guards k m\<close>, the action
  notifies \<open>k\<close> at most once, and only when it raises; \<open>yields P m\<close>, every value the
  action returns satisfies \<open>P\<close>.\<close>

definition preserves :: "(importer \<Rightarrow> 'b) \<Rightarrow> 'a action \<Rightarrow> bool" where
  "preserves f m = (\<forall>s. f (snd (m s)) = f s)"

definition inert :: "(importer \<Rightarrow> 'b) \<Rightarrow> bool" where
  "inert f = (\<forall>s.
     (\<forall>v. f (s\<lparr>events := v\<rparr>) = f s) \<and> (\<forall>v. f (s\<lparr>deliveries := v\<rparr>) = f s) \<and>
     (\<forall>v. f (s\<lparr>logged := v\<rparr>) = f s) \<and> (\<forall>v. f (s\<lparr>fs_calls := v\<rparr>) = f s) \<and>
     (\<forall>v. f (s\<lparr>executed := v\<rparr>) = f s) \<and> (\<forall>v. f (s\<lparr>upload_dir := v\<rparr>) = f s) \<and>
     (\<forall>v. f (s\<lparr>upload_path := v\<rparr>) = f s) \<and> (\<forall>v. f (s\<lparr>original_path := v\<rparr>) = f s) \<and>
     (\<forall>v. f (s\<lparr>original := v\<rparr>) = f s) \<and> (\<forall>v. f (s\<lparr>spatial_path := v\<rparr>) = f s) \<and>
     (\<forall>v. f (s\<lparr>spatial := v\<rparr>) = f s) \<and> (\<forall>v. f (s\<lparr>histogram_path := v\<rparr>) = f s) \<and>
     (\<forall>v. f (s\<lparr>histogram := v\<rparr>) = f s) \<and> (\<forall>v. f (s\<lparr>processed_dir := v\<rparr>) = f s))"

definition grows :: "'a action \<Rightarrow> bool" where
  "grows m = (\<forall>s. \<exists>xs. fs_calls (snd (m s)) = fs_calls s @ xs)"

definition guards :: "ImportEventType \<Rightarrow> 'a action \<Rightarrow> bool" where
  "guards k m = (\<forall>s. case fst (m s) of
                        Inr _ \<Rightarrow> emitted k (snd (m s)) = emitted k s
                      | Inl _ \<Rightarrow> emitted k (snd (m s)) \<le> emitted k s + 1)"

definition yields :: "('a \<Rightarrow> bool) \<Rightarrow> 'a action \<Rightarrow> bool" where
  "yields P m = (\<forall>s x s'. m s = (Inr x, s') \<longrightarrow> P x)"

text \<open>The run after the relocation (lines 219-317), and the handler of lines 318-323.\<close>

definition run_rest :: "world \<Rightarrow> bool \<Rightarrow> path \<Rightarrow> path \<Rightarrow> path list action" where
  "run_rest w prefer_copy ud up =
     bindM (detect_format w up) (\<lambda>(fmt, is_archive).
     bindM (make_original w prefer_copy ud up fmt is_archive) (\<lambda>r.
       case r of
         Inl collection \<Rightarrow> returnM collection
       | Inr (fmt', up', orig) \<Rightarrow> deploy w fmt' up' orig))"

definition on_error :: "exn \<Rightarrow> path list action" where
  "on_error e = thenM (notify FILE_ERROR) (raiseM e)"

text \<open>The source areas a pending file may come from (lines 186-187).\<close>

definition sanctioned :: "world \<Rightarrow> path \<Rightarrow> bool" where
  "sanctioned w p \<longleftrightarrow>
     is_extracted w p \<or> parent p = PENDING_PATH w \<or> parent p = WRITING_PATH w"

text \<open>The tasks \<open>register_children\<close> builds: those of the children whose task can be
  built, in listing order.\<close>

definition tasks_of :: "listener option \<Rightarrow> bool \<Rightarrow> path list \<Rightarrow> import_task list" where
  "tasks_of cytomine prefer_copy children =
     concat (map (\<lambda>ch. case build_task cytomine prefer_copy ch of
                             Inl _ \<Rightarrow> [] | Inr t \<Rightarrow> [t]) children)"

text \<open>The path of the original representation of a format in the processed directory of
  an upload directory (lines 239-246 and 264-267).\<close>

definition original_of :: "world \<Rightarrow> path \<Rightarrow> format \<Rightarrow> path" where
  "original_of w ud fmt =
     joinpath (joinpath ud (Path (PROCESSED_DIR w)))
       (Path (ORIGINAL_STEM w @ ''.'' @ get_identifier fmt))"

text \<open>The steps of lines 293-310, before the final event of lines 313-316.\<close>

definition deploy_steps :: "world \<Rightarrow> format \<Rightarrow> path \<Rightarrow> unit action" where
  "deploy_steps w fmt orig =
     thenM (notify START_INTEGRITY_CHECK)
    (thenM (update (\<lambda>s. s\<lparr>original := Some \<lparr>img_path = orig, img_format = fmt\<rparr>\<rparr>))
    (thenM (if length (check_integrity w \<lparr>img_path = orig, img_format = fmt\<rparr>) > 0
            then thenM (notify ERROR_INTEGRITY_CHECK) (raiseM ImageParsingProblem)
            else notify END_INTEGRITY_CHECK)
    (thenM (if is_spatial fmt
            then bindM (deploy_spatial w fmt) (\<lambda>_. returnM ())
            else raiseM NotImplementedError)
           (bindM (deploy_histogram w) (\<lambda>_. returnM ())))))"

text \<open>Whether a file-system call fails in a way that the primitive issuing it notifies as a
  generic file error itself: a call of \<open>mkdir\<close> or \<open>mksymlink\<close> that raises an \<open>OSError\<close>
  (lines 423-426 and 444-448). \<open>file_errors\<close> counts that event for a sequence of calls, of
  which only the last can have failed. \<open>accounts w m\<close>: the action only appends calls; when
  it returns none of them has failed and no generic file error was notified; when it
  raises, the generic file errors notified are those of its calls.\<close>

definition notifies_file_error :: "world \<Rightarrow> fs_call \<Rightarrow> bool" where
  "notifies_file_error w c =
     ((case c of Mkdir _ \<Rightarrow> True | Symlink _ _ \<Rightarrow> True | _ \<Rightarrow> False)
      \<and> (case raises w c of Some e \<Rightarrow> is_OSError e | None \<Rightarrow> False))"

definition file_errors :: "world \<Rightarrow> fs_call list \<Rightarrow> nat" where
  "file_errors w xs = (if xs \<noteq> [] \<and> notifies_file_error w (last xs) then 1 else 0)"

definition accounts :: "world \<Rightarrow> 'a action \<Rightarrow> bool" where
  "accounts w m = (\<forall>s. \<exists>xs. fs_calls (snd (m s)) = fs_calls s @ xs \<and>
      (case fst (m s) of
         Inr _ \<Rightarrow> emitted FILE_ERROR (snd (m s)) = emitted FILE_ERROR s
                  \<and> (\<forall>c \<in> set xs. raises w c = None)
       | Inl _ \<Rightarrow> emitted FILE_ERROR (snd (m s)) = emitted FILE_ERROR s + file_errors w xs))"

text \<open>Whether the upload is an archive that holds a collection: it matches no format
  itself, and neither does what is extracted from it (lines 222-227 and 260-278).\<close>

definition is_collection :: "world \<Rightarrow> path \<Rightarrow> path \<Rightarrow> bool" where
  "is_collection w ud up =
     (importable_match w up = None \<and>
      (case archive_from_path w up of
         None \<Rightarrow> False
       | Some a \<Rightarrow> importable_match w (original_of w ud a) = None))"

text \<open>Collections of proof rules.\<close>

named_theorems comb
named_theorems pres
named_theorems keep
named_theorems grow
named_theorems guard
named_theorems yield
named_theorems succ
named_theorems acct

section \<open>Example listeners and inputs\<close>

text \<open>A listener that handles every event, one that has no handler at all, and one
  whose handlers raise.\<close>

definition stdout_listener :: listener where
  "stdout_listener =
     \<lparr>on_event = (\<lambda>_. Returns), is_cytomine = False,
      new_listener_from_registered_child = (\<lambda>_. Inl AttributeError)\<rparr>"

definition bare_listener :: listener where
  "bare_listener =
     \<lparr>on_event = (\<lambda>_. Missing), is_cytomine = False,
      new_listener_from_registered_child = (\<lambda>_. Inl AttributeError)\<rparr>"

definition raising_listener :: listener where
  "raising_listener =
     \<lparr>on_event = (\<lambda>_. Raises (OtherException ''boom'')), is_cytomine = False,
      new_listener_from_registered_child = (\<lambda>_. Inl AttributeError)\<rparr>"

definition slide :: path where
  "slide = [''pending'', ''slide.ext'']"

definition ext_format :: format where
  "ext_format = \<lparr>get_identifier = ''EXT'', is_spatial = True, need_conversion = False,
                  conversion_identifier = ''''\<rparr>"

text \<open>A world in which every call succeeds and every path holds a directly readable
  image.\<close>

definition plain_world :: world where
  "plain_world =
     \<lparr>FILE_ROOT_PATH = [''data''], PENDING_PATH = [''pending''], WRITING_PATH = [''writing''],
      UPLOAD_DIR_PREFIX = ''upload'', PROCESSED_DIR = ''processed'',
      EXTRACTED_DIR = ''extracted'', ORIGINAL_STEM = ''original'',
      SPATIAL_STEM = ''visualisation'', HISTOGRAM_STEM = ''histogram'',
      task_queue_enabled = False, unique_name_generator = ''1'',
      is_extracted = (\<lambda>p. ''extracted'' \<in> set p),
      path_exists = (\<lambda>_. True),
      raises = (\<lambda>_. None),
      convert_result = (\<lambda>_ _. True),
      importable_match = (\<lambda>_. Some ext_format),
      spatial_readable_match = (\<lambda>_. Some ext_format),
      archive_from_path = (\<lambda>_. None),
      has_original_role = (\<lambda>_. True),
      has_spatial_role = (\<lambda>_. True),
      has_histogram_role = (\<lambda>_. True),
      check_integrity = (\<lambda>_. []),
      get_extracted_children = (\<lambda>_. []),
      bg_task = (\<lambda>_. None),
      celery_group = (\<lambda>ts. (ts, None))\<rparr>"

text \<open>A file outside the sanctioned areas, and one extracted from an archive.\<close>

definition stray :: path where
  "stray = [''elsewhere'', ''slide.ext'']"

definition extracted_child :: path where
  "extracted_child = [''data'', ''upload0'', ''processed'', ''extracted'', ''child.ext'']"

text \<open>A format that needs conversion, an importer that has reached the deployment of
  the spatial representation, a world whose conversions report failure and one whose
  converted files match no directly readable format.\<close>

definition raw_format :: format where
  "raw_format = \<lparr>get_identifier = ''RAW'', is_spatial = True, need_conversion = True,
                  conversion_identifier = ''TIFF''\<rparr>"

definition staged :: importer where
  "staged = (FileImporter slide None (Some [stdout_listener]))
     \<lparr>processed_dir := Some [''data'', ''upload1'', ''processed''],
      original_path := Some [''data'', ''upload1'', ''processed'', ''original.EXT'']\<rparr>"

definition failing_conversion_world :: world where
  "failing_conversion_world = plain_world\<lparr>convert_result := (\<lambda>_ _. False)\<rparr>"

definition unreadable_world :: world where
  "unreadable_world = plain_world\<lparr>spatial_readable_match := (\<lambda>_. None)\<rparr>"

text \<open>A Cytomine listener that cannot register the child \<open>b\<close>, an archive holding the two
  children \<open>a\<close> and \<open>b\<close> that is not itself an image, and a world with the task queue
  enabled in which the only child is run by a worker, fails there, and the join raises.\<close>

definition cytomine_listener :: listener where
  "cytomine_listener =
     \<lparr>on_event = (\<lambda>_. Returns), is_cytomine = True,
      new_listener_from_registered_child =
        (\<lambda>p. if p = [''extracted'', ''b''] then Inl (OtherException ''no uploaded file'')
              else Inr 1)\<rparr>"

definition zip_format :: format where
  "zip_format = \<lparr>get_identifier = ''ZIP'', is_spatial = False, need_conversion = False,
                  conversion_identifier = ''''\<rparr>"

definition archive_world :: world where
  "archive_world = plain_world
     \<lparr>importable_match := (\<lambda>_. None),
      archive_from_path := (\<lambda>_. Some zip_format),
      get_extracted_children := (\<lambda>_. [[''extracted'', ''a''], [''extracted'', ''b'']])\<rparr>"

definition join_fails_world :: world where
  "join_fails_world = archive_world
     \<lparr>task_queue_enabled := True,
      get_extracted_children := (\<lambda>_. [[''extracted'', ''a'']]),
      celery_group := (\<lambda>ts. (ts, Some (OtherException ''child import failed'')))\<rparr>"

definition task_a :: import_task where
  "task_a = (IMPORT, \<lparr>child_listener = None, child_path = [''extracted'', ''a''],
                      child_name = ''a'', child_prefer_copy = False\<rparr>)"

text \<open>A world in which every file holds an image of a format that is not spatial.\<close>

definition flat_format :: format where
  "flat_format = \<lparr>get_identifier = ''FLAT'', is_spatial = False, need_conversion = False,
                   conversion_identifier = ''''\<rparr>"

definition flat_world :: world where
  "flat_world = plain_world\<lparr>importable_match := (\<lambda>_. Some flat_format)\<rparr>"

text \<open>A world in which every upload is an archive that, once extracted, holds an image of
  that format.\<close>

definition multi_world :: world where
  "multi_world = flat_world
     \<lparr>importable_match := (\<lambda>p. if name p = ''original.ZIP'' then Some flat_format else None),
      archive_from_path := (\<lambda>_. Some zip_format)\<rparr>"

text \<open>A world in which every file-system call fails.\<close>

definition readonly_world :: world where
  "readonly_world = plain_world\<lparr>raises := (\<lambda>_. Some OSError)\<rparr>"

text \<open>\<open>b64decode\<close> on blobs made of the letter A only: every four letters decode to
  three zero bytes.\<close>

definition b64decode_A :: "string \<Rightarrow> exn + 8 word list" where
  "b64decode_A key =
     (if list_all (\<lambda>c. c = CHR ''A'') key \<and> length key mod 4 = 0
      then Inr (replicate (length key div 4 * 3) 0)
      else Inl ValueError)"

definition blob33 :: string where
  "blob33 = replicate 44 (CHR ''A'')"

definition blob3 :: string where
  "blob3 = ''AAAA''"

section \<open>Properties of notify\<close>

lemma notify_loop_eq:
  "notify_loop k ls i s =
     (case notify_raises k ls of None \<Rightarrow> Inr () | Some e \<Rightarrow> Inl e,
      s\<lparr>deliveries := deliveries s @ handled k ls i, logged := logged s @ unhandled k ls i\<rparr>)"
  by (induction ls arbitrary: i s) (auto split: outcome.splits)

lemma notify_eq:
  "notify k s =
     (case notify_raises k (listeners s) of None \<Rightarrow> Inr () | Some e \<Rightarrow> Inl e,
      s\<lparr>events := events s @ [k],
        deliveries := deliveries s @ handled k (listeners s) 0,
        logged := logged s @ unhandled k (listeners s) 0\<rparr>)"
  by (simp add: notify_def notify_loop_eq)

lemma upt_shift: "[0..<Suc n] = 0 # map Suc [0..<n]"
  by (simp add: upt_conv_Cons map_Suc_upt del: upt_Suc)

lemma handled_reached:
  "handled k ls i =
     map (\<lambda>j. (i + j, k)) (filter (\<lambda>j. on_event (ls ! j) k = Returns) [0..<reached k ls])"
proof (induction ls arbitrary: i)
  case Nil
  then show ?case by (simp add: reached_def)
next
  case (Cons l ls)
  show ?case
  proof (cases "aborts k l")
    case True
    then show ?thesis by (auto simp: reached_def aborts_def split: outcome.splits)
  next
    case False
    then have r: "reached k (l # ls) = Suc (reached k ls)" by (simp add: reached_def)
    from False Cons[of "Suc i"] show ?thesis
      unfolding r upt_shift
      by (auto simp: aborts_def filter_map comp_def split: outcome.splits)
  qed
qed

lemma unhandled_reached:
  "unhandled k ls i =
     map (\<lambda>j. (i + j, k)) (filter (\<lambda>j. on_event (ls ! j) k \<noteq> Returns) [0..<reached k ls])"
proof (induction ls arbitrary: i)
  case Nil
  then show ?case by (simp add: reached_def)
next
  case (Cons l ls)
  show ?case
  proof (cases "aborts k l")
    case True
    then show ?thesis by (auto simp: reached_def aborts_def split: outcome.splits)
  next
    case False
    then have r: "reached k (l # ls) = Suc (reached k ls)" by (simp add: reached_def)
    from False Cons[of "Suc i"] show ?thesis
      unfolding r upt_shift
      by (auto simp: aborts_def filter_map comp_def split: outcome.splits)
  qed
qed

lemma notify_raises_reached:
  "notify_raises k ls =
     (if reached k ls = length ls then None
      else case on_event (ls ! reached k ls) k of Raises e \<Rightarrow> Some e | _ \<Rightarrow> None)"
proof (induction ls)
  case Nil
  then show ?case by (simp add: reached_def)
next
  case (Cons l ls)
  show ?case
  proof (cases "aborts k l")
    case True
    then show ?thesis by (auto simp: reached_def aborts_def split: outcome.splits)
  next
    case False
    then have r: "reached k (l # ls) = Suc (reached k ls)" by (simp add: reached_def)
    from False Cons show ?thesis
      unfolding r by (auto simp: aborts_def split: outcome.splits)
  qed
qed

lemma reached_le: "reached k ls \<le> length ls"
  by (simp add: reached_def length_takeWhile_le)

lemma reached_aborts: "reached k ls < length ls \<Longrightarrow> aborts k (ls ! reached k ls)"
  unfolding reached_def using nth_length_takeWhile[of "\<lambda>l. \<not> aborts k l" ls] by simp

lemma mixed_reached:
  "reached START_DATA_EXTRACTION [bare_listener, stdout_listener, raising_listener, stdout_listener] = 2"
  "reached START_DATA_EXTRACTION [bare_listener, stdout_listener] = 2"
  by code_simp+

lemma listener_events:
  "on_event bare_listener k = Missing"
  "on_event stdout_listener k = Returns"
  "on_event raising_listener k = Raises (OtherException ''boom'')"
  by (simp_all add: bare_listener_def stdout_listener_def raising_listener_def)

lemma upt_2: "[0..<2] = [0, Suc 0]"
  by (simp add: numeral_2_eq_2)

lemma init_records:
  "listeners (FileImporter pf pn (Some ls)) = ls"
  "deliveries (FileImporter pf pn lo) = []"
  "logged (FileImporter pf pn lo) = []"
  by (simp_all add: FileImporter_def)

text \<open>
  C3 (as amended). For every event kind and listener list, \<open>notify\<close> goes through the
  listeners in registration order up to the first one whose handler raises an exception
  other than \<open>AttributeError\<close>. Among the listeners before that one, the handlers that
  return are the deliveries, in order, and every other listener (no handler for the kind,
  or a handler raising \<open>AttributeError\<close>) has its failure logged. When there is no such
  listener \<open>notify\<close> returns normally, all listeners having been gone through. Otherwise
  the exception of that listener leaves \<open>notify\<close>, and neither a delivery nor a log entry
  is made for it or for any listener registered after it.
\<close>

theorem notify_tolerates_attribute_errors:
  "events (snd (notify k s)) = events s @ [k]
   \<and> deliveries (snd (notify k s)) = deliveries s @
       map (\<lambda>j. (j, k))
         (filter (\<lambda>j. on_event (listeners s ! j) k = Returns) [0..<reached k (listeners s)])
   \<and> logged (snd (notify k s)) = logged s @
       map (\<lambda>j. (j, k))
         (filter (\<lambda>j. on_event (listeners s ! j) k \<noteq> Returns) [0..<reached k (listeners s)])
   \<and> (reached k (listeners s) = length (listeners s) \<longrightarrow> fst (notify k s) = Inr ())
   \<and> (reached k (listeners s) < length (listeners s) \<longrightarrow>
        (\<exists>e. on_event (listeners s ! reached k (listeners s)) k = Raises e \<and> e \<noteq> AttributeError
            \<and> fst (notify k s) = Inl e))"
proof -
  have "reached k (listeners s) < length (listeners s) \<Longrightarrow>
        \<exists>e. on_event (listeners s ! reached k (listeners s)) k = Raises e \<and> e \<noteq> AttributeError
            \<and> fst (notify k s) = Inl e"
    using reached_aborts[of k "listeners s"] notify_raises_reached[of k "listeners s"]
    by (auto simp: notify_eq aborts_def split: outcome.splits)
  moreover have "reached k (listeners s) = length (listeners s) \<Longrightarrow> fst (notify k s) = Inr ()"
    using notify_raises_reached[of k "listeners s"] by (simp add: notify_eq)
  ultimately show ?thesis
    using handled_reached[of k "listeners s" 0] unhandled_reached[of k "listeners s" 0]
    by (simp add: notify_eq)
qed

theorem notify_tolerates_attribute_errors_witness:
  "fst (notify START_DATA_EXTRACTION
          (FileImporter slide None (Some [bare_listener, stdout_listener]))) = Inr ()
   \<and> fst (notify START_DATA_EXTRACTION
          (FileImporter slide None
             (Some [bare_listener, stdout_listener, raising_listener, stdout_listener])))
       = Inl (OtherException ''boom'')
   \<and> deliveries (snd (notify START_DATA_EXTRACTION
          (FileImporter slide None
             (Some [bare_listener, stdout_listener, raising_listener, stdout_listener]))))
       = [(1, START_DATA_EXTRACTION)]
   \<and> logged (snd (notify START_DATA_EXTRACTION
          (FileImporter slide None
             (Some [bare_listener, stdout_listener, raising_listener, stdout_listener]))))
       = [(0, START_DATA_EXTRACTION)]"
  using notify_tolerates_attribute_errors
    [of START_DATA_EXTRACTION "FileImporter slide None (Some [bare_listener, stdout_listener])"]
    notify_tolerates_attribute_errors
    [of START_DATA_EXTRACTION "FileImporter slide None
             (Some [bare_listener, stdout_listener, raising_listener, stdout_listener])"]
  by (simp add: init_records mixed_reached listener_events upt_2)

text \<open>
  C3 as stated fails: a handler raising an exception other than \<open>AttributeError\<close> ends
  the delivery; the exception leaves \<open>notify\<close> and the listener registered after it is
  not notified.
\<close>

theorem notify_aborts_on_other_exception:
  "fst (notify START_DATA_EXTRACTION
          (FileImporter slide None (Some [raising_listener, stdout_listener])))
     = Inl (OtherException ''boom'')
   \<and> deliveries (snd (notify START_DATA_EXTRACTION
          (FileImporter slide None (Some [raising_listener, stdout_listener])))) = []"
  by (simp add: notify_eq FileImporter_def raising_listener_def stdout_listener_def)

section \<open>Properties of decode_key\<close>

text \<open>
  C9 (as amended). With a positive key length \<open>n\<close>: when the decoded material has at least
  \<open>n\<close> bytes, \<open>decode_key\<close> returns its last \<open>n\<close> bytes as the key, of length exactly \<open>n\<close>;
  when it has fewer than \<open>n\<close> bytes, \<open>decode_key\<close> fails with \<open>ValueError\<close>.
\<close>

theorem decode_key_length_check:
  assumes "0 < n" and "b64decode key = Inr decoded"
  shows "(n \<le> length decoded \<longrightarrow>
            decode_key b64decode n key = Inr (PrivateKey (drop (length decoded - n) decoded))
          \<and> length (drop (length decoded - n) decoded) = n)
       \<and> (length decoded < n \<longrightarrow> decode_key b64decode n key = Inl ValueError)"
  using assms by (auto simp: decode_key_def last_slice_def Let_def)

lemma b64decode_blob33: "b64decode_A blob33 = Inr (replicate 33 0)"
  by (simp add: b64decode_A_def blob33_def list_all_length)

lemma b64decode_blob3: "b64decode_A blob3 = Inr (replicate 3 0)"
  by (simp add: b64decode_A_def blob3_def)

theorem decode_key_length_check_witness:
  "decode_key b64decode_A 32 blob33 = Inr (PrivateKey (replicate 32 0))
   \<and> decode_key b64decode_A 32 blob3 = Inl ValueError"
  using decode_key_length_check[of 32 b64decode_A blob33 "replicate 33 0"]
    decode_key_length_check[of 32 b64decode_A blob3 "replicate 3 0"]
  by (simp add: b64decode_blob33 b64decode_blob3)

text \<open>
  C9 as stated fails for material that is too long: 33 decoded bytes give a key (the
  last 32 bytes) and no error.
\<close>

theorem decode_key_accepts_longer_material:
  "b64decode_A blob33 = Inr (replicate 33 0)
   \<and> decode_key b64decode_A 32 blob33 = Inr (PrivateKey (replicate 32 0))"
  by (simp add: b64decode_blob33 decode_key_def last_slice_def Let_def)

section \<open>Reasoning about actions\<close>

lemma bindM_cases:
  assumes "bindM m g s = (r, s')"
  obtains (raised) e where "m s = (Inl e, s')" "r = Inl e"
        | (returned) x s1 where "m s = (Inr x, s1)" "g x s1 = (r, s')"
proof (cases "m s")
  case (Pair r1 s1)
  show ?thesis
  proof (cases r1)
    case (Inl e)
    with Pair assms have "m s = (Inl e, s')" "r = Inl e" by (auto simp: bindM_def)
    then show ?thesis by (rule raised)
  next
    case (Inr x)
    with Pair assms have "m s = (Inr x, s1)" "g x s1 = (r, s')" by (auto simp: bindM_def)
    then show ?thesis by (rule returned)
  qed
qed

lemma try_except_cases:
  assumes "try_except m h s = (r, s')"
  obtains (caught) e s1 where "m s = (Inl e, s1)" "h e s1 = (r, s')"
        | (passed) x where "m s = (Inr x, s')" "r = Inr x"
proof (cases "m s")
  case (Pair r1 s1)
  show ?thesis
  proof (cases r1)
    case (Inl e)
    with Pair assms have "m s = (Inl e, s1)" "h e s1 = (r, s')" by (auto simp: try_except_def)
    then show ?thesis by (rule caught)
  next
    case (Inr x)
    with Pair assms have "m s = (Inr x, s')" "r = Inr x" by (auto simp: try_except_def)
    then show ?thesis by (rule passed)
  qed
qed

lemma preservesD: "preserves f m \<Longrightarrow> f (snd (m s)) = f s"
  by (simp add: preserves_def)

lemma preserves_pairD: "preserves f m \<Longrightarrow> m s = (r, s') \<Longrightarrow> f s' = f s"
  unfolding preserves_def by (drule spec[of _ s]) simp

lemma preservesI: "(\<And>s r s'. m s = (r, s') \<Longrightarrow> f s' = f s) \<Longrightarrow> preserves f m"
  unfolding preserves_def by (metis prod.collapse)

lemma preserves_returnM [comb]: "preserves f (returnM x)"
  by (simp add: preserves_def returnM_def)

lemma preserves_raiseM [comb]: "preserves f (raiseM e)"
  by (simp add: preserves_def raiseM_def)

lemma preserves_bindM [comb]:
  assumes "preserves f m" and "\<And>x. preserves f (g x)"
  shows "preserves f (bindM m g)"
proof (rule preservesI)
  fix s r s'
  assume "bindM m g s = (r, s')"
  then show "f s' = f s"
  proof (cases rule: bindM_cases)
    case (raised e)
    then show ?thesis using assms(1) by (simp add: preserves_pairD)
  next
    case (returned x s1)
    then show ?thesis using assms by (metis preserves_pairD)
  qed
qed

lemma preserves_thenM [comb]:
  "preserves f m \<Longrightarrow> preserves f n \<Longrightarrow> preserves f (thenM m n)"
  by (simp add: thenM_def preserves_bindM)

lemma preserves_try_except [comb]:
  assumes "preserves f m" and "\<And>e. preserves f (h e)"
  shows "preserves f (try_except m h)"
proof (rule preservesI)
  fix s r s'
  assume "try_except m h s = (r, s')"
  then show "f s' = f s"
  proof (cases rule: try_except_cases)
    case (caught e s1)
    then show ?thesis using assms by (metis preserves_pairD)
  next
    case (passed x)
    then show ?thesis using assms(1) by (simp add: preserves_pairD)
  qed
qed

lemma preserves_with_self [comb]:
  "(\<And>self. preserves f (g self)) \<Longrightarrow> preserves f (with_self g)"
  by (simp add: preserves_def with_self_def)

lemma preserves_if [comb]:
  "(c \<Longrightarrow> preserves f a) \<Longrightarrow> (\<not> c \<Longrightarrow> preserves f b) \<Longrightarrow> preserves f (if c then a else b)"
  by simp

lemma preserves_case_option [comb]:
  "(x = None \<Longrightarrow> preserves f a) \<Longrightarrow> (\<And>y. x = Some y \<Longrightarrow> preserves f (b y))
   \<Longrightarrow> preserves f (case x of None \<Rightarrow> a | Some y \<Rightarrow> b y)"
  by (cases x) simp_all

lemma preserves_case_sum [comb]:
  "(\<And>y. x = Inl y \<Longrightarrow> preserves f (a y)) \<Longrightarrow> (\<And>y. x = Inr y \<Longrightarrow> preserves f (b y))
   \<Longrightarrow> preserves f (case x of Inl y \<Rightarrow> a y | Inr y \<Rightarrow> b y)"
  by (cases x) simp_all

lemma preserves_case_prod [comb]:
  "(\<And>a b. x = (a, b) \<Longrightarrow> preserves f (g a b)) \<Longrightarrow> preserves f (case x of (a, b) \<Rightarrow> g a b)"
  by (cases x) simp_all

lemma preserves_assertM [comb]: "preserves f (assertM b)"
  by (simp add: assertM_def comb)

lemma preserves_update: "(\<And>s. f (g s) = f s) \<Longrightarrow> preserves f (update g)"
  by (simp add: preserves_def update_def)

subsection \<open>Inert projections\<close>

lemma inert_notify [pres]: "inert f \<Longrightarrow> preserves f (notify k)"
  by (simp add: preserves_def notify_eq inert_def)

lemma inert_fs_call [pres]: "inert f \<Longrightarrow> preserves f (fs_call w c)"
  by (simp add: preserves_def fs_call_def inert_def)

lemma inert_updates [pres]:
  assumes "inert f"
  shows "preserves f (update (\<lambda>s. s\<lparr>upload_dir := a\<rparr>))"
    and "preserves f (update (\<lambda>s. s\<lparr>upload_path := a\<rparr>))"
    and "preserves f (update (\<lambda>s. s\<lparr>original_path := a\<rparr>))"
    and "preserves f (update (\<lambda>s. s\<lparr>original := b\<rparr>))"
    and "preserves f (update (\<lambda>s. s\<lparr>spatial_path := a\<rparr>))"
    and "preserves f (update (\<lambda>s. s\<lparr>spatial := b\<rparr>))"
    and "preserves f (update (\<lambda>s. s\<lparr>histogram_path := a\<rparr>))"
    and "preserves f (update (\<lambda>s. s\<lparr>histogram := a\<rparr>))"
    and "preserves f (update (\<lambda>s. s\<lparr>processed_dir := a\<rparr>))"
  using assms by (simp_all add: preserves_def update_def inert_def)

lemma inert_sequential_imports [pres]: "inert f \<Longrightarrow> preserves f (sequential_imports w ts)"
proof -
  assume i: "inert f"
  have "f (snd (sequential_imports w ts s)) = f s" for s
    using i by (induction ts arbitrary: s) (auto simp: inert_def split: option.splits)
  then show ?thesis by (simp add: preserves_def)
qed

lemma inert_celery_imports [pres]: "inert f \<Longrightarrow> preserves f (celery_imports w ts)"
  by (simp add: preserves_def celery_imports_def inert_def)

lemma inert_register_children [pres]:
  "inert f \<Longrightarrow> preserves f (register_children c pc children tasks)"
proof -
  assume i: "inert f"
  have "f (snd (register_children c pc children tasks s)) = f s" for s
  proof (induction children arbitrary: tasks s)
    case Nil
    then show ?case by simp
  next
    case (Cons ch children)
    show ?case
    proof (cases "notify REGISTER_FILE s")
      case (Pair r s1)
      with preserves_pairD[OF inert_notify[OF i]] have "f s1 = f s" by blast
      with Pair Cons show ?thesis by (cases r) auto
    qed
  qed
  then show ?thesis by (simp add: preserves_def)
qed

lemma inert_actions [pres]:
  assumes "inert f"
  shows "preserves f (mkdir w d)"
    and "preserves f (move w p t c)"
    and "preserves f (mksymlink w p t)"
    and "preserves f (in_processed_dir n)"
    and "preserves f (build_histogram w hp)"
    and "preserves f (unpack w up orig)"
    and "preserves f (dispatch w ts)"
    and "preserves f (convert_spatial w fmt)"
    and "preserves f (detect_format w up)"
  unfolding mkdir_def move_def mksymlink_def in_processed_dir_def build_histogram_def unpack_def
    dispatch_def convert_spatial_def detect_format_def
  by (intro comb pres assms)+

lemma inert_actions2 [pres]:
  assumes "inert f"
  shows "preserves f (import_collection w coll pc)"
    and "preserves f (deploy_spatial w fmt)"
    and "preserves f (deploy_histogram w)"
    and "preserves f (relocate w pc)"
  unfolding import_collection_def deploy_spatial_def deploy_histogram_def relocate_def
  by (intro comb pres assms)+

lemma inert_deploy [pres]: "inert f \<Longrightarrow> preserves f (deploy w fmt up orig)"
  unfolding deploy_def by (intro comb pres)

lemma inert_fields:
  "inert listeners" "inert pending_file" "inert pending_name" "inert extracted_dir"
  by (simp_all add: inert_def)

subsection \<open>Counting one event kind\<close>

lemma keep_notify [keep]: "k' \<noteq> k \<Longrightarrow> preserves (emitted k) (notify k')"
  by (simp add: preserves_def notify_eq emitted_def)

lemma keep_update [keep]: "(\<And>s. events (g s) = events s) \<Longrightarrow> preserves (emitted k) (update g)"
  by (simp add: preserves_def update_def emitted_def)

lemma keep_fs_call [keep]: "preserves (emitted k) (fs_call w c)"
  by (simp add: preserves_def fs_call_def emitted_def)

lemma keep_sequential_imports [keep]: "preserves (emitted k) (sequential_imports w ts)"
proof -
  have "emitted k (snd (sequential_imports w ts s)) = emitted k s" for s
    by (induction ts arbitrary: s) (auto simp: emitted_def split: option.splits)
  then show ?thesis by (simp add: preserves_def)
qed

lemma keep_celery_imports [keep]: "preserves (emitted k) (celery_imports w ts)"
  by (simp add: preserves_def celery_imports_def emitted_def)

lemma keep_register_children [keep]:
  assumes "k \<noteq> REGISTER_FILE"
  shows "preserves (emitted k) (register_children c pc children tasks)"
proof -
  have "emitted k (snd (register_children c pc children tasks s)) = emitted k s" for s
  proof (induction children arbitrary: tasks s)
    case Nil
    then show ?case by simp
  next
    case (Cons ch children)
    show ?case
    proof (cases "notify REGISTER_FILE s")
      case (Pair r s1)
      with preserves_pairD[OF keep_notify[of REGISTER_FILE k]] assms
      have "emitted k s1 = emitted k s" by blast
      with Pair Cons show ?thesis by (cases r) auto
    qed
  qed
  then show ?thesis by (simp add: preserves_def)
qed

lemma keep_primitives [keep]:
  "k \<noteq> FILE_ERROR \<Longrightarrow> preserves (emitted k) (mkdir w d)"
  "k \<noteq> FILE_NOT_MOVED \<Longrightarrow> preserves (emitted k) (move w p t c)"
  "k \<noteq> FILE_ERROR \<Longrightarrow> preserves (emitted k) (mksymlink w p t)"
  "preserves (emitted k) (in_processed_dir n)"
  "k \<noteq> ERROR_HISTOGRAM \<Longrightarrow> preserves (emitted k) (build_histogram w hp)"
  "k \<noteq> START_UNPACKING \<Longrightarrow> k \<noteq> ERROR_UNPACKING \<Longrightarrow> preserves (emitted k) (unpack w up orig)"
  "preserves (emitted k) (dispatch w ts)"
  "k \<noteq> START_CONVERSION \<Longrightarrow> k \<noteq> ERROR_CONVERSION \<Longrightarrow> preserves (emitted k) (convert_spatial w fmt)"
  "k \<noteq> START_FORMAT_DETECTION \<Longrightarrow> k \<noteq> END_FORMAT_DETECTION \<Longrightarrow> k \<noteq> ERROR_NO_FORMAT
     \<Longrightarrow> preserves (emitted k) (detect_format w up)"
  unfolding mkdir_def move_def mksymlink_def in_processed_dir_def build_histogram_def unpack_def
    dispatch_def convert_spatial_def detect_format_def
  by ((intro comb keep)?; simp; fail)+

lemma keep_import_collection [keep]:
  "k \<noteq> REGISTER_FILE \<Longrightarrow> preserves (emitted k) (import_collection w coll pc)"
  unfolding import_collection_def by (intro comb keep; simp)

lemma keep_deploy_histogram [keep]:
  "k \<noteq> START_HISTOGRAM_DEPLOY \<Longrightarrow> k \<noteq> ERROR_HISTOGRAM \<Longrightarrow> k \<noteq> END_HISTOGRAM_DEPLOY
   \<Longrightarrow> preserves (emitted k) (deploy_histogram w)"
  unfolding deploy_histogram_def by (intro comb keep; simp)

lemma keep_relocate [keep]:
  "k \<noteq> FILE_ERROR \<Longrightarrow> k \<noteq> FILE_NOT_MOVED \<Longrightarrow> k \<noteq> START_DATA_EXTRACTION \<Longrightarrow> k \<noteq> FILE_NOT_FOUND
   \<Longrightarrow> k \<noteq> MOVED_PENDING_FILE \<Longrightarrow> k \<noteq> END_DATA_EXTRACTION
   \<Longrightarrow> preserves (emitted k) (relocate w pc)"
  unfolding relocate_def by (intro comb keep; simp)

lemma keep_make_original [keep]:
  "k \<noteq> FILE_ERROR \<Longrightarrow> k \<noteq> FILE_NOT_MOVED \<Longrightarrow> k \<noteq> START_UNPACKING \<Longrightarrow> k \<noteq> ERROR_UNPACKING
   \<Longrightarrow> k \<noteq> END_UNPACKING \<Longrightarrow> k \<noteq> REGISTER_FILE
   \<Longrightarrow> preserves (emitted k) (make_original w pc ud up fmt ia)"
  unfolding make_original_def Let_def by (intro comb keep; simp)

lemma keep_deploy_spatial [keep]:
  "k = END_SUCCESSFUL_IMPORT \<or> k = FILE_NOT_FOUND \<or> k = START_HISTOGRAM_DEPLOY
   \<Longrightarrow> preserves (emitted k) (deploy_spatial w fmt)"
  unfolding deploy_spatial_def by (intro comb keep; auto)

subsection \<open>At most one more event of a kind, and only on failure\<close>

lemma guardsI:
  "(\<And>s r s'. m s = (r, s') \<Longrightarrow>
      (case r of Inr _ \<Rightarrow> emitted k s' = emitted k s | Inl _ \<Rightarrow> emitted k s' \<le> emitted k s + 1))
   \<Longrightarrow> guards k m"
  unfolding guards_def by (metis prod.collapse)

lemma guards_pairD:
  "guards k m \<Longrightarrow> m s = (r, s') \<Longrightarrow>
     (case r of Inr _ \<Rightarrow> emitted k s' = emitted k s | Inl _ \<Rightarrow> emitted k s' \<le> emitted k s + 1)"
  unfolding guards_def by (drule spec[of _ s]) (auto split: sum.splits)

lemma guards_preserves: "preserves (emitted k) m \<Longrightarrow> guards k m"
  by (auto simp: guards_def preserves_def split: sum.splits)

lemma guards_returnM [guard]: "guards k (returnM x)"
  by (simp add: guards_preserves comb)

lemma guards_raiseM [guard]: "guards k (raiseM e)"
  by (simp add: guards_preserves comb)

lemma guards_assertM [guard]: "guards k (assertM b)"
  by (simp add: guards_preserves comb)

lemma guards_bindM [guard]:
  assumes "guards k m" and "\<And>x. guards k (g x)"
  shows "guards k (bindM m g)"
proof (rule guardsI)
  fix s r s'
  assume "bindM m g s = (r, s')"
  then show "case r of Inr _ \<Rightarrow> emitted k s' = emitted k s | Inl _ \<Rightarrow> emitted k s' \<le> emitted k s + 1"
  proof (cases rule: bindM_cases)
    case (raised e)
    with guards_pairD[OF assms(1), of s "Inl e" s'] show ?thesis by simp
  next
    case (returned x s1)
    with guards_pairD[OF assms(1), of s "Inr x" s1] guards_pairD[OF assms(2), of x s1 r s']
    show ?thesis by (simp split: sum.splits)
  qed
qed

lemma guards_thenM [guard]: "guards k m \<Longrightarrow> guards k n \<Longrightarrow> guards k (thenM m n)"
  by (simp add: thenM_def guards_bindM)

lemma guards_with_self [guard]: "(\<And>self. guards k (g self)) \<Longrightarrow> guards k (with_self g)"
  by (simp add: guards_def with_self_def)

lemma guards_if [guard]:
  "(c \<Longrightarrow> guards k a) \<Longrightarrow> (\<not> c \<Longrightarrow> guards k b) \<Longrightarrow> guards k (if c then a else b)"
  by simp

lemma guards_case_option [guard]:
  "(x = None \<Longrightarrow> guards k a) \<Longrightarrow> (\<And>y. x = Some y \<Longrightarrow> guards k (b y))
   \<Longrightarrow> guards k (case x of None \<Rightarrow> a | Some y \<Rightarrow> b y)"
  by (cases x) simp_all

lemma guards_case_sum [guard]:
  "(\<And>y. x = Inl y \<Longrightarrow> guards k (a y)) \<Longrightarrow> (\<And>y. x = Inr y \<Longrightarrow> guards k (b y))
   \<Longrightarrow> guards k (case x of Inl y \<Rightarrow> a y | Inr y \<Rightarrow> b y)"
  by (cases x) simp_all

lemma guards_case_prod [guard]:
  "(\<And>a b. x = (a, b) \<Longrightarrow> guards k (g a b)) \<Longrightarrow> guards k (case x of (a, b) \<Rightarrow> g a b)"
  by (cases x) simp_all

lemma guards_notify [guard]: "k' \<noteq> k \<Longrightarrow> guards k (notify k')"
  by (simp add: guards_preserves keep)

lemma guards_update [guard]: "(\<And>s. events (g s) = events s) \<Longrightarrow> guards k (update g)"
  by (simp add: guards_preserves keep)

lemma guards_fs_errors:
  "guards k (try_except (fs_call w c)
       (\<lambda>e. if is_OSError e then thenM (notify k') (raiseM FileErrorProblem) else raiseM e))"
  unfolding guards_def try_except_def fs_call_def thenM_def bindM_def raiseM_def
  by (auto simp: notify_eq emitted_def split: option.splits)

lemma guards_primitives [guard]:
  "guards k (mkdir w d)"
  "guards k (mksymlink w p t)"
  "guards k (move w p t c)"
  unfolding mkdir_def mksymlink_def move_def by (simp_all add: guards_fs_errors)

lemma guards_file_error [guard]:
  "guards FILE_ERROR (unpack w up orig)"
  "guards FILE_ERROR (in_processed_dir n)"
  "guards FILE_ERROR (build_histogram w hp)"
  "guards FILE_ERROR (convert_spatial w fmt)"
  "guards FILE_ERROR (detect_format w up')"
  "guards FILE_ERROR (import_collection w coll pc)"
  by (simp_all add: guards_preserves keep)

lemma guards_deploy_spatial [guard]: "guards FILE_ERROR (deploy_spatial w fmt)"
  unfolding deploy_spatial_def by (intro guard; simp)

lemma guards_deploy_histogram [guard]: "guards FILE_ERROR (deploy_histogram w)"
  unfolding deploy_histogram_def by (intro guard; simp)

lemma guards_relocate [guard]: "guards FILE_ERROR (relocate w pc)"
  unfolding relocate_def by (intro guard; simp)

lemma guards_make_original [guard]: "guards FILE_ERROR (make_original w pc ud up fmt ia)"
  unfolding make_original_def Let_def by (intro guard; simp)

lemma guards_deploy [guard]: "guards FILE_ERROR (deploy w fmt up orig)"
  unfolding deploy_def by (intro guard; simp)

lemma guards_run_body: "guards FILE_ERROR (run_body w pc)"
  unfolding run_body_def by (intro guard; simp)

subsection \<open>File-system calls are only added\<close>

lemma growsI: "(\<And>s r s'. m s = (r, s') \<Longrightarrow> \<exists>xs. fs_calls s' = fs_calls s @ xs) \<Longrightarrow> grows m"
  unfolding grows_def by (metis prod.collapse)

lemma grows_pairD: "grows m \<Longrightarrow> m s = (r, s') \<Longrightarrow> \<exists>xs. fs_calls s' = fs_calls s @ xs"
  unfolding grows_def by (drule spec[of _ s]) simp

lemma grows_preserves: "preserves fs_calls m \<Longrightarrow> grows m"
  by (simp add: grows_def preserves_def)

lemma grows_returnM [grow]: "grows (returnM x)"
  by (simp add: grows_preserves comb)

lemma grows_raiseM [grow]: "grows (raiseM e)"
  by (simp add: grows_preserves comb)

lemma grows_assertM [grow]: "grows (assertM b)"
  by (simp add: grows_preserves comb)

lemma grows_bindM [grow]:
  assumes "grows m" and "\<And>x. grows (g x)"
  shows "grows (bindM m g)"
proof (rule growsI)
  fix s r s'
  assume "bindM m g s = (r, s')"
  then show "\<exists>xs. fs_calls s' = fs_calls s @ xs"
  proof (cases rule: bindM_cases)
    case (raised e)
    with grows_pairD[OF assms(1)] show ?thesis by blast
  next
    case (returned x s1)
    from grows_pairD[OF assms(1) returned(1)] obtain xs where "fs_calls s1 = fs_calls s @ xs" ..
    moreover from grows_pairD[OF assms(2) returned(2)] obtain ys
      where "fs_calls s' = fs_calls s1 @ ys" ..
    ultimately show ?thesis by simp
  qed
qed

lemma grows_thenM [grow]: "grows m \<Longrightarrow> grows n \<Longrightarrow> grows (thenM m n)"
  by (simp add: thenM_def grows_bindM)

lemma grows_try_except [grow]:
  assumes "grows m" and "\<And>e. grows (h e)"
  shows "grows (try_except m h)"
proof (rule growsI)
  fix s r s'
  assume "try_except m h s = (r, s')"
  then show "\<exists>xs. fs_calls s' = fs_calls s @ xs"
  proof (cases rule: try_except_cases)
    case (caught e s1)
    from grows_pairD[OF assms(1) caught(1)] obtain xs where "fs_calls s1 = fs_calls s @ xs" ..
    moreover from grows_pairD[OF assms(2) caught(2)] obtain ys
      where "fs_calls s' = fs_calls s1 @ ys" ..
    ultimately show ?thesis by simp
  next
    case (passed x)
    with grows_pairD[OF assms(1)] show ?thesis by blast
  qed
qed

lemma grows_with_self [grow]: "(\<And>self. grows (g self)) \<Longrightarrow> grows (with_self g)"
  by (simp add: grows_def with_self_def)

lemma grows_if [grow]:
  "(c \<Longrightarrow> grows a) \<Longrightarrow> (\<not> c \<Longrightarrow> grows b) \<Longrightarrow> grows (if c then a else b)"
  by simp

lemma grows_case_option [grow]:
  "(x = None \<Longrightarrow> grows a) \<Longrightarrow> (\<And>y. x = Some y \<Longrightarrow> grows (b y))
   \<Longrightarrow> grows (case x of None \<Rightarrow> a | Some y \<Rightarrow> b y)"
  by (cases x) simp_all

lemma grows_case_sum [grow]:
  "(\<And>y. x = Inl y \<Longrightarrow> grows (a y)) \<Longrightarrow> (\<And>y. x = Inr y \<Longrightarrow> grows (b y))
   \<Longrightarrow> grows (case x of Inl y \<Rightarrow> a y | Inr y \<Rightarrow> b y)"
  by (cases x) simp_all

lemma grows_case_prod [grow]:
  "(\<And>a b. x = (a, b) \<Longrightarrow> grows (g a b)) \<Longrightarrow> grows (case x of (a, b) \<Rightarrow> g a b)"
  by (cases x) simp_all

lemma grows_notify [grow]: "grows (notify k)"
  by (simp add: grows_def notify_eq)

lemma grows_update [grow]: "(\<And>s. fs_calls (g s) = fs_calls s) \<Longrightarrow> grows (update g)"
  by (simp add: grows_def update_def)

lemma grows_fs_call [grow]: "grows (fs_call w c)"
  by (simp add: grows_def fs_call_def)

lemma grows_sequential_imports [grow]: "grows (sequential_imports w ts)"
proof -
  have "fs_calls (snd (sequential_imports w ts s)) = fs_calls s" for s
    by (induction ts arbitrary: s) (auto split: option.splits)
  then show ?thesis by (simp add: grows_def)
qed

lemma grows_celery_imports [grow]: "grows (celery_imports w ts)"
  by (simp add: grows_def celery_imports_def)

lemma grows_register_children [grow]: "grows (register_children c pc children tasks)"
proof -
  have "fs_calls (snd (register_children c pc children tasks s)) = fs_calls s" for s
  proof (induction children arbitrary: tasks s)
    case Nil
    then show ?case by simp
  next
    case (Cons ch children)
    show ?case
    proof (cases "notify REGISTER_FILE s")
      case (Pair r s1)
      then have "fs_calls s1 = fs_calls s" by (auto simp: notify_eq)
      with Pair Cons show ?thesis by (cases r) auto
    qed
  qed
  then show ?thesis by (simp add: grows_def)
qed

lemma grows_actions [grow]:
  "grows (mkdir w d)"
  "grows (move w p t c)"
  "grows (mksymlink w p t)"
  "grows (in_processed_dir n)"
  "grows (build_histogram w hp)"
  "grows (unpack w up orig)"
  "grows (dispatch w ts)"
  "grows (convert_spatial w fmt)"
  "grows (detect_format w up')"
  unfolding mkdir_def move_def mksymlink_def in_processed_dir_def build_histogram_def unpack_def
    dispatch_def convert_spatial_def detect_format_def
  by ((intro grow)?; simp; fail)+

lemma grows_import_collection [grow]: "grows (import_collection w coll pc)"
  unfolding import_collection_def by (intro grow; simp)

lemma grows_deploy_spatial [grow]: "grows (deploy_spatial w fmt)"
  unfolding deploy_spatial_def by (intro grow; simp)

lemma grows_deploy_histogram [grow]: "grows (deploy_histogram w)"
  unfolding deploy_histogram_def by (intro grow; simp)

lemma grows_make_original [grow]: "grows (make_original w pc ud up fmt ia)"
  unfolding make_original_def Let_def by (intro grow; simp)

lemma grows_deploy [grow]: "grows (deploy w fmt up orig)"
  unfolding deploy_def by (intro grow; simp)

section \<open>Properties of run\<close>

lemma run_body_eq: "run_body w pc = bindM (relocate w pc) (\<lambda>(ud, up). run_rest w pc ud up)"
  by (simp add: run_body_def run_rest_def)

lemma run_eq: "run w pc = try_except (run_body w pc) on_error"
  by (simp add: run_def on_error_def[abs_def])

lemma on_error_eq:
  "on_error e s =
     (case notify_raises FILE_ERROR (listeners s) of None \<Rightarrow> Inl e | Some e' \<Rightarrow> Inl e',
      snd (notify FILE_ERROR s))"
  by (simp add: on_error_def thenM_def bindM_def raiseM_def notify_eq split: option.splits)

lemma on_error_pair:
  assumes "on_error e s = (r, s')"
  shows "\<exists>e'. r = Inl e'" and "events s' = events s @ [FILE_ERROR]" and "fs_calls s' = fs_calls s"
    and "extracted_dir s' = extracted_dir s"
    and "notify_raises FILE_ERROR (listeners s) = None \<Longrightarrow> r = Inl e"
  using assms by (auto simp: on_error_eq notify_eq split: option.splits)

text \<open>The run, seen from the end of the relocation.\<close>

lemma run_after_relocate:
  assumes "relocate w pc s = (r1, s1)"
  shows "run w pc s =
           (case r1 of Inl e \<Rightarrow> on_error e s1
            | Inr x \<Rightarrow> try_except (run_rest w pc (fst x) (snd x)) on_error s1)"
  using assms
  by (auto simp: run_eq run_body_eq try_except_def bindM_def split: sum.splits prod.splits)

lemma grows_run_rest: "grows (run_rest w pc ud up)"
  unfolding run_rest_def by (intro grow; simp)

lemma grows_on_error: "grows (on_error e)"
  unfolding on_error_def by (intro grow)

lemma grows_after_relocate:
  assumes "relocate w pc s = (r1, s1)"
  shows "\<exists>xs. fs_calls (snd (run w pc s)) = fs_calls s1 @ xs"
proof (cases r1)
  case (Inl e)
  with run_after_relocate[OF assms] grows_on_error[of e] show ?thesis
    by (simp add: grows_def)
next
  case (Inr x)
  have "grows (try_except (run_rest w pc (fst x) (snd x)) on_error)"
    by (intro grow grows_run_rest grows_on_error)
  with Inr run_after_relocate[OF assms] show ?thesis
    by (simp add: grows_def)
qed

lemma keep_run_rest:
  "k = FILE_NOT_FOUND \<Longrightarrow> preserves (emitted k) (run_rest w pc ud up)"
  unfolding run_rest_def deploy_def by (intro comb keep; simp)

lemma keep_on_error: "k \<noteq> FILE_ERROR \<Longrightarrow> preserves (emitted k) (on_error e)"
  unfolding on_error_def by (intro comb keep; simp)

lemma keep_after_relocate:
  assumes "relocate w pc s = (r1, s1)"
  shows "emitted FILE_NOT_FOUND (snd (run w pc s)) = emitted FILE_NOT_FOUND s1"
proof (cases r1)
  case (Inl e)
  with run_after_relocate[OF assms] keep_on_error[of FILE_NOT_FOUND e] show ?thesis
    by (simp add: preserves_def)
next
  case (Inr x)
  have "preserves (emitted FILE_NOT_FOUND) (try_except (run_rest w pc (fst x) (snd x)) on_error)"
    by (intro comb keep_run_rest keep_on_error; simp)
  with Inr run_after_relocate[OF assms] show ?thesis
    by (simp add: preserves_def)
qed

subsection \<open>The relocation\<close>

lemma relocate_rejects:
  assumes "\<not> sanctioned w (pending_file s) \<or> \<not> path_exists w (pending_file s)"
  shows "relocate w pc s =
     (case notify_raises START_DATA_EXTRACTION (listeners s) of
        Some e \<Rightarrow> Inl e
      | None \<Rightarrow> (case notify_raises FILE_NOT_FOUND (listeners s) of
                   Some e \<Rightarrow> Inl e | None \<Rightarrow> Inl FilepathNotFoundProblem),
      snd (relocate w pc s))"
    and "fs_calls (snd (relocate w pc s)) = fs_calls s"
    and "upload_dir (snd (relocate w pc s)) = upload_dir s"
  using assms
  by (auto simp: relocate_def sanctioned_def thenM_def bindM_def with_self_def raiseM_def notify_eq
      split: option.splits)

lemma fs_call_pair:
  "fs_call w c s = (r, s') \<Longrightarrow> fs_calls s' = fs_calls s @ [c] \<and> events s' = events s"
  by (auto simp: fs_call_def)

lemma primitive_calls:
  "fs_calls (snd (mkdir w d s)) = fs_calls s @ [Mkdir d]"
  "fs_calls (snd (mksymlink w p t s)) = fs_calls s @ [Symlink p t]"
  "fs_calls (snd (move w p t c s)) = fs_calls s @ [if c then Copy p t else Move p t]"
  by (auto simp: mkdir_def mksymlink_def move_def try_except_def fs_call_def thenM_def bindM_def
      raiseM_def notify_eq split: option.splits)

lemma primitive_ok:
  "raises w (Mkdir d) = None \<Longrightarrow> mkdir w d s = (Inr (), s\<lparr>fs_calls := fs_calls s @ [Mkdir d]\<rparr>)"
  "raises w (Symlink p t) = None \<Longrightarrow>
     mksymlink w p t s = (Inr (), s\<lparr>fs_calls := fs_calls s @ [Symlink p t]\<rparr>)"
  "raises w (Move p t) = None \<Longrightarrow>
     move w p t False s = (Inr (), s\<lparr>fs_calls := fs_calls s @ [Move p t]\<rparr>)"
  "raises w (Copy p t) = None \<Longrightarrow>
     move w p t True s = (Inr (), s\<lparr>fs_calls := fs_calls s @ [Copy p t]\<rparr>)"
  by (auto simp: mkdir_def mksymlink_def move_def try_except_def fs_call_def)

lemma thenM_step: "m s = (Inr (), s1) \<Longrightarrow> thenM m n s = n s1"
  by (simp add: thenM_def bindM_def)

lemma thenM_update: "thenM (update g) n s = n (g s)"
  by (simp add: thenM_def bindM_def update_def)

lemma thenM_pair:
  "thenM m n s = (case m s of (Inl e, s1) \<Rightarrow> (Inl e, s1) | (Inr _, s1) \<Rightarrow> n s1)"
  by (simp add: thenM_def bindM_def)

text \<open>A valid pending file: the upload directory is made first, and no
  \<open>FILE_NOT_FOUND\<close> event is notified.\<close>

lemma relocate_accepts:
  assumes "sanctioned w (pending_file s)" and "path_exists w (pending_file s)"
    and "notify_raises START_DATA_EXTRACTION (listeners s) = None"
  shows "\<exists>xs. fs_calls (snd (relocate w pc s)) = fs_calls s @ Mkdir (new_upload_dir w) # xs"
    and "emitted FILE_NOT_FOUND (snd (relocate w pc s)) = emitted FILE_NOT_FOUND s"
proof -
  define s1 where "s1 = snd (notify START_DATA_EXTRACTION s)"
  define s2 where "s2 = s1\<lparr>upload_dir := Some (new_upload_dir w)\<rparr>"
  define tail where "tail =
    thenM (update (\<lambda>s. s\<lparr>upload_path := Some (new_upload_path w s1)\<rparr>))
   (thenM (move w (pending_file s1) (new_upload_path w s1) pc)
   (thenM (if \<not> pc \<and> is_extracted w (pending_file s1)
           then mksymlink w (pending_file s1) (new_upload_path w s1)
           else returnM ())
   (thenM (notify MOVED_PENDING_FILE)
   (thenM (notify END_DATA_EXTRACTION)
          (returnM (new_upload_dir w, new_upload_path w s1))))))"
  have n: "notify START_DATA_EXTRACTION s = (Inr (), s1)"
    using assms(3) by (simp add: s1_def notify_eq)
  have pf: "pending_file s1 = pending_file s" by (simp add: s1_def notify_eq)
  have eq: "relocate w pc s = thenM (mkdir w (new_upload_dir w)) tail s2"
    using assms(1,2) pf
    by (auto simp: relocate_def
        thenM_step[where m="notify START_DATA_EXTRACTION" and s=s and ?s1.0=s1, OF n]
        with_self_def sanctioned_def tail_def s2_def thenM_update)
  have gt: "grows tail" unfolding tail_def by (intro grow; simp)
  have kt: "preserves (emitted FILE_NOT_FOUND) tail" unfolding tail_def by (intro comb keep; simp)
  have c2: "fs_calls s2 = fs_calls s" "emitted FILE_NOT_FOUND s2 = emitted FILE_NOT_FOUND s"
    by (simp_all add: s2_def s1_def notify_eq emitted_def)
  obtain r3 s3 where m: "mkdir w (new_upload_dir w) s2 = (r3, s3)" by (cases "mkdir w (new_upload_dir w) s2")
  from m primitive_calls(1)[of w "new_upload_dir w" s2]
  have c3: "fs_calls s3 = fs_calls s @ [Mkdir (new_upload_dir w)]" by (simp add: c2)
  from m preserves_pairD[OF keep_primitives(1), of FILE_NOT_FOUND]
  have e3: "emitted FILE_NOT_FOUND s3 = emitted FILE_NOT_FOUND s" by (simp add: c2)
  show "\<exists>xs. fs_calls (snd (relocate w pc s)) = fs_calls s @ Mkdir (new_upload_dir w) # xs"
  proof (cases r3)
    case (Inl e)
    with m eq c3 show ?thesis by (simp add: thenM_pair)
  next
    case (Inr u)
    with m eq have t: "relocate w pc s = tail s3" by (simp add: thenM_pair)
    from gt obtain xs where "fs_calls (snd (tail s3)) = fs_calls s3 @ xs"
      unfolding grows_def by blast
    with t c3 show ?thesis by simp
  qed
  show "emitted FILE_NOT_FOUND (snd (relocate w pc s)) = emitted FILE_NOT_FOUND s"
  proof (cases r3)
    case (Inl e)
    with m eq e3 show ?thesis by (simp add: thenM_pair)
  next
    case (Inr u)
    with m eq have "relocate w pc s = tail s3" by (simp add: thenM_pair)
    with kt e3 show ?thesis by (auto simp: preserves_def)
  qed
qed

lemma init_fields:
  "listeners (FileImporter pf pn (Some ls)) = ls"
  "pending_file (FileImporter pf pn lo) = pf"
  "pending_name (FileImporter pf pn lo) = pn"
  "events (FileImporter pf pn lo) = []"
  "fs_calls (FileImporter pf pn lo) = []"
  "extracted_dir (FileImporter pf pn lo) = None"
  "upload_dir (FileImporter pf pn lo) = None"
  by (simp_all add: FileImporter_def)

lemma emitted_init: "emitted k (FileImporter pf pn lo) = 0"
  by (simp add: emitted_def init_fields)

lemma emitted_0: "emitted k s = 0 \<longleftrightarrow> k \<notin> set (events s)"
  by (simp add: emitted_def count_list_0_iff)

subsection \<open>Laws of the combinators\<close>

lemma thenM_assoc: "thenM (thenM a b) c = thenM a (thenM b c)"
  by (auto simp: thenM_def bindM_def fun_eq_iff split: prod.splits sum.splits)

lemma bindM_thenM: "bindM (thenM a b) g = thenM a (bindM b g)"
  by (auto simp: thenM_def bindM_def fun_eq_iff split: prod.splits sum.splits)

lemma bindM_returnM: "bindM (returnM x) g = g x"
  by (simp add: bindM_def returnM_def)

lemma thenM_returnM: "thenM (returnM x) n = n"
  by (simp add: thenM_def bindM_def returnM_def)

lemma bindM_raiseM: "bindM (raiseM e) g = raiseM e"
  by (simp add: bindM_def raiseM_def)

lemma thenM_raiseM: "thenM (raiseM e) n = raiseM e"
  by (simp add: thenM_def bindM_def raiseM_def)

lemmas laws = bindM_thenM bindM_returnM bindM_raiseM thenM_raiseM thenM_returnM

lemma inert_new_upload_path: "inert (new_upload_path w)"
  by (auto simp: inert_def new_upload_path_def split: option.splits)

subsection \<open>What the relocation returns\<close>

lemma yields_returnM [yield]: "P x \<Longrightarrow> yields P (returnM x)"
  by (simp add: yields_def returnM_def)

lemma yields_raiseM [yield]: "yields P (raiseM e)"
  by (simp add: yields_def raiseM_def)

lemma yields_bindM [yield]: "(\<And>x. yields P (g x)) \<Longrightarrow> yields P (bindM m g)"
  unfolding yields_def by (auto elim!: bindM_cases)

lemma yields_thenM [yield]: "yields P n \<Longrightarrow> yields P (thenM m n)"
  by (simp add: thenM_def yields_bindM)

lemma yields_if [yield]:
  "(c \<Longrightarrow> yields P a) \<Longrightarrow> (\<not> c \<Longrightarrow> yields P b) \<Longrightarrow> yields P (if c then a else b)"
  by simp

lemma thenM_cases:
  assumes "thenM m n s = (r, s')"
  obtains (raised) e where "m s = (Inl e, s')" "r = Inl e"
        | (returned) s1 where "m s = (Inr (), s1)" "n s1 = (r, s')"
  using assms unfolding thenM_def by (cases rule: bindM_cases) auto

lemma yieldsD: "yields P m \<Longrightarrow> m s = (Inr x, s') \<Longrightarrow> P x"
  by (auto simp: yields_def)

lemma yields_with_selfD: "with_self g s = (Inr x, s') \<Longrightarrow> yields P (g s) \<Longrightarrow> P x"
  by (auto simp: with_self_def yields_def)

lemma relocate_returns:
  assumes "relocate w pc s = (Inr x, s')"
  shows "x = (new_upload_dir w, new_upload_path w s)"
  using assms[unfolded relocate_def]
proof (cases rule: thenM_cases)
  case (raised e)
  then show ?thesis by simp
next
  case (returned s1)
  have "x = (new_upload_dir w, new_upload_path w s1)"
    by (rule yields_with_selfD[where P="\<lambda>x. x = (new_upload_dir w, new_upload_path w s1)",
          OF returned(2)])
       (intro yield; simp)
  moreover from preserves_pairD[OF inert_notify[OF inert_new_upload_path] returned(1)]
  have "new_upload_path w s1 = new_upload_path w s" .
  ultimately show ?thesis by simp
qed

subsection \<open>A pending file extracted from an archive, moved\<close>

lemma relocate_links:
  assumes "is_extracted w (pending_file s)" and "path_exists w (pending_file s)"
    and "notify_raises START_DATA_EXTRACTION (listeners s) = None"
    and "raises w (Mkdir (new_upload_dir w)) = None"
    and "raises w (Move (pending_file s) (new_upload_path w s)) = None"
  shows "\<exists>xs. fs_calls (snd (relocate w False s)) =
           fs_calls s @ [Mkdir (new_upload_dir w), Move (pending_file s) (new_upload_path w s),
                         Symlink (pending_file s) (new_upload_path w s)] @ xs"
proof -
  define s1 where "s1 = snd (notify START_DATA_EXTRACTION s)"
  define s2 where "s2 = s1\<lparr>upload_dir := Some (new_upload_dir w),
      fs_calls := fs_calls s @ [Mkdir (new_upload_dir w)],
      upload_path := Some (new_upload_path w s),
      fs_calls := fs_calls s @ [Mkdir (new_upload_dir w),
                                Move (pending_file s) (new_upload_path w s)]\<rparr>"
  define tail where "tail =
    thenM (notify MOVED_PENDING_FILE)
   (thenM (notify END_DATA_EXTRACTION)
          (returnM (new_upload_dir w, new_upload_path w s)))"
  have n: "notify START_DATA_EXTRACTION s = (Inr (), s1)"
    using assms(3) by (simp add: s1_def notify_eq)
  have pf: "pending_file s1 = pending_file s" "new_upload_path w s1 = new_upload_path w s"
    "fs_calls s1 = fs_calls s"
    by (auto simp: s1_def notify_eq new_upload_path_def split: option.splits)
  have mk: "\<And>n s. thenM (mkdir w (new_upload_dir w)) n s =
      n (s\<lparr>fs_calls := fs_calls s @ [Mkdir (new_upload_dir w)]\<rparr>)"
    using assms(4) by (simp add: thenM_pair primitive_ok)
  have mv: "\<And>n s'. thenM (move w (pending_file s) (new_upload_path w s) False) n s' =
      n (s'\<lparr>fs_calls := fs_calls s' @ [Move (pending_file s) (new_upload_path w s)]\<rparr>)"
    using assms(5) by (simp add: thenM_pair primitive_ok)
  have "relocate w False s =
      thenM (update (\<lambda>s. s\<lparr>upload_dir := Some (new_upload_dir w)\<rparr>))
           (thenM (mkdir w (new_upload_dir w))
           (thenM (update (\<lambda>s'. s'\<lparr>upload_path := Some (new_upload_path w s)\<rparr>))
           (thenM (move w (pending_file s) (new_upload_path w s) False)
           (thenM (mksymlink w (pending_file s) (new_upload_path w s)) tail)))) s1"
    using assms(1,2) pf
    by (simp add: relocate_def
        thenM_step[where m="notify START_DATA_EXTRACTION" and s=s and ?s1.0=s1, OF n]
        with_self_def tail_def)
  also have "\<dots> = thenM (mksymlink w (pending_file s) (new_upload_path w s)) tail s2"
    by (simp add: thenM_update mk mv s2_def pf)
  finally have eq: "relocate w False s =
      thenM (mksymlink w (pending_file s) (new_upload_path w s)) tail s2" .
  have gt: "grows tail" unfolding tail_def by (intro grow)
  obtain r3 s3 where m: "mksymlink w (pending_file s) (new_upload_path w s) s2 = (r3, s3)"
    by (cases "mksymlink w (pending_file s) (new_upload_path w s) s2")
  from m primitive_calls(2)[of w "pending_file s" "new_upload_path w s" s2]
  have c3: "fs_calls s3 = fs_calls s @ [Mkdir (new_upload_dir w),
      Move (pending_file s) (new_upload_path w s), Symlink (pending_file s) (new_upload_path w s)]"
    by (simp add: s2_def)
  show ?thesis
  proof (cases r3)
    case (Inl e)
    with m eq c3 show ?thesis by (simp add: thenM_pair)
  next
    case (Inr u)
    with m eq have t: "relocate w False s = tail s3" by (simp add: thenM_pair)
    from gt obtain xs where "fs_calls (snd (tail s3)) = fs_calls s3 @ xs"
      unfolding grows_def by blast
    with t c3 show ?thesis by simp
  qed
qed

lemma quiet_stdout: "quiet [stdout_listener]"
  by (simp add: quiet_def stdout_listener_def)

text \<open>
  C5. When the pending file is not in a sanctioned source area (pending area, writing
  area, extracted from an archive) or does not exist, \<open>run\<close> ends with an exception
  without having issued any file-system call and without an upload directory; with
  listeners that raise nothing the exception is \<open>FilepathNotFoundProblem\<close>. Conversely,
  for a sanctioned, existing pending file (the first notification being delivered) no
  \<open>FILE_NOT_FOUND\<close> event is notified and the run goes on to make the upload directory.
\<close>

theorem run_validates_pending_file:
  "(\<not> sanctioned w pf \<or> \<not> path_exists w pf \<longrightarrow>
      fs_calls (snd (run w pc (FileImporter pf pn (Some ls)))) = []
    \<and> upload_dir (snd (run w pc (FileImporter pf pn (Some ls)))) = None
    \<and> (\<exists>e. fst (run w pc (FileImporter pf pn (Some ls))) = Inl e)
    \<and> (quiet ls \<longrightarrow> fst (run w pc (FileImporter pf pn (Some ls))) = Inl FilepathNotFoundProblem))
 \<and> (sanctioned w pf \<and> path_exists w pf \<and> notify_raises START_DATA_EXTRACTION ls = None \<longrightarrow>
      FILE_NOT_FOUND \<notin> set (events (snd (run w pc (FileImporter pf pn (Some ls)))))
    \<and> take 1 (fs_calls (snd (run w pc (FileImporter pf pn (Some ls))))) = [Mkdir (new_upload_dir w)])"
proof (intro conjI impI)
  define s0 where "s0 = FileImporter pf pn (Some ls)"
  obtain r1 s1 where rel: "relocate w pc s0 = (r1, s1)" by (cases "relocate w pc s0")
  note after = run_after_relocate[OF rel]
  {
    assume bad: "\<not> sanctioned w pf \<or> \<not> path_exists w pf"
    then have bad': "\<not> sanctioned w (pending_file s0) \<or> \<not> path_exists w (pending_file s0)"
      by (simp add: s0_def init_fields)
    from relocate_rejects(1)[OF bad', of pc] rel obtain e where r1: "r1 = Inl e"
      by (auto split: option.splits)
    from relocate_rejects(2,3)[OF bad', of pc] rel
    have s1: "fs_calls s1 = []" "upload_dir s1 = None" by (simp_all add: s0_def init_fields)
    obtain r s' where oe: "on_error e s1 = (r, s')" by (cases "on_error e s1")
    from after r1 oe have run: "run w pc s0 = (r, s')" by simp
    have ls1: "listeners s1 = ls"
      using preserves_pairD[OF inert_actions2(4)[OF inert_fields(1)] rel]
      by (simp add: s0_def init_fields)
    show "fs_calls (snd (run w pc (FileImporter pf pn (Some ls)))) = []"
      using run on_error_pair(3)[OF oe] s1 by (simp add: s0_def)
    show "upload_dir (snd (run w pc (FileImporter pf pn (Some ls)))) = None"
      using run oe s1 by (auto simp: s0_def on_error_eq notify_eq)
    show "\<exists>e. fst (run w pc (FileImporter pf pn (Some ls))) = Inl e"
      using run on_error_pair(1)[OF oe] by (simp add: s0_def)
    {
      assume q: "quiet ls"
      then have nr: "\<And>k. notify_raises k ls = None" by (simp add: quiet_def)
      from relocate_rejects(1)[OF bad', of pc] rel nr have "e = FilepathNotFoundProblem"
        by (simp add: r1 s0_def init_fields)
      moreover from on_error_pair(5)[OF oe] nr ls1 have "r = Inl e" by simp
      ultimately show "fst (run w pc (FileImporter pf pn (Some ls))) = Inl FilepathNotFoundProblem"
        using run by (simp add: s0_def)
    }
  }
  {
    assume ok: "sanctioned w pf \<and> path_exists w pf \<and> notify_raises START_DATA_EXTRACTION ls = None"
    then have ok': "sanctioned w (pending_file s0)" "path_exists w (pending_file s0)"
      "notify_raises START_DATA_EXTRACTION (listeners s0) = None"
      by (simp_all add: s0_def init_fields)
    from relocate_accepts[OF ok', of pc] rel obtain xs
      where c1: "fs_calls s1 = Mkdir (new_upload_dir w) # xs"
        and e1: "emitted FILE_NOT_FOUND s1 = 0"
      by (auto simp: s0_def init_fields emitted_init)
    from keep_after_relocate[OF rel] e1
    show "FILE_NOT_FOUND \<notin> set (events (snd (run w pc (FileImporter pf pn (Some ls)))))"
      by (simp add: s0_def emitted_0)
    from grows_after_relocate[OF rel] c1
    show "take 1 (fs_calls (snd (run w pc (FileImporter pf pn (Some ls))))) = [Mkdir (new_upload_dir w)]"
      by (auto simp: s0_def)
  }
qed

lemma plain_world_paths:
  "\<not> sanctioned plain_world stray"
  "sanctioned plain_world slide"
  "sanctioned plain_world extracted_child"
  "is_extracted plain_world extracted_child"
  "path_exists plain_world p"
  "raises plain_world c = None"
  by (simp_all add: sanctioned_def plain_world_def stray_def slide_def extracted_child_def parent_def
      is_absolute_def)

lemma plain_world_uploads:
  "new_upload_dir plain_world = [''data'', ''upload1'']"
  "new_upload_path plain_world (FileImporter slide None (Some ls)) = [''data'', ''upload1'', ''slide.ext'']"
  "new_upload_path plain_world (FileImporter extracted_child None (Some ls))
     = [''data'', ''upload1'', ''child.ext'']"
  by code_simp+

lemma stdout_delivers: "notify_raises k [stdout_listener] = None"
  by (simp add: stdout_listener_def)

theorem run_validates_pending_file_witness:
  "fs_calls (snd (run plain_world False (FileImporter stray None (Some [stdout_listener])))) = []
   \<and> fst (run plain_world False (FileImporter stray None (Some [stdout_listener])))
       = Inl FilepathNotFoundProblem
   \<and> FILE_NOT_FOUND \<notin>
       set (events (snd (run plain_world False (FileImporter slide None (Some [stdout_listener])))))
   \<and> take 1 (fs_calls (snd (run plain_world False (FileImporter slide None (Some [stdout_listener])))))
       = [Mkdir [''data'', ''upload1'']]"
  using run_validates_pending_file[of plain_world stray False None "[stdout_listener]"]
    run_validates_pending_file[of plain_world slide False None "[stdout_listener]"]
    plain_world_paths plain_world_uploads quiet_stdout stdout_delivers
  by simp

lemma calls_notify: "preserves fs_calls (notify k)"
  by (simp add: preserves_def notify_eq)

lemma calls_detect_format: "preserves fs_calls (detect_format w up)"
  unfolding detect_format_def by (intro comb calls_notify)

lemma calls_on_error: "preserves fs_calls (on_error e)"
  unfolding on_error_def by (intro comb calls_notify)

lemma starts_with_mkdir:
  assumes "grows n" and "\<And>s. fs_calls (g s) = fs_calls s"
  shows "\<exists>xs. fs_calls (snd (thenM (update g) (thenM (mkdir w d) n) s)) = fs_calls s @ Mkdir d # xs"
proof -
  obtain r2 s2 where m: "mkdir w d (g s) = (r2, s2)" by (cases "mkdir w d (g s)")
  from m primitive_calls(1)[of w d "g s"]
  have c2: "fs_calls s2 = fs_calls s @ [Mkdir d]" by (simp add: assms(2))
  have e: "thenM (update g) (thenM (mkdir w d) n) s = thenM (mkdir w d) n (g s)"
    by (rule thenM_update)
  show ?thesis
  proof (cases r2)
    case (Inl e')
    with m c2 show ?thesis unfolding e by (simp add: thenM_pair)
  next
    case (Inr u)
    with m have t: "thenM (update g) (thenM (mkdir w d) n) s = n s2"
      unfolding e by (simp add: thenM_pair)
    from assms(1) obtain xs where "fs_calls (snd (n s2)) = fs_calls s2 @ xs"
      unfolding grows_def by blast
    with t c2 show ?thesis by simp
  qed
qed

lemma make_original_calls:
  "\<exists>xs. fs_calls (snd (make_original w pc ud up fmt ia s))
          = fs_calls s @ Mkdir (joinpath ud (Path (PROCESSED_DIR w))) # xs"
  unfolding make_original_def Let_def
  by (rule starts_with_mkdir; (intro grow)?; simp)

lemma run_rest_calls:
  assumes "try_except (run_rest w pc ud up) on_error s = (r, s')"
  shows "fs_calls s' = fs_calls s
       \<or> (\<exists>xs. fs_calls s' = fs_calls s @ Mkdir (joinpath ud (Path (PROCESSED_DIR w))) # xs)"
proof -
  have body: "fs_calls s1 = fs_calls s
       \<or> (\<exists>xs. fs_calls s1 = fs_calls s @ Mkdir (joinpath ud (Path (PROCESSED_DIR w))) # xs)"
    if "run_rest w pc ud up s = (r1, s1)" for r1 s1
    using that unfolding run_rest_def
  proof (cases rule: bindM_cases)
    case (raised e)
    from preserves_pairD[OF calls_detect_format raised(1)] show ?thesis by simp
  next
    case (returned y s2)
    from preserves_pairD[OF calls_detect_format returned(1)]
    have c2: "fs_calls s2 = fs_calls s" .
    obtain fmt ia where y: "y = (fmt, ia)" by (cases y)
    define rest where "rest = (\<lambda>r. case r of Inl collection \<Rightarrow> returnM collection
                   | Inr (fmt', up', orig) \<Rightarrow> deploy w fmt' up' orig)"
    have gr: "grows (rest z)" for z
      unfolding rest_def by (cases z) (auto intro!: grow)
    from returned(2) y
    have "bindM (make_original w pc ud up fmt ia) rest s2 = (r1, s1)"
      by (simp add: rest_def)
    then have "\<exists>xs. fs_calls s1 = fs_calls s2 @ Mkdir (joinpath ud (Path (PROCESSED_DIR w))) # xs"
    proof (cases rule: bindM_cases)
      case (raised e)
      with make_original_calls[of w pc ud up fmt ia s2] show ?thesis by simp
    next
      case (returned z s3)
      from make_original_calls[of w pc ud up fmt ia s2] returned(1) obtain xs
        where "fs_calls s3 = fs_calls s2 @ Mkdir (joinpath ud (Path (PROCESSED_DIR w))) # xs"
        by auto
      moreover from grows_pairD[OF gr returned(2)] obtain ys
        where "fs_calls s1 = fs_calls s3 @ ys" ..
      ultimately show ?thesis by simp
    qed
    with c2 show ?thesis by simp
  qed
  from assms show ?thesis
  proof (cases rule: try_except_cases)
    case (caught e s1)
    from preserves_pairD[OF calls_on_error caught(2)] body[OF caught(1)] show ?thesis by simp
  next
    case (passed x)
    from body[OF passed(1)] show ?thesis .
  qed
qed

lemma relocate_copies:
  assumes "sanctioned w (pending_file s)" and "path_exists w (pending_file s)"
    and "notify_raises START_DATA_EXTRACTION (listeners s) = None"
    and "raises w (Mkdir (new_upload_dir w)) = None"
    and "raises w (Copy (pending_file s) (new_upload_path w s)) = None"
  shows "fs_calls (snd (relocate w True s)) =
           fs_calls s @ [Mkdir (new_upload_dir w), Copy (pending_file s) (new_upload_path w s)]"
proof -
  define s1 where "s1 = snd (notify START_DATA_EXTRACTION s)"
  define s2 where "s2 = s1\<lparr>upload_dir := Some (new_upload_dir w),
      fs_calls := fs_calls s @ [Mkdir (new_upload_dir w)],
      upload_path := Some (new_upload_path w s),
      fs_calls := fs_calls s @ [Mkdir (new_upload_dir w),
                                Copy (pending_file s) (new_upload_path w s)]\<rparr>"
  define tail where "tail =
    thenM (notify MOVED_PENDING_FILE)
   (thenM (notify END_DATA_EXTRACTION)
          (returnM (new_upload_dir w, new_upload_path w s)))"
  have n: "notify START_DATA_EXTRACTION s = (Inr (), s1)"
    using assms(3) by (simp add: s1_def notify_eq)
  have pf: "pending_file s1 = pending_file s" "new_upload_path w s1 = new_upload_path w s"
    "fs_calls s1 = fs_calls s"
    by (auto simp: s1_def notify_eq new_upload_path_def split: option.splits)
  have mk: "\<And>n s. thenM (mkdir w (new_upload_dir w)) n s =
      n (s\<lparr>fs_calls := fs_calls s @ [Mkdir (new_upload_dir w)]\<rparr>)"
    using assms(4) by (simp add: thenM_pair primitive_ok)
  have mv: "\<And>n s'. thenM (move w (pending_file s) (new_upload_path w s) True) n s' =
      n (s'\<lparr>fs_calls := fs_calls s' @ [Copy (pending_file s) (new_upload_path w s)]\<rparr>)"
    using assms(5) by (simp add: thenM_pair primitive_ok)
  have "relocate w True s =
      thenM (update (\<lambda>s. s\<lparr>upload_dir := Some (new_upload_dir w)\<rparr>))
           (thenM (mkdir w (new_upload_dir w))
           (thenM (update (\<lambda>s'. s'\<lparr>upload_path := Some (new_upload_path w s)\<rparr>))
           (thenM (move w (pending_file s) (new_upload_path w s) True) tail))) s1"
    using assms(1,2) pf
    by (auto simp: relocate_def sanctioned_def
        thenM_step[where m="notify START_DATA_EXTRACTION" and s=s and ?s1.0=s1, OF n]
        with_self_def tail_def thenM_returnM)
  also have "\<dots> = tail s2"
    by (simp add: thenM_update mk mv s2_def pf)
  finally have eq: "relocate w True s = tail s2" .
  have "preserves fs_calls tail" unfolding tail_def by (intro comb calls_notify)
  from preservesD[OF this, of s2] eq show ?thesis by (simp add: s2_def)
qed

text \<open>
  C8 (as amended). For a pending file that was extracted from an archive (it exists, the
  first notification is delivered and the upload directory can be made): when the
  relocation is a move (\<open>prefer_copy\<close> is false) and the file can be moved, the first
  three file-system calls of \<open>run\<close> make the upload directory, move the file to the
  upload path and link the extraction location to the upload path. When the relocation is
  a copy (\<open>prefer_copy\<close> is true) and the file can be copied, \<open>run\<close> makes the upload
  directory and copies the file, and no link follows: the next call, if there is one,
  makes the processed directory. The upload path is \<open>upload_dir / name\<close>, which is the
  name alone when the pending name is absolute.
\<close>

theorem run_links_moved_extracted_file:
  assumes "is_extracted w pf" and "path_exists w pf"
    and "notify_raises START_DATA_EXTRACTION ls = None"
    and "raises w (Mkdir (new_upload_dir w)) = None"
  shows "(raises w (Move pf (new_upload_path w (FileImporter pf pn (Some ls)))) = None \<longrightarrow>
            take 3 (fs_calls (snd (run w False (FileImporter pf pn (Some ls))))) =
              [Mkdir (new_upload_dir w),
               Move pf (new_upload_path w (FileImporter pf pn (Some ls))),
               Symlink pf (new_upload_path w (FileImporter pf pn (Some ls)))])
       \<and> (raises w (Copy pf (new_upload_path w (FileImporter pf pn (Some ls)))) = None \<longrightarrow>
            take 3 (fs_calls (snd (run w True (FileImporter pf pn (Some ls))))) =
              [Mkdir (new_upload_dir w),
               Copy pf (new_upload_path w (FileImporter pf pn (Some ls)))]
          \<or> take 3 (fs_calls (snd (run w True (FileImporter pf pn (Some ls))))) =
              [Mkdir (new_upload_dir w),
               Copy pf (new_upload_path w (FileImporter pf pn (Some ls))),
               Mkdir (joinpath (new_upload_dir w) (Path (PROCESSED_DIR w)))])"
proof (intro conjI impI)
  define s0 where "s0 = FileImporter pf pn (Some ls)"
  {
    assume mv: "raises w (Move pf (new_upload_path w (FileImporter pf pn (Some ls)))) = None"
    obtain r1 s1 where rel: "relocate w False s0 = (r1, s1)" by (cases "relocate w False s0")
    from assms mv have "\<exists>xs. fs_calls (snd (relocate w False s0)) =
             fs_calls s0 @ [Mkdir (new_upload_dir w), Move (pending_file s0) (new_upload_path w s0),
                           Symlink (pending_file s0) (new_upload_path w s0)] @ xs"
      by (intro relocate_links) (simp_all add: s0_def init_fields)
    with rel obtain xs where "fs_calls s1 = [Mkdir (new_upload_dir w), Move pf (new_upload_path w s0),
                           Symlink pf (new_upload_path w s0)] @ xs"
      by (auto simp: s0_def init_fields)
    with grows_after_relocate[OF rel]
    show "take 3 (fs_calls (snd (run w False (FileImporter pf pn (Some ls))))) =
              [Mkdir (new_upload_dir w),
               Move pf (new_upload_path w (FileImporter pf pn (Some ls))),
               Symlink pf (new_upload_path w (FileImporter pf pn (Some ls)))]"
      by (auto simp: s0_def)
  }
  {
    assume cp: "raises w (Copy pf (new_upload_path w (FileImporter pf pn (Some ls)))) = None"
    obtain r1 s1 where rel: "relocate w True s0 = (r1, s1)" by (cases "relocate w True s0")
    from assms cp have "fs_calls (snd (relocate w True s0)) =
             fs_calls s0 @ [Mkdir (new_upload_dir w), Copy (pending_file s0) (new_upload_path w s0)]"
      by (intro relocate_copies) (simp_all add: s0_def init_fields sanctioned_def)
    with rel have c1: "fs_calls s1 = [Mkdir (new_upload_dir w), Copy pf (new_upload_path w s0)]"
      by (simp add: s0_def init_fields)
    obtain r s' where run: "run w True s0 = (r, s')" by (cases "run w True s0")
    have "fs_calls s' = fs_calls s1
        \<or> (\<exists>xs. fs_calls s' = fs_calls s1 @ Mkdir (joinpath (new_upload_dir w) (Path (PROCESSED_DIR w))) # xs)"
    proof (cases r1)
      case (Inl e)
      with run_after_relocate[OF rel] run have "on_error e s1 = (r, s')" by simp
      from preserves_pairD[OF calls_on_error this] show ?thesis by simp
    next
      case (Inr x)
      with relocate_returns[of w True s0 x s1] rel
      have x: "x = (new_upload_dir w, new_upload_path w s0)" by simp
      with Inr run_after_relocate[OF rel] run
      have "try_except (run_rest w True (new_upload_dir w) (new_upload_path w s0)) on_error s1 = (r, s')"
        by simp
      from run_rest_calls[OF this] show ?thesis .
    qed
    with c1 run
    show "take 3 (fs_calls (snd (run w True (FileImporter pf pn (Some ls))))) =
              [Mkdir (new_upload_dir w),
               Copy pf (new_upload_path w (FileImporter pf pn (Some ls)))]
          \<or> take 3 (fs_calls (snd (run w True (FileImporter pf pn (Some ls))))) =
              [Mkdir (new_upload_dir w),
               Copy pf (new_upload_path w (FileImporter pf pn (Some ls))),
               Mkdir (joinpath (new_upload_dir w) (Path (PROCESSED_DIR w)))]"
      by (auto simp: s0_def)
  }
qed

lemma extracted_child_uploads:
  "new_upload_path plain_world (FileImporter extracted_child (Some ''/elsewhere/x.ext'') (Some ls))
     = [''/'', ''elsewhere'', ''x.ext'']"
  "joinpath [''data'', ''upload1''] (Path (PROCESSED_DIR plain_world)) = [''data'', ''upload1'', ''processed'']"
  by code_simp+

lemma extracted_child_copied:
  "take 3 (fs_calls (snd (run plain_world True
             (FileImporter extracted_child None (Some [stdout_listener])))))
     \<noteq> [Mkdir [''data'', ''upload1''], Copy extracted_child [''data'', ''upload1'', ''child.ext'']]"
  by code_simp

theorem run_links_moved_extracted_file_witness:
  "take 3 (fs_calls (snd (run plain_world False
             (FileImporter extracted_child None (Some [stdout_listener])))))
     = [Mkdir [''data'', ''upload1''],
        Move extracted_child [''data'', ''upload1'', ''child.ext''],
        Symlink extracted_child [''data'', ''upload1'', ''child.ext'']]
   \<and> take 3 (fs_calls (snd (run plain_world False
             (FileImporter extracted_child (Some ''/elsewhere/x.ext'') (Some [stdout_listener])))))
     = [Mkdir [''data'', ''upload1''],
        Move extracted_child [''/'', ''elsewhere'', ''x.ext''],
        Symlink extracted_child [''/'', ''elsewhere'', ''x.ext'']]
   \<and> take 3 (fs_calls (snd (run plain_world True
             (FileImporter extracted_child None (Some [stdout_listener])))))
     = [Mkdir [''data'', ''upload1''],
        Copy extracted_child [''data'', ''upload1'', ''child.ext''],
        Mkdir [''data'', ''upload1'', ''processed'']]"
  using run_links_moved_extracted_file[of plain_world extracted_child "[stdout_listener]" None]
    run_links_moved_extracted_file[of plain_world extracted_child "[stdout_listener]"
      "Some ''/elsewhere/x.ext''"]
    plain_world_paths plain_world_uploads extracted_child_uploads extracted_child_copied
    stdout_delivers
  by simp

text \<open>
  C8 as stated fails when the relocation is a copy: the run of an extracted file with
  \<open>prefer_copy\<close> succeeds without any link from the extraction location.
\<close>

theorem run_copy_makes_no_provenance_link:
  "is_extracted plain_world extracted_child
   \<and> fst (run plain_world True (FileImporter extracted_child None (Some [stdout_listener])))
       = Inr [[''data'', ''upload1'', ''child.ext'']]
   \<and> fs_calls (snd (run plain_world True (FileImporter extracted_child None (Some [stdout_listener]))))
       = [Mkdir [''data'', ''upload1''],
          Copy extracted_child [''data'', ''upload1'', ''child.ext''],
          Mkdir [''data'', ''upload1'', ''processed''],
          Symlink [''data'', ''upload1'', ''processed'', ''original.EXT'']
                  [''data'', ''upload1'', ''child.ext''],
          Symlink [''data'', ''upload1'', ''processed'', ''visualisation.EXT'']
                  [''data'', ''upload1'', ''processed'', ''original.EXT''],
          BuildHistogram [''data'', ''upload1'', ''processed'', ''histogram'']]"
  by code_simp

section \<open>Properties of deploy_spatial\<close>

subsection \<open>Actions that return\<close>

lemma returnM_Inr [succ]: "returnM x s = (Inr y, s') \<longleftrightarrow> y = x \<and> s' = s"
  by (auto simp: returnM_def)

lemma raiseM_Inr [succ]: "raiseM e s = (Inr y, s') \<longleftrightarrow> False"
  by (simp add: raiseM_def)

lemma bindM_Inr [succ]:
  "bindM m g s = (Inr y, s') \<longleftrightarrow> (\<exists>x s1. m s = (Inr x, s1) \<and> g x s1 = (Inr y, s'))"
  by (auto simp: bindM_def split: prod.splits sum.splits)

lemma thenM_Inr [succ]:
  "thenM m n s = (Inr y, s') \<longleftrightarrow> (\<exists>s1. m s = (Inr (), s1) \<and> n s1 = (Inr y, s'))"
  by (simp add: thenM_def bindM_Inr)

lemma update_Inr [succ]: "update g s = (Inr u, s') \<longleftrightarrow> s' = g s"
  by (auto simp: update_def)

lemma assertM_Inr [succ]: "assertM b s = (Inr u, s') \<longleftrightarrow> b \<and> s' = s"
  by (auto simp: assertM_def returnM_def raiseM_def)

lemma with_self_Inr [succ]: "with_self g s = (r, s') \<longleftrightarrow> g s s = (r, s')"
  by (simp add: with_self_def)

lemma notify_Inr [succ]:
  "notify k s = (Inr u, s') \<longleftrightarrow>
     notify_raises k (listeners s) = None \<and>
     s' = s\<lparr>events := events s @ [k],
            deliveries := deliveries s @ handled k (listeners s) 0,
            logged := logged s @ unhandled k (listeners s) 0\<rparr>"
  by (auto simp: notify_eq split: option.splits)

lemma fs_call_Inr [succ]:
  "fs_call w c s = (Inr u, s') \<longleftrightarrow> raises w c = None \<and> s' = s\<lparr>fs_calls := fs_calls s @ [c]\<rparr>"
  by (auto simp: fs_call_def split: option.splits)

lemma fs_errors_Inr:
  "try_except (fs_call w c)
     (\<lambda>e. if is_OSError e then thenM (notify k) (raiseM FileErrorProblem) else raiseM e) s
     = (Inr u, s')
   \<longleftrightarrow> raises w c = None \<and> s' = s\<lparr>fs_calls := fs_calls s @ [c]\<rparr>"
  by (auto simp: try_except_def fs_call_def thenM_def bindM_def raiseM_def
      split: option.splits prod.splits sum.splits)

lemma primitives_Inr [succ]:
  "mkdir w d s = (Inr u, s') \<longleftrightarrow>
     raises w (Mkdir d) = None \<and> s' = s\<lparr>fs_calls := fs_calls s @ [Mkdir d]\<rparr>"
  "mksymlink w p t s = (Inr u, s') \<longleftrightarrow>
     raises w (Symlink p t) = None \<and> s' = s\<lparr>fs_calls := fs_calls s @ [Symlink p t]\<rparr>"
  "move w p t c s = (Inr u, s') \<longleftrightarrow>
     raises w (if c then Copy p t else Move p t) = None \<and>
     s' = s\<lparr>fs_calls := fs_calls s @ [if c then Copy p t else Move p t]\<rparr>"
  unfolding mkdir_def mksymlink_def move_def by (auto simp: fs_errors_Inr)

lemma in_processed_dir_Inr [succ]:
  "in_processed_dir n s = (Inr p, s') \<longleftrightarrow> (\<exists>d. processed_dir s = Some d \<and> p = joinpath d (Path n)) \<and> s' = s"
  by (auto simp: in_processed_dir_def with_self_def returnM_def raiseM_def split: option.splits)

lemma try_except_Inr:
  assumes "\<And>e s1 y s2. h e s1 \<noteq> (Inr y, s2)"
  shows "try_except m h s = (Inr y, s') \<longleftrightarrow> m s = (Inr y, s')"
  using assms by (auto simp: try_except_def split: prod.splits sum.splits)

lemma convert_spatial_Inr [succ]:
  "convert_spatial w fmt s = (Inr sp, s') \<longleftrightarrow>
     (\<exists>d. processed_dir s = Some d \<and> sp = joinpath d (Path (SPATIAL_STEM w @ ''.'' @ conversion_identifier fmt)))
     \<and> notify_raises START_CONVERSION (listeners s) = None
     \<and> raises w (Convert fmt sp) = None \<and> convert_result w fmt sp \<and> path_exists w sp
     \<and> s' = s\<lparr>spatial_path := Some sp,
              events := events s @ [START_CONVERSION],
              deliveries := deliveries s @ handled START_CONVERSION (listeners s) 0,
              logged := logged s @ unhandled START_CONVERSION (listeners s) 0,
              fs_calls := fs_calls s @ [Convert fmt sp]\<rparr>"
  unfolding convert_spatial_def
  by (subst try_except_Inr) (auto simp: succ split: if_splits)

text \<open>
  C7. Whenever \<open>deploy_spatial\<close> returns, the representation it returns (also stored in
  \<open>spatial\<close>) satisfies the spatial-role check. For a format that needs no conversion it
  is at \<open>spatial.<identifier>\<close> in the processed directory, and the only file-system call
  made is the symbolic link from that path to the original path, which succeeded: no
  conversion, copy or other write is issued.
\<close>

theorem deploy_spatial_role:
  assumes "fst (deploy_spatial w fmt s) = Inr img"
  shows "has_spatial_role w (img_path img)
       \<and> spatial (snd (deploy_spatial w fmt s)) = Some img
       \<and> (\<not> need_conversion fmt \<longrightarrow>
            (\<exists>pd orig. processed_dir s = Some pd \<and> original_path s = Some orig
               \<and> img_path img = joinpath pd (Path (SPATIAL_STEM w @ ''.'' @ get_identifier fmt))
               \<and> spatial_path (snd (deploy_spatial w fmt s)) = Some (img_path img)
               \<and> raises w (Symlink (img_path img) orig) = None
               \<and> fs_calls (snd (deploy_spatial w fmt s)) = fs_calls s @ [Symlink (img_path img) orig]))"
proof -
  obtain s' where r: "deploy_spatial w fmt s = (Inr img, s')"
    using assms by (cases "deploy_spatial w fmt s") simp
  note r' = r[unfolded deploy_spatial_def]
  have "has_spatial_role w (img_path img)
       \<and> spatial s' = Some img
       \<and> (\<not> need_conversion fmt \<longrightarrow>
            (\<exists>pd orig. processed_dir s = Some pd \<and> original_path s = Some orig
               \<and> img_path img = joinpath pd (Path (SPATIAL_STEM w @ ''.'' @ get_identifier fmt))
               \<and> spatial_path s' = Some (img_path img)
               \<and> raises w (Symlink (img_path img) orig) = None
               \<and> fs_calls s' = fs_calls s @ [Symlink (img_path img) orig]))"
  proof (cases "need_conversion fmt")
    case True
    show ?thesis
    proof (cases "processed_dir s")
      case None
      with r' True show ?thesis by (auto simp: succ)
    next
      case (Some d)
      show ?thesis
      proof (cases "spatial_readable_match w
                      (joinpath d (Path (SPATIAL_STEM w @ ''.'' @ conversion_identifier fmt)))")
        case None
        with r' True Some show ?thesis by (auto simp: succ)
      next
        case match: (Some f)
        with r' True Some show ?thesis by (auto simp: succ split: if_splits)
      qed
    qed
  next
    case False
    with r' show ?thesis by (auto simp: succ split: option.splits)
  qed
  with r show ?thesis by simp
qed

lemma staged_fields:
  "listeners staged = [stdout_listener]"
  "processed_dir staged = Some [''data'', ''upload1'', ''processed'']"
  "original_path staged = Some [''data'', ''upload1'', ''processed'', ''original.EXT'']"
  "fs_calls staged = []"
  by (simp_all add: staged_def FileImporter_def)

lemma deploy_spatial_staged:
  "fst (deploy_spatial plain_world ext_format staged)
     = Inr \<lparr>img_path = [''data'', ''upload1'', ''processed'', ''visualisation.EXT''],
            img_format = ext_format\<rparr>"
  by code_simp

theorem deploy_spatial_role_witness:
  "has_spatial_role plain_world [''data'', ''upload1'', ''processed'', ''visualisation.EXT'']
   \<and> fs_calls (snd (deploy_spatial plain_world ext_format staged))
       = [Symlink [''data'', ''upload1'', ''processed'', ''visualisation.EXT'']
                  [''data'', ''upload1'', ''processed'', ''original.EXT'']]"
  using deploy_spatial_role[OF deploy_spatial_staged] staged_fields
  by (auto simp: ext_format_def)

lemma quiet_raises: "quiet ls \<Longrightarrow> notify_raises k ls = None"
  by (simp add: quiet_def)

lemma notify_quiet:
  "quiet (listeners s) \<Longrightarrow> notify k s =
     (Inr (), s\<lparr>events := events s @ [k],
        deliveries := deliveries s @ handled k (listeners s) 0,
        logged := logged s @ unhandled k (listeners s) 0\<rparr>)"
  by (simp add: notify_eq quiet_raises)

lemmas exec = returnM_def raiseM_def bindM_def thenM_def try_except_def update_def assertM_def
  fs_call_def in_processed_dir_def with_self_def

lemma deploy_spatial_conversion_result:
  assumes "need_conversion fmt" and "quiet (listeners s)" and "processed_dir s = Some pd"
    and "sp = joinpath pd (Path (SPATIAL_STEM w @ ''.'' @ conversion_identifier fmt))"
  shows "fst (deploy_spatial w fmt s) =
     (if raises w (Convert fmt sp) \<noteq> None \<or> \<not> convert_result w fmt sp \<or> \<not> path_exists w sp
      then Inl FormatConversionProblem
      else case spatial_readable_match w sp of
             None \<Rightarrow> Inl NoMatchingFormatProblem
           | Some f \<Rightarrow>
               if check_integrity w \<lparr>img_path = sp, img_format = f\<rparr> \<noteq> []
               then Inl ImageParsingProblem
               else if has_spatial_role w sp
                    then Inr \<lparr>img_path = sp, img_format = f\<rparr>
                    else Inl AssertionError)"
  using assms
  by (simp add: deploy_spatial_def convert_spatial_def exec notify_quiet split: option.splits)

text \<open>
  C6. For a format that needs conversion (listeners that raise nothing, the processed
  directory set as \<open>run\<close> sets it), \<open>deploy_spatial\<close> raises \<open>FormatConversionProblem\<close>
  exactly when the conversion reports failure, or the spatial path does not exist
  afterwards, or the conversion raises; and when the conversion succeeds but the converted
  file matches no directly readable format it raises \<open>NoMatchingFormatProblem\<close>.
\<close>

theorem deploy_spatial_conversion_errors:
  assumes "need_conversion fmt" and "quiet (listeners s)" and "processed_dir s = Some pd"
    and "sp = joinpath pd (Path (SPATIAL_STEM w @ ''.'' @ conversion_identifier fmt))"
  shows "(fst (deploy_spatial w fmt s) = Inl FormatConversionProblem \<longleftrightarrow>
            \<not> convert_result w fmt sp \<or> \<not> path_exists w sp \<or> raises w (Convert fmt sp) \<noteq> None)
       \<and> (convert_result w fmt sp \<and> path_exists w sp \<and> raises w (Convert fmt sp) = None
            \<and> spatial_readable_match w sp = None
          \<longrightarrow> fst (deploy_spatial w fmt s) = Inl NoMatchingFormatProblem)"
  unfolding deploy_spatial_conversion_result[OF assms]
  by (auto split: option.splits)

lemma conversion_fixtures:
  "joinpath [''data'', ''upload1'', ''processed''] (Path ''visualisation.TIFF'')
     = [''data'', ''upload1'', ''processed'', ''visualisation.TIFF'']"
  "need_conversion raw_format"
  "conversion_identifier raw_format = ''TIFF''"
  "SPATIAL_STEM failing_conversion_world = ''visualisation''"
  "SPATIAL_STEM unreadable_world = ''visualisation''"
  "\<not> convert_result failing_conversion_world f p"
  "convert_result unreadable_world f p"
  "path_exists unreadable_world p"
  "raises unreadable_world c = None"
  "spatial_readable_match unreadable_world p = None"
  by (code_simp, simp_all add: raw_format_def failing_conversion_world_def unreadable_world_def plain_world_def)

theorem deploy_spatial_conversion_errors_witness:
  "fst (deploy_spatial failing_conversion_world raw_format staged) = Inl FormatConversionProblem
   \<and> fst (deploy_spatial unreadable_world raw_format staged) = Inl NoMatchingFormatProblem"
  using deploy_spatial_conversion_errors[of raw_format staged
          "[''data'', ''upload1'', ''processed'']"
          "[''data'', ''upload1'', ''processed'', ''visualisation.TIFF'']" failing_conversion_world]
    deploy_spatial_conversion_errors[of raw_format staged
          "[''data'', ''upload1'', ''processed'']"
          "[''data'', ''upload1'', ''processed'', ''visualisation.TIFF'']" unreadable_world]
    conversion_fixtures staged_fields quiet_stdout
  by simp

section \<open>Properties of import_collection\<close>

lemma tasks_of_simps [simp]:
  "tasks_of c pc [] = []"
  "tasks_of c pc (ch # children) =
     (case build_task c pc ch of Inl _ \<Rightarrow> [] | Inr t \<Rightarrow> [t]) @ tasks_of c pc children"
  by (simp_all add: tasks_of_def)

lemma register_children_eq:
  assumes "notify_raises REGISTER_FILE (listeners s) = None"
  shows "fst (register_children c pc children acc s) = Inr (acc @ tasks_of c pc children)
       \<and> listeners (snd (register_children c pc children acc s)) = listeners s
       \<and> executed (snd (register_children c pc children acc s)) = executed s"
  using assms
proof (induction children arbitrary: acc s)
  case Nil
  then show ?case by simp
next
  case (Cons ch children)
  define s1 where "s1 = snd (notify REGISTER_FILE s)"
  have n: "notify REGISTER_FILE s = (Inr (), s1)"
    using Cons.prems by (simp add: s1_def notify_eq)
  have l: "listeners s1 = listeners s" "executed s1 = executed s"
    by (simp_all add: s1_def notify_eq)
  with Cons.prems have "notify_raises REGISTER_FILE (listeners s1) = None" by simp
  from Cons.IH[OF this] n l show ?case
    by (simp split: sum.splits)
qed

lemma length_tasks_of:
  "length (tasks_of c pc children)
     = length children - length (filter (\<lambda>ch. isl (build_task c pc ch)) children)"
proof (induction children)
  case Nil
  then show ?case by simp
next
  case (Cons ch children)
  have "length (filter (\<lambda>ch. isl (build_task c pc ch)) children) \<le> length children"
    by simp
  with Cons show ?case by (auto split: sum.splits)
qed

lemma tasks_of_children:
  "map (\<lambda>t. child_path (snd t)) (tasks_of c pc children)
     = filter (\<lambda>ch. \<not> isl (build_task c pc ch)) children"
  by (induction children) (auto simp: build_task_def split: sum.splits option.splits)

lemma sequential_imports_ok:
  assumes "\<And>t. bg_task w t = None"
  shows "sequential_imports w ts s = (Inr (), s\<lparr>executed := executed s @ map (Pair InProcess) ts\<rparr>)"
  by (induction ts arbitrary: s) (simp_all add: assms)

lemma dispatch_ok:
  assumes "\<And>t. bg_task w t = None"
  shows "fst (dispatch w ts s) = Inr ()"
    and "\<not> task_queue_enabled w \<Longrightarrow>
           executed (snd (dispatch w ts s)) = executed s @ map (Pair InProcess) ts"
  by (auto simp: dispatch_def sequential_imports_ok[OF assms] try_except_def celery_imports_def
      split: option.splits)

text \<open>
  When the task of exactly one of the K children cannot be built, that failure is
  swallowed: K - 1 tasks are built, those of the other children in listing order, and
  (no notification and no child import raising) \<open>import_collection\<close> returns; with the
  task queue disabled these tasks are run in process, in that order.
\<close>

lemma import_collection_drops_failing_child:
  assumes "length (filter (\<lambda>ch. isl (build_task (find_cytomine (listeners s)) pc ch))
                     (get_extracted_children w coll)) = 1"
    and "notify_raises REGISTER_FILE (listeners s) = None"
    and "\<forall>t. bg_task w t = None"
  shows "(\<exists>r. fst (import_collection w coll pc s) = Inr r)
       \<and> length (tasks_of (find_cytomine (listeners s)) pc (get_extracted_children w coll))
           = length (get_extracted_children w coll) - 1
       \<and> map (\<lambda>t. child_path (snd t))
            (tasks_of (find_cytomine (listeners s)) pc (get_extracted_children w coll))
           = filter (\<lambda>ch. \<not> isl (build_task (find_cytomine (listeners s)) pc ch))
               (get_extracted_children w coll)
       \<and> (\<not> task_queue_enabled w \<longrightarrow>
            executed (snd (import_collection w coll pc s))
              = executed s @ map (Pair InProcess)
                  (tasks_of (find_cytomine (listeners s)) pc (get_extracted_children w coll)))"
proof -
  let ?c = "find_cytomine (listeners s)"
  let ?cs = "get_extracted_children w coll"
  obtain r1 s1 where rc: "register_children ?c pc ?cs [] s = (r1, s1)"
    by (cases "register_children ?c pc ?cs [] s")
  from register_children_eq[OF assms(2), of ?c pc ?cs "[]"] rc
  have r1: "r1 = Inr (tasks_of ?c pc ?cs)" and e1: "executed s1 = executed s" by simp_all
  have ic: "import_collection w coll pc s =
      (case dispatch w (tasks_of ?c pc ?cs) s1 of (Inl e, s2) \<Rightarrow> (Inl e, s2) | (Inr _, s2) \<Rightarrow> (Inr [], s2))"
    using rc r1
    by (simp add: import_collection_def with_self_def bindM_def thenM_def returnM_def
        split: prod.splits sum.splits)
  obtain r2 s2 where d: "dispatch w (tasks_of ?c pc ?cs) s1 = (r2, s2)"
    by (cases "dispatch w (tasks_of ?c pc ?cs) s1")
  from assms(3) have bg: "\<And>t. bg_task w t = None" by blast
  from dispatch_ok[OF bg, of "tasks_of ?c pc ?cs" s1] d e1
  have r2: "r2 = Inr ()"
    and e2: "\<not> task_queue_enabled w \<Longrightarrow>
               executed s2 = executed s @ map (Pair InProcess) (tasks_of ?c pc ?cs)"
    by simp_all
  from ic d r2 have res: "import_collection w coll pc s = (Inr [], s2)" by simp
  show ?thesis
    using res e2 assms(1) by (simp add: length_tasks_of tasks_of_children)
qed

text \<open>
  C2. The code at the failing input: of two children, the task of \<open>b\<close> cannot be built.
  The failure is swallowed and the task of \<open>a\<close> is run, but the list returned is
  empty, where the claim has the K - 1 = 1 imported children: \<open>imported\<close> is never
  appended to.
\<close>

theorem import_collection_returns_no_children:
  "get_extracted_children archive_world [''collection''] = [[''extracted'', ''a''], [''extracted'', ''b'']]
   \<and> build_task (Some cytomine_listener) False [''extracted'', ''b'']
       = Inl (OtherException ''no uploaded file'')
   \<and> fst (import_collection archive_world [''collection''] False
            (FileImporter slide None (Some [stdout_listener, cytomine_listener]))) = Inr []
   \<and> map snd (executed (snd (import_collection archive_world [''collection''] False
            (FileImporter slide None (Some [stdout_listener, cytomine_listener])))))
       = [(IMPORT_WITH_CYTOMINE,
           \<lparr>child_listener = Some 1, child_path = [''extracted'', ''a''],
            child_name = ''a'', child_prefer_copy = False\<rparr>)]"
  by code_simp

text \<open>
  C4. The code at the failing input: the task queue is enabled, the one task of the
  batch is executed by a worker and the join raises. The fallback then runs the whole
  batch in process, so the task is executed twice, where the claim has exactly once.
\<close>

theorem fallback_runs_joined_task_again:
  "executed (snd (import_collection join_fails_world [''collection''] False
      (FileImporter slide None (Some [stdout_listener]))))
     = [(Worker, task_a), (InProcess, task_a)]"
  by code_simp

section \<open>A format that is not spatial\<close>

lemma yields_bindM_dep:
  assumes "yields P m" and "\<And>x. P x \<Longrightarrow> yields Q (g x)"
  shows "yields Q (bindM m g)"
unfolding yields_def
proof (intro allI impI)
  fix s y s'
  assume "bindM m g s = (Inr y, s')"
  then show "Q y"
  proof (cases rule: bindM_cases)
    case (raised e)
    then show ?thesis by simp
  next
    case (returned x s1)
    from yieldsD[OF assms(2)[OF yieldsD[OF assms(1) returned(1)]] returned(2)] show ?thesis .
  qed
qed

lemma preserves_bindM_dep:
  assumes "preserves f m" and "yields P m" and "\<And>x. P x \<Longrightarrow> preserves f (g x)"
  shows "preserves f (bindM m g)"
proof (rule preservesI)
  fix s r s'
  assume "bindM m g s = (r, s')"
  then show "f s' = f s"
  proof (cases rule: bindM_cases)
    case (raised e)
    from preserves_pairD[OF assms(1) raised(1)] show ?thesis .
  next
    case (returned x s1)
    from yieldsD[OF assms(2) returned(1)] have "P x" .
    from preserves_pairD[OF assms(3)[OF this] returned(2)] preserves_pairD[OF assms(1) returned(1)]
    show ?thesis by simp
  qed
qed

lemma detect_format_yields:
  "importable_match w up = Some fmt \<Longrightarrow> yields (\<lambda>x. x = (fmt, False)) (detect_format w up)"
  "importable_match w up = None \<Longrightarrow> archive_from_path w up = Some a
     \<Longrightarrow> yields (\<lambda>x. x = (a, True)) (detect_format w up)"
  unfolding detect_format_def by (simp_all; intro yield; simp)+

lemma make_original_yields:
  "yields (\<lambda>r. \<exists>u orig. r = Inr (fmt, u, orig)) (make_original w pc ud up fmt False)"
  "importable_match w (original_of w ud a) = Some fmt
     \<Longrightarrow> yields (\<lambda>r. \<exists>u orig. r = Inr (fmt, u, orig)) (make_original w pc ud up a True)"
  unfolding make_original_def Let_def original_of_def by (simp_all; intro yield; simp)+

lemma deploy_non_spatial:
  assumes "\<not> is_spatial fmt"
  shows "yields (\<lambda>_. False) (deploy w fmt up orig)"
    and "k = START_SPATIAL_DEPLOY \<or> k = START_HISTOGRAM_DEPLOY
           \<Longrightarrow> preserves (emitted k) (deploy w fmt up orig)"
proof -
  have eq: "deploy w fmt up orig =
     thenM (notify START_INTEGRITY_CHECK)
    (thenM (update (\<lambda>s. s\<lparr>original := Some \<lparr>img_path = orig, img_format = fmt\<rparr>\<rparr>))
    (thenM (if length (check_integrity w \<lparr>img_path = orig, img_format = fmt\<rparr>) > 0
            then thenM (notify ERROR_INTEGRITY_CHECK) (raiseM ImageParsingProblem)
            else notify END_INTEGRITY_CHECK)
           (raiseM NotImplementedError)))"
    using assms by (simp add: deploy_def thenM_raiseM)
  show "yields (\<lambda>_. False) (deploy w fmt up orig)"
    unfolding eq by (intro yield)
  show "preserves (emitted k) (deploy w fmt up orig)"
    if "k = START_SPATIAL_DEPLOY \<or> k = START_HISTOGRAM_DEPLOY"
    unfolding eq using that by (intro comb keep; auto)
qed

lemma run_rest_non_spatial:
  assumes "importable_match w up = Some fmt
         \<or> importable_match w up = None \<and> archive_from_path w up = Some a
           \<and> importable_match w (original_of w ud a) = Some fmt"
    and "\<not> is_spatial fmt"
  shows "yields (\<lambda>_. False) (run_rest w pc ud up)"
    and "k = START_SPATIAL_DEPLOY \<or> k = START_HISTOGRAM_DEPLOY
           \<Longrightarrow> preserves (emitted k) (run_rest w pc ud up)"
proof -
  define rest where "rest = (\<lambda>r. case r of Inl collection \<Rightarrow> returnM collection
                   | Inr (fmt', up', orig) \<Rightarrow> deploy w fmt' up' orig)"
  have rr: "run_rest w pc ud up =
      bindM (detect_format w up) (\<lambda>(f, ia). bindM (make_original w pc ud up f ia) rest)"
    by (simp add: run_rest_def rest_def)
  obtain f ia where d: "yields (\<lambda>x. x = (f, ia)) (detect_format w up)"
    and m: "yields (\<lambda>r. \<exists>u orig. r = Inr (fmt, u, orig)) (make_original w pc ud up f ia)"
    using assms(1) detect_format_yields[of w up] make_original_yields[where w=w and ud=ud and fmt=fmt]
    by blast
  have r1: "yields (\<lambda>_. False) (rest r)" if "\<exists>u orig. r = Inr (fmt, u, orig)" for r
    using that deploy_non_spatial(1)[OF assms(2)] by (auto simp: rest_def)
  have r2: "preserves (emitted k) (rest r)"
    if "\<exists>u orig. r = Inr (fmt, u, orig)" "k = START_SPATIAL_DEPLOY \<or> k = START_HISTOGRAM_DEPLOY" for r
    using that deploy_non_spatial(2)[OF assms(2)] by (auto simp: rest_def)
  show "yields (\<lambda>_. False) (run_rest w pc ud up)"
    unfolding rr
    by (rule yields_bindM_dep[OF d]) (auto intro!: yields_bindM_dep[OF m] r1)
  show "preserves (emitted k) (run_rest w pc ud up)"
    if k: "k = START_SPATIAL_DEPLOY \<or> k = START_HISTOGRAM_DEPLOY"
  proof -
    have kd: "preserves (emitted k) (detect_format w up)"
      using k by (intro keep_primitives) auto
    have km: "preserves (emitted k) (make_original w pc ud up f ia)"
      using k by (intro keep_make_original) auto
    show ?thesis
      unfolding rr
      by (rule preserves_bindM_dep[OF kd d])
         (auto intro!: preserves_bindM_dep[OF km m] r2 k)
  qed
qed


lemma relocate_cond:
  "sanctioned w p \<Longrightarrow> path_exists w p \<Longrightarrow>
   ((\<not> is_extracted w p \<and> (parent p \<noteq> WRITING_PATH w \<and> parent p \<noteq> PENDING_PATH w))
      \<or> \<not> path_exists w p) = False"
  by (auto simp: sanctioned_def)

lemma new_upload_path_notified:
  "new_upload_path w (s\<lparr>events := e, deliveries := d, logged := l\<rparr>) = new_upload_path w s"
  by (simp add: new_upload_path_def split: option.splits)

lemma relocate_quiet:
  assumes "quiet (listeners s)" and "sanctioned w (pending_file s)" and "path_exists w (pending_file s)"
    and "ud = new_upload_dir w" and "up = new_upload_path w s" and "pf = pending_file s"
    and "\<forall>c \<in> set ([Mkdir ud, if pc then Copy pf up else Move pf up]
                 @ (if \<not> pc \<and> is_extracted w pf then [Symlink pf up] else [])).
           raises w c = None"
  shows "relocate w pc s =
     (Inr (ud, up),
      s\<lparr>events := events s @ [START_DATA_EXTRACTION, MOVED_PENDING_FILE, END_DATA_EXTRACTION],
        deliveries := deliveries s @ handled START_DATA_EXTRACTION (listeners s) 0
                        @ handled MOVED_PENDING_FILE (listeners s) 0
                        @ handled END_DATA_EXTRACTION (listeners s) 0,
        logged := logged s @ unhandled START_DATA_EXTRACTION (listeners s) 0
                        @ unhandled MOVED_PENDING_FILE (listeners s) 0
                        @ unhandled END_DATA_EXTRACTION (listeners s) 0,
        upload_dir := Some ud, upload_path := Some up,
        fs_calls := fs_calls s @ [Mkdir ud, if pc then Copy pf up else Move pf up]
                 @ (if \<not> pc \<and> is_extracted w pf then [Symlink pf up] else [])\<rparr>)"
  using assms
  by (cases pc; cases "is_extracted w (pending_file s)";
      simp add: relocate_def mkdir_def move_def mksymlink_def exec notify_quiet relocate_cond
        new_upload_path_notified; auto simp: sanctioned_def)


lemma run_rest_direct_quiet:
  assumes "quiet (listeners s)"
    and "importable_match w up = Some fmt" and "\<not> is_spatial fmt"
    and "pd = joinpath ud (Path (PROCESSED_DIR w))" and "orig = original_of w ud fmt"
    and "raises w (Mkdir pd) = None" and "raises w (Symlink orig up) = None"
    and "has_original_role w orig"
    and "check_integrity w \<lparr>img_path = orig, img_format = fmt\<rparr> = []"
  shows "fst (run_rest w pc ud up s) = Inl NotImplementedError"
    and "fs_calls (snd (run_rest w pc ud up s)) = fs_calls s @ [Mkdir pd, Symlink orig up]"
    and "events (snd (run_rest w pc ud up s)) = events s @
           [START_FORMAT_DETECTION, END_FORMAT_DETECTION, START_INTEGRITY_CHECK, END_INTEGRITY_CHECK]"
    and "listeners (snd (run_rest w pc ud up s)) = listeners s"
  using assms
  by (simp_all add: run_rest_def detect_format_def make_original_def deploy_def Let_def original_of_def
        mkdir_def mksymlink_def exec notify_quiet)

lemma run_rest_archive_quiet:
  assumes "quiet (listeners s)"
    and "importable_match w up = None" and "archive_from_path w up = Some a"
    and "importable_match w (original_of w ud a) = Some fmt" and "\<not> is_spatial fmt"
    and "pd = joinpath ud (Path (PROCESSED_DIR w))" and "orig = original_of w ud fmt"
    and "raises w (Mkdir pd) = None" and "raises w (Extract up (original_of w ud a)) = None"
    and "raises w (Move (original_of w ud a) orig) = None"
    and "check_integrity w \<lparr>img_path = orig, img_format = fmt\<rparr> = []"
  shows "fst (run_rest w pc ud up s) = Inl NotImplementedError"
    and "fs_calls (snd (run_rest w pc ud up s)) =
           fs_calls s @ [Mkdir pd, Extract up (original_of w ud a), Move (original_of w ud a) orig]"
    and "events (snd (run_rest w pc ud up s)) = events s @
           [START_FORMAT_DETECTION, END_FORMAT_DETECTION, START_UNPACKING, END_UNPACKING,
            START_INTEGRITY_CHECK, END_INTEGRITY_CHECK]"
    and "listeners (snd (run_rest w pc ud up s)) = listeners s"
  using assms
  by (simp_all add: run_rest_def detect_format_def make_original_def deploy_def Let_def original_of_def
        mkdir_def mksymlink_def move_def unpack_def exec notify_quiet)


lemma never_returns: "yields (\<lambda>_. False) m \<Longrightarrow> m s = (Inr x, s') \<Longrightarrow> P"
  by (auto simp: yields_def)

lemma run_quiet_raises:
  assumes rel: "relocate w pc s = (Inr (ud, up), s1)"
    and q: "quiet (listeners s1)"
    and r: "fst (run_rest w pc ud up s1) = Inl e"
    and l: "listeners (snd (run_rest w pc ud up s1)) = listeners s1"
  shows "fst (run w pc s) = Inl e"
    and "events (snd (run w pc s)) = events (snd (run_rest w pc ud up s1)) @ [FILE_ERROR]"
    and "fs_calls (snd (run w pc s)) = fs_calls (snd (run_rest w pc ud up s1))"
proof -
  obtain s2 where rr: "run_rest w pc ud up s1 = (Inl e, s2)"
    using r by (cases "run_rest w pc ud up s1") simp
  obtain r' s' where oe: "on_error e s2 = (r', s')" by (cases "on_error e s2")
  from run_after_relocate[OF rel] rr oe have run: "run w pc s = (r', s')"
    by (simp add: try_except_def)
  from l rr q have "notify_raises FILE_ERROR (listeners s2) = None" by (simp add: quiet_raises)
  from on_error_pair(5)[OF oe this] run show "fst (run w pc s) = Inl e" by simp
  from on_error_pair(2)[OF oe] run rr
  show "events (snd (run w pc s)) = events (snd (run_rest w pc ud up s1)) @ [FILE_ERROR]" by simp
  from on_error_pair(3)[OF oe] run rr
  show "fs_calls (snd (run w pc s)) = fs_calls (snd (run_rest w pc ud up s1))" by simp
qed

text \<open>
  C10. Let the format that \<open>run\<close> goes on to check be one that is not spatial: the format
  matched on the upload or, when the upload is an archive, the format matched on what was
  extracted from it. Then \<open>run\<close> never returns normally and never notifies the start of
  the spatial or of the histogram deployment. When moreover the steps up to the integrity
  check succeed (the pending file is accepted, the listeners raise nothing, none of the
  file-system calls of the relocation and of the original representation fails, the
  original has its role, the integrity check finds no error), \<open>run\<close> raises
  \<open>NotImplementedError\<close> right after the integrity check: its file-system calls are those
  of the relocation and of the original representation and no other, and the events it
  notifies end with the end of the integrity check followed by the generic file error.
\<close>

theorem run_non_spatial_format:
  assumes "s0 = FileImporter pf pn (Some ls)"
    and "ud = new_upload_dir w" and "up = new_upload_path w s0"
    and "pd = joinpath ud (Path (PROCESSED_DIR w))"
    and "orig = original_of w ud fmt"
    and "relocation = [Mkdir ud, if pc then Copy pf up else Move pf up]
                      @ (if \<not> pc \<and> is_extracted w pf then [Symlink pf up] else [])"
    and ns: "\<not> is_spatial fmt"
    and det: "importable_match w up = Some fmt
         \<or> importable_match w up = None \<and> archive_from_path w up = Some a
           \<and> importable_match w (original_of w ud a) = Some fmt"
  shows "(\<exists>e. fst (run w pc s0) = Inl e)
       \<and> START_SPATIAL_DEPLOY \<notin> set (events (snd (run w pc s0)))
       \<and> START_HISTOGRAM_DEPLOY \<notin> set (events (snd (run w pc s0)))
       \<and> (quiet ls \<and> sanctioned w pf \<and> path_exists w pf
            \<and> check_integrity w \<lparr>img_path = orig, img_format = fmt\<rparr> = [] \<longrightarrow>
            (importable_match w up = Some fmt \<and> has_original_role w orig
               \<and> (\<forall>c \<in> set (relocation @ [Mkdir pd, Symlink orig up]). raises w c = None) \<longrightarrow>
                 fst (run w pc s0) = Inl NotImplementedError
               \<and> fs_calls (snd (run w pc s0)) = relocation @ [Mkdir pd, Symlink orig up]
               \<and> events (snd (run w pc s0)) =
                   [START_DATA_EXTRACTION, MOVED_PENDING_FILE, END_DATA_EXTRACTION,
                    START_FORMAT_DETECTION, END_FORMAT_DETECTION,
                    START_INTEGRITY_CHECK, END_INTEGRITY_CHECK, FILE_ERROR])
          \<and> (importable_match w up = None
               \<and> (\<forall>c \<in> set (relocation @ [Mkdir pd, Extract up (original_of w ud a),
                                               Move (original_of w ud a) orig]).
                     raises w c = None) \<longrightarrow>
                 fst (run w pc s0) = Inl NotImplementedError
               \<and> fs_calls (snd (run w pc s0)) =
                   relocation @ [Mkdir pd, Extract up (original_of w ud a),
                                 Move (original_of w ud a) orig]
               \<and> events (snd (run w pc s0)) =
                   [START_DATA_EXTRACTION, MOVED_PENDING_FILE, END_DATA_EXTRACTION,
                    START_FORMAT_DETECTION, END_FORMAT_DETECTION,
                    START_UNPACKING, END_UNPACKING,
                    START_INTEGRITY_CHECK, END_INTEGRITY_CHECK, FILE_ERROR]))"
proof -
  note defs = assms(1-6)
  obtain r1 s1 where rel: "relocate w pc s0 = (r1, s1)" by (cases "relocate w pc s0")
  obtain r s' where run: "run w pc s0 = (r, s')" by (cases "run w pc s0")
  have k1: "emitted k s1 = 0"
    if "k = START_SPATIAL_DEPLOY \<or> k = START_HISTOGRAM_DEPLOY" for k
  proof -
    from that have "preserves (emitted k) (relocate w pc)" by (intro keep_relocate) auto
    from preserves_pairD[OF this rel] show ?thesis by (simp add: defs emitted_init)
  qed
  have part1: "(\<exists>e. r = Inl e) \<and> emitted START_SPATIAL_DEPLOY s' = 0
      \<and> emitted START_HISTOGRAM_DEPLOY s' = 0"
  proof (cases r1)
    case (Inl e)
    with run_after_relocate[OF rel] run have oe: "on_error e s1 = (r, s')" by simp
    from on_error_pair(1,2)[OF oe] k1 show ?thesis by (auto simp: emitted_def)
  next
    case (Inr x)
    with relocate_returns[of w pc s0 x s1] rel have x: "x = (ud, up)"
      by (simp add: defs)
    with Inr run_after_relocate[OF rel] run
    have te: "try_except (run_rest w pc ud up) on_error s1 = (r, s')" by simp
    note rn = run_rest_non_spatial[OF det ns, where pc=pc]
    from te show ?thesis
    proof (cases rule: try_except_cases)
      case (passed y)
      from never_returns[OF rn(1) passed(1)] show ?thesis .
    next
      case (caught e s2)
      note oe = on_error_pair[OF caught(2)]
      have k2: "emitted k s2 = 0" if "k = START_SPATIAL_DEPLOY \<or> k = START_HISTOGRAM_DEPLOY" for k
        using preserves_pairD[OF rn(2)[OF that] caught(1)] k1[of k] that by auto
      from oe(1,2) k2 show ?thesis by (auto simp: emitted_def)
    qed
  qed
  have relocated: "relocate w pc s0 = (Inr (ud, up), s1) \<and> listeners s1 = ls
      \<and> events s1 = [START_DATA_EXTRACTION, MOVED_PENDING_FILE, END_DATA_EXTRACTION]
      \<and> fs_calls s1 = relocation"
    if q: "quiet ls" and ok: "sanctioned w pf" "path_exists w pf"
      and calls: "\<forall>c \<in> set relocation. raises w c = None"
  proof -
    have pre: "quiet (listeners s0)" "sanctioned w (pending_file s0)" "path_exists w (pending_file s0)"
      "pf = pending_file s0" "listeners s0 = ls" "events s0 = []" "fs_calls s0 = []"
      using q ok by (simp_all add: defs(1) init_fields)
    note rq = relocate_quiet[OF pre(1,2,3) defs(2) defs(3) pre(4) calls[unfolded defs(6)]]
    from rq rel have "r1 = Inr (ud, up)" and
      "s1 = s0\<lparr>events := events s0 @ [START_DATA_EXTRACTION, MOVED_PENDING_FILE, END_DATA_EXTRACTION],
        deliveries := deliveries s0 @ handled START_DATA_EXTRACTION (listeners s0) 0
                        @ handled MOVED_PENDING_FILE (listeners s0) 0
                        @ handled END_DATA_EXTRACTION (listeners s0) 0,
        logged := logged s0 @ unhandled START_DATA_EXTRACTION (listeners s0) 0
                        @ unhandled MOVED_PENDING_FILE (listeners s0) 0
                        @ unhandled END_DATA_EXTRACTION (listeners s0) 0,
        upload_dir := Some ud, upload_path := Some up,
        fs_calls := fs_calls s0 @ [Mkdir ud, if pc then Copy pf up else Move pf up]
                 @ (if \<not> pc \<and> is_extracted w pf then [Symlink pf up] else [])\<rparr>"
      by simp_all
    with rel pre(5,6,7) show ?thesis by (simp add: defs(6))
  qed
  have part2: "fst (run w pc s0) = Inl NotImplementedError
               \<and> fs_calls (snd (run w pc s0)) = relocation @ [Mkdir pd, Symlink orig up]
               \<and> events (snd (run w pc s0)) =
                   [START_DATA_EXTRACTION, MOVED_PENDING_FILE, END_DATA_EXTRACTION,
                    START_FORMAT_DETECTION, END_FORMAT_DETECTION,
                    START_INTEGRITY_CHECK, END_INTEGRITY_CHECK, FILE_ERROR]"
    if q: "quiet ls" and ok: "sanctioned w pf" "path_exists w pf"
      and ci: "check_integrity w \<lparr>img_path = orig, img_format = fmt\<rparr> = []"
      and m: "importable_match w up = Some fmt" and role: "has_original_role w orig"
      and calls: "\<forall>c \<in> set (relocation @ [Mkdir pd, Symlink orig up]). raises w c = None"
  proof -
    from calls have "\<forall>c \<in> set relocation. raises w c = None" by simp
    from relocated[OF q ok this]
    have rq: "relocate w pc s0 = (Inr (ud, up), s1)" and s1: "listeners s1 = ls"
      "events s1 = [START_DATA_EXTRACTION, MOVED_PENDING_FILE, END_DATA_EXTRACTION]"
      "fs_calls s1 = relocation"
      by simp_all
    from q s1 have q1: "quiet (listeners s1)" by simp
    from calls have c: "raises w (Mkdir pd) = None" "raises w (Symlink orig up) = None" by simp_all
    note rr = run_rest_direct_quiet[OF q1 m ns defs(4) defs(5) c role ci, where pc=pc]
    from run_quiet_raises[OF rq q1 rr(1) rr(4)] rr(2,3) s1 show ?thesis by simp
  qed
  have part3: "fst (run w pc s0) = Inl NotImplementedError
               \<and> fs_calls (snd (run w pc s0)) =
                   relocation @ [Mkdir pd, Extract up (original_of w ud a),
                                 Move (original_of w ud a) orig]
               \<and> events (snd (run w pc s0)) =
                   [START_DATA_EXTRACTION, MOVED_PENDING_FILE, END_DATA_EXTRACTION,
                    START_FORMAT_DETECTION, END_FORMAT_DETECTION,
                    START_UNPACKING, END_UNPACKING,
                    START_INTEGRITY_CHECK, END_INTEGRITY_CHECK, FILE_ERROR]"
    if q: "quiet ls" and ok: "sanctioned w pf" "path_exists w pf"
      and ci: "check_integrity w \<lparr>img_path = orig, img_format = fmt\<rparr> = []"
      and m: "importable_match w up = None"
      and calls: "\<forall>c \<in> set (relocation @ [Mkdir pd, Extract up (original_of w ud a),
                                               Move (original_of w ud a) orig]).
                     raises w c = None"
  proof -
    from det m have ar: "archive_from_path w up = Some a"
      and m2: "importable_match w (original_of w ud a) = Some fmt" by simp_all
    from calls have "\<forall>c \<in> set relocation. raises w c = None" by simp
    from relocated[OF q ok this]
    have rq: "relocate w pc s0 = (Inr (ud, up), s1)" and s1: "listeners s1 = ls"
      "events s1 = [START_DATA_EXTRACTION, MOVED_PENDING_FILE, END_DATA_EXTRACTION]"
      "fs_calls s1 = relocation"
      by simp_all
    from q s1 have q1: "quiet (listeners s1)" by simp
    from calls have c: "raises w (Mkdir pd) = None"
      "raises w (Extract up (original_of w ud a)) = None"
      "raises w (Move (original_of w ud a) orig) = None" by simp_all
    note rr = run_rest_archive_quiet[OF q1 m ar m2 ns defs(4) defs(5) c ci, where pc=pc]
    from run_quiet_raises[OF rq q1 rr(1) rr(4)] rr(2,3) s1 show ?thesis by simp
  qed
  from part1 run part2 part3 show ?thesis by (simp add: emitted_0)
qed


lemma flat_world_facts:
  "importable_match flat_world p = Some flat_format"
  "\<not> is_spatial flat_format"
  "\<not> is_extracted flat_world slide"
  "sanctioned flat_world slide"
  "path_exists flat_world p"
  "raises flat_world c = None"
  "has_original_role flat_world p"
  "check_integrity flat_world i = []"
  by (simp_all add: flat_world_def flat_format_def plain_world_def slide_def sanctioned_def
        parent_def is_absolute_def)

lemma flat_world_paths:
  "new_upload_dir flat_world = [''data'', ''upload1'']"
  "new_upload_path flat_world (FileImporter slide None (Some ls)) = [''data'', ''upload1'', ''slide.ext'']"
  "joinpath [''data'', ''upload1''] (Path (PROCESSED_DIR flat_world)) = [''data'', ''upload1'', ''processed'']"
  "original_of flat_world [''data'', ''upload1''] flat_format
     = [''data'', ''upload1'', ''processed'', ''original.FLAT'']"
  by code_simp+

lemma multi_world_facts:
  "importable_match multi_world [''data'', ''upload1'', ''slide.ext''] = None"
  "archive_from_path multi_world p = Some zip_format"
  "importable_match multi_world [''data'', ''upload1'', ''processed'', ''original.ZIP'']
     = Some flat_format"
  "\<not> is_extracted multi_world slide"
  "sanctioned multi_world slide"
  "path_exists multi_world p"
  "raises multi_world c = None"
  "check_integrity multi_world i = []"
  by (simp_all add: multi_world_def flat_world_def flat_format_def plain_world_def slide_def
        sanctioned_def parent_def is_absolute_def name_def)

lemma multi_world_paths:
  "new_upload_dir multi_world = [''data'', ''upload1'']"
  "new_upload_path multi_world (FileImporter slide None (Some ls)) = [''data'', ''upload1'', ''slide.ext'']"
  "joinpath [''data'', ''upload1''] (Path (PROCESSED_DIR multi_world)) = [''data'', ''upload1'', ''processed'']"
  "original_of multi_world [''data'', ''upload1''] flat_format
     = [''data'', ''upload1'', ''processed'', ''original.FLAT'']"
  "original_of multi_world [''data'', ''upload1''] zip_format
     = [''data'', ''upload1'', ''processed'', ''original.ZIP'']"
  by code_simp+

theorem run_non_spatial_format_witness:
  "fst (run flat_world False (FileImporter slide None (Some [stdout_listener])))
     = Inl NotImplementedError
   \<and> fs_calls (snd (run flat_world False (FileImporter slide None (Some [stdout_listener]))))
     = [Mkdir [''data'', ''upload1''],
        Move slide [''data'', ''upload1'', ''slide.ext''],
        Mkdir [''data'', ''upload1'', ''processed''],
        Symlink [''data'', ''upload1'', ''processed'', ''original.FLAT'']
                [''data'', ''upload1'', ''slide.ext'']]
   \<and> events (snd (run flat_world False (FileImporter slide None (Some [stdout_listener]))))
     = [START_DATA_EXTRACTION, MOVED_PENDING_FILE, END_DATA_EXTRACTION,
        START_FORMAT_DETECTION, END_FORMAT_DETECTION,
        START_INTEGRITY_CHECK, END_INTEGRITY_CHECK, FILE_ERROR]
   \<and> fst (run multi_world False (FileImporter slide None (Some [stdout_listener])))
     = Inl NotImplementedError
   \<and> fs_calls (snd (run multi_world False (FileImporter slide None (Some [stdout_listener]))))
     = [Mkdir [''data'', ''upload1''],
        Move slide [''data'', ''upload1'', ''slide.ext''],
        Mkdir [''data'', ''upload1'', ''processed''],
        Extract [''data'', ''upload1'', ''slide.ext'']
                [''data'', ''upload1'', ''processed'', ''original.ZIP''],
        Move [''data'', ''upload1'', ''processed'', ''original.ZIP'']
             [''data'', ''upload1'', ''processed'', ''original.FLAT'']]
   \<and> events (snd (run multi_world False (FileImporter slide None (Some [stdout_listener]))))
     = [START_DATA_EXTRACTION, MOVED_PENDING_FILE, END_DATA_EXTRACTION,
        START_FORMAT_DETECTION, END_FORMAT_DETECTION,
        START_UNPACKING, END_UNPACKING,
        START_INTEGRITY_CHECK, END_INTEGRITY_CHECK, FILE_ERROR]"
  using run_non_spatial_format
    [where w=flat_world and pf=slide and pn=None and ls="[stdout_listener]" and pc=False
       and fmt=flat_format and a=zip_format
       and ?s0.0="FileImporter slide None (Some [stdout_listener])"
       and ud="[''data'', ''upload1'']" and up="[''data'', ''upload1'', ''slide.ext'']"
       and pd="[''data'', ''upload1'', ''processed'']"
       and orig="[''data'', ''upload1'', ''processed'', ''original.FLAT'']"
       and relocation="[Mkdir [''data'', ''upload1''], Move slide [''data'', ''upload1'', ''slide.ext'']]"]
    run_non_spatial_format
    [where w=multi_world and pf=slide and pn=None and ls="[stdout_listener]" and pc=False
       and fmt=flat_format and a=zip_format
       and ?s0.0="FileImporter slide None (Some [stdout_listener])"
       and ud="[''data'', ''upload1'']" and up="[''data'', ''upload1'', ''slide.ext'']"
       and pd="[''data'', ''upload1'', ''processed'']"
       and orig="[''data'', ''upload1'', ''processed'', ''original.FLAT'']"
       and relocation="[Mkdir [''data'', ''upload1''], Move slide [''data'', ''upload1'', ''slide.ext'']]"]
    flat_world_facts flat_world_paths multi_world_facts multi_world_paths quiet_stdout
  by simp

section \<open>Terminal events of run\<close>

lemma unpack_Inr [succ]:
  "unpack w up orig s = (Inr u, s') \<longleftrightarrow>
     notify_raises START_UNPACKING (listeners s) = None \<and> raises w (Extract up orig) = None \<and>
     s' = s\<lparr>events := events s @ [START_UNPACKING],
            deliveries := deliveries s @ handled START_UNPACKING (listeners s) 0,
            logged := logged s @ unhandled START_UNPACKING (listeners s) 0,
            fs_calls := fs_calls s @ [Extract up orig]\<rparr>"
  unfolding unpack_def
  by (subst try_except_Inr) (auto simp: succ split: if_splits)

lemma make_original_extracted:
  assumes "make_original w pc ud up fmt ia s = (Inr r, s')"
  shows "case r of Inl _ \<Rightarrow> extracted_dir s' \<noteq> None | Inr _ \<Rightarrow> extracted_dir s' = extracted_dir s"
proof (cases ia)
  case False
  with assms show ?thesis
    unfolding make_original_def Let_def by (auto simp: succ)
next
  case True
  show ?thesis
  proof (cases "importable_match w
                  (joinpath (joinpath ud (Path (PROCESSED_DIR w)))
                     (Path (ORIGINAL_STEM w @ ''.'' @ get_identifier fmt)))")
    case (Some f)
    with assms True show ?thesis
      unfolding make_original_def Let_def by (auto simp: succ)
  next
    case None
    with assms True show ?thesis
      unfolding make_original_def Let_def
      by (auto simp: succ dest!: preserves_pairD[OF inert_actions2(1)[OF inert_fields(4)]])
  qed
qed

lemma listeners_make_original: "preserves listeners (make_original w pc ud up fmt ia)"
  unfolding make_original_def Let_def
  by (intro comb pres inert_fields preserves_update; simp)

lemma deploy_eq:
  "deploy w fmt up orig =
     thenM (deploy_steps w fmt orig) (thenM (notify END_SUCCESSFUL_IMPORT) (returnM [up]))"
  by (simp only: deploy_def deploy_steps_def thenM_assoc)

lemma keep_deploy_steps: "preserves (emitted END_SUCCESSFUL_IMPORT) (deploy_steps w fmt orig)"
  unfolding deploy_steps_def by (intro comb keep; simp)

lemma inert_deploy_steps: "inert f \<Longrightarrow> preserves f (deploy_steps w fmt orig)"
  unfolding deploy_steps_def by (intro comb pres)

lemma deploy_count:
  assumes "deploy w fmt up orig s = (r, s')"
  shows "case r of
           Inr _ \<Rightarrow> emitted END_SUCCESSFUL_IMPORT s' = emitted END_SUCCESSFUL_IMPORT s + 1
         | Inl _ \<Rightarrow> emitted END_SUCCESSFUL_IMPORT s' \<le> emitted END_SUCCESSFUL_IMPORT s + 1
                   \<and> (notify_raises END_SUCCESSFUL_IMPORT (listeners s) = None
                        \<longrightarrow> emitted END_SUCCESSFUL_IMPORT s' = emitted END_SUCCESSFUL_IMPORT s)"
  using assms[unfolded deploy_eq]
proof (cases rule: thenM_cases)
  case (raised e)
  with preserves_pairD[OF keep_deploy_steps raised(1)] show ?thesis by simp
next
  case (returned s1)
  from preserves_pairD[OF keep_deploy_steps returned(1)]
  have e1: "emitted END_SUCCESSFUL_IMPORT s1 = emitted END_SUCCESSFUL_IMPORT s" .
  from preserves_pairD[OF inert_deploy_steps[OF inert_fields(1)] returned(1)]
  have l1: "listeners s1 = listeners s" .
  from returned(2) e1 l1 show ?thesis
    by (auto simp: thenM_def bindM_def returnM_def notify_eq emitted_def split: option.splits)
qed

lemma run_body_count:
  assumes "run_body w pc s = (r, s')" and "extracted_dir s = None"
  shows "case r of
           Inr _ \<Rightarrow> emitted END_SUCCESSFUL_IMPORT s'
                     = emitted END_SUCCESSFUL_IMPORT s + (if extracted_dir s' = None then 1 else 0)
         | Inl _ \<Rightarrow> emitted END_SUCCESSFUL_IMPORT s' \<le> emitted END_SUCCESSFUL_IMPORT s + 1
                   \<and> (notify_raises END_SUCCESSFUL_IMPORT (listeners s) = None
                        \<longrightarrow> emitted END_SUCCESSFUL_IMPORT s' = emitted END_SUCCESSFUL_IMPORT s)"
  using assms(1)[unfolded run_body_eq]
proof (cases rule: bindM_cases)
  case (raised e)
  have "preserves (emitted END_SUCCESSFUL_IMPORT) (relocate w pc)" by (intro keep_relocate) simp_all
  from preserves_pairD[OF this raised(1)] raised(2) show ?thesis by simp
next
  case (returned x s1)
  have "preserves (emitted END_SUCCESSFUL_IMPORT) (relocate w pc)" by (intro keep_relocate) simp_all
  from preserves_pairD[OF this returned(1)]
  have e1: "emitted END_SUCCESSFUL_IMPORT s1 = emitted END_SUCCESSFUL_IMPORT s" .
  from preserves_pairD[OF inert_actions2(4)[OF inert_fields(4)] returned(1)] assms(2)
  have d1: "extracted_dir s1 = None" by simp
  from preserves_pairD[OF inert_actions2(4)[OF inert_fields(1)] returned(1)]
  have l1: "listeners s1 = listeners s" .
  obtain ud up where x: "x = (ud, up)" by (cases x)
  from returned(2) x have "run_rest w pc ud up s1 = (r, s')" by simp
  then show ?thesis unfolding run_rest_def
  proof (cases rule: bindM_cases)
    case (raised e)
    have "preserves (emitted END_SUCCESSFUL_IMPORT) (detect_format w up)"
      by (intro keep_primitives) simp_all
    from preserves_pairD[OF this raised(1)] raised(2) e1 show ?thesis by simp
  next
    case (returned y s2)
    have "preserves (emitted END_SUCCESSFUL_IMPORT) (detect_format w up)"
      by (intro keep_primitives) simp_all
    from preserves_pairD[OF this returned(1)] e1
    have e2: "emitted END_SUCCESSFUL_IMPORT s2 = emitted END_SUCCESSFUL_IMPORT s" by simp
    from preserves_pairD[OF inert_actions(9)[OF inert_fields(4)] returned(1)] d1
    have d2: "extracted_dir s2 = None" by simp
    from preserves_pairD[OF inert_actions(9)[OF inert_fields(1)] returned(1)] l1
    have l2: "listeners s2 = listeners s" by simp
    obtain fmt ia where y: "y = (fmt, ia)" by (cases y)
    from returned(2) y
    have "bindM (make_original w pc ud up fmt ia)
            (\<lambda>r. case r of Inl collection \<Rightarrow> returnM collection
                   | Inr (fmt', up', orig) \<Rightarrow> deploy w fmt' up' orig) s2 = (r, s')"
      by simp
    then show ?thesis
    proof (cases rule: bindM_cases)
      case (raised e)
      have "preserves (emitted END_SUCCESSFUL_IMPORT) (make_original w pc ud up fmt ia)"
        by (intro keep_make_original) simp_all
      from preserves_pairD[OF this raised(1)] raised(2) e2 show ?thesis by simp
    next
      case (returned z s3)
      have "preserves (emitted END_SUCCESSFUL_IMPORT) (make_original w pc ud up fmt ia)"
        by (intro keep_make_original) simp_all
      from preserves_pairD[OF this returned(1)] e2
      have e3: "emitted END_SUCCESSFUL_IMPORT s3 = emitted END_SUCCESSFUL_IMPORT s" by simp
      from preserves_pairD[OF listeners_make_original returned(1)] l2
      have l3: "listeners s3 = listeners s" by simp
      note ed = make_original_extracted[OF returned(1)]
      show ?thesis
      proof (cases z)
        case (Inl collection)
        with returned(2) have "r = Inr collection" "s' = s3" by (simp_all add: returnM_def)
        with ed Inl e3 show ?thesis by simp
      next
        case (Inr t)
        obtain f u orig where t: "t = (f, u, orig)" by (cases t)
        with Inr returned(2) have dep: "deploy w f u orig s3 = (r, s')" by simp
        from ed Inr d2 have d3: "extracted_dir s3 = None" by simp
        from preserves_pairD[OF inert_deploy[OF inert_fields(4)] dep] d3
        have d': "extracted_dir s' = None" by simp
        from deploy_count[OF dep] e3 l3 d' show ?thesis by (simp split: sum.splits)
      qed
    qed
  qed
qed

subsection \<open>Generic file errors and the calls that fail\<close>

lemma file_errors_Nil [simp]: "file_errors w [] = 0"
  by (simp add: file_errors_def)

lemma file_errors_append:
  "\<forall>c \<in> set xs. raises w c = None \<Longrightarrow> file_errors w (xs @ ys) = file_errors w ys"
  by (cases "ys = []") (auto simp: file_errors_def notifies_file_error_def)

lemma accountsI:
  assumes "\<And>s r s'. m s = (r, s') \<Longrightarrow> \<exists>xs. fs_calls s' = fs_calls s @ xs \<and>
      (case r of
         Inr _ \<Rightarrow> emitted FILE_ERROR s' = emitted FILE_ERROR s \<and> (\<forall>c \<in> set xs. raises w c = None)
       | Inl _ \<Rightarrow> emitted FILE_ERROR s' = emitted FILE_ERROR s + file_errors w xs)"
  shows "accounts w m"
  unfolding accounts_def
proof
  fix s
  from assms[of s "fst (m s)" "snd (m s)"]
  show "\<exists>xs. fs_calls (snd (m s)) = fs_calls s @ xs \<and>
      (case fst (m s) of
         Inr _ \<Rightarrow> emitted FILE_ERROR (snd (m s)) = emitted FILE_ERROR s
                  \<and> (\<forall>c \<in> set xs. raises w c = None)
       | Inl _ \<Rightarrow> emitted FILE_ERROR (snd (m s)) = emitted FILE_ERROR s + file_errors w xs)"
    by simp
qed

lemma accounts_pairD:
  assumes "accounts w m" and "m s = (r, s')"
  shows "\<exists>xs. fs_calls s' = fs_calls s @ xs \<and>
      (case r of
         Inr _ \<Rightarrow> emitted FILE_ERROR s' = emitted FILE_ERROR s \<and> (\<forall>c \<in> set xs. raises w c = None)
       | Inl _ \<Rightarrow> emitted FILE_ERROR s' = emitted FILE_ERROR s + file_errors w xs)"
  using assms(1)[unfolded accounts_def, rule_format, of s] assms(2) by (cases r) auto

lemma accounts_pure:
  assumes "preserves fs_calls m" and "preserves (emitted FILE_ERROR) m"
  shows "accounts w m"
proof (rule accountsI)
  fix s r s'
  assume m: "m s = (r, s')"
  from preserves_pairD[OF assms(1) m] preserves_pairD[OF assms(2) m]
  have "fs_calls s' = fs_calls s @ [] \<and>
      (case r of
         Inr _ \<Rightarrow> emitted FILE_ERROR s' = emitted FILE_ERROR s \<and> (\<forall>c \<in> set []. raises w c = None)
       | Inl _ \<Rightarrow> emitted FILE_ERROR s' = emitted FILE_ERROR s + file_errors w [])"
    by (simp split: sum.splits)
  then show "\<exists>xs. fs_calls s' = fs_calls s @ xs \<and>
      (case r of
         Inr _ \<Rightarrow> emitted FILE_ERROR s' = emitted FILE_ERROR s \<and> (\<forall>c \<in> set xs. raises w c = None)
       | Inl _ \<Rightarrow> emitted FILE_ERROR s' = emitted FILE_ERROR s + file_errors w xs)"
    by (rule exI)
qed

lemma accounts_returnM [acct]: "accounts w (returnM x)"
  by (intro accounts_pure comb)

lemma accounts_raiseM [acct]: "accounts w (raiseM e)"
  by (intro accounts_pure comb)

lemma accounts_assertM [acct]: "accounts w (assertM b)"
  by (intro accounts_pure comb)

lemma accounts_notify [acct]: "k \<noteq> FILE_ERROR \<Longrightarrow> accounts w (notify k)"
  by (intro accounts_pure calls_notify keep_notify)

lemma accounts_update [acct]:
  "(\<And>s. events (g s) = events s) \<Longrightarrow> (\<And>s. fs_calls (g s) = fs_calls s) \<Longrightarrow> accounts w (update g)"
  by (intro accounts_pure preserves_update keep_update) simp_all

lemma accounts_bindM [acct]:
  assumes "accounts w m" and "\<And>x. accounts w (g x)"
  shows "accounts w (bindM m g)"
proof (rule accountsI)
  fix s r s'
  assume "bindM m g s = (r, s')"
  then show "\<exists>xs. fs_calls s' = fs_calls s @ xs \<and>
      (case r of
         Inr _ \<Rightarrow> emitted FILE_ERROR s' = emitted FILE_ERROR s \<and> (\<forall>c \<in> set xs. raises w c = None)
       | Inl _ \<Rightarrow> emitted FILE_ERROR s' = emitted FILE_ERROR s + file_errors w xs)"
  proof (cases rule: bindM_cases)
    case (raised e)
    with accounts_pairD[OF assms(1) raised(1)] show ?thesis by simp
  next
    case (returned x s1)
    from accounts_pairD[OF assms(1) returned(1)] obtain xs where
      1: "fs_calls s1 = fs_calls s @ xs" "emitted FILE_ERROR s1 = emitted FILE_ERROR s"
         "\<forall>c \<in> set xs. raises w c = None"
      by auto
    from accounts_pairD[OF assms(2) returned(2)] obtain ys where
      2: "fs_calls s' = fs_calls s1 @ ys"
         "case r of
            Inr _ \<Rightarrow> emitted FILE_ERROR s' = emitted FILE_ERROR s1 \<and> (\<forall>c \<in> set ys. raises w c = None)
          | Inl _ \<Rightarrow> emitted FILE_ERROR s' = emitted FILE_ERROR s1 + file_errors w ys"
      by auto
    from 1 2 have "fs_calls s' = fs_calls s @ (xs @ ys) \<and>
      (case r of
         Inr _ \<Rightarrow> emitted FILE_ERROR s' = emitted FILE_ERROR s
                  \<and> (\<forall>c \<in> set (xs @ ys). raises w c = None)
       | Inl _ \<Rightarrow> emitted FILE_ERROR s' = emitted FILE_ERROR s + file_errors w (xs @ ys))"
      by (auto simp: file_errors_append split: sum.splits)
    then show ?thesis by (rule exI)
  qed
qed

lemma accounts_thenM [acct]: "accounts w m \<Longrightarrow> accounts w n \<Longrightarrow> accounts w (thenM m n)"
  by (simp add: thenM_def accounts_bindM)

lemma accounts_with_self [acct]: "(\<And>self. accounts w (g self)) \<Longrightarrow> accounts w (with_self g)"
  by (simp add: accounts_def with_self_def)

lemma accounts_if [acct]:
  "(c \<Longrightarrow> accounts w a) \<Longrightarrow> (\<not> c \<Longrightarrow> accounts w b) \<Longrightarrow> accounts w (if c then a else b)"
  by simp

lemma accounts_case_option [acct]:
  "(x = None \<Longrightarrow> accounts w a) \<Longrightarrow> (\<And>y. x = Some y \<Longrightarrow> accounts w (b y))
   \<Longrightarrow> accounts w (case x of None \<Rightarrow> a | Some y \<Rightarrow> b y)"
  by (cases x) simp_all

lemma accounts_case_sum [acct]:
  "(\<And>y. x = Inl y \<Longrightarrow> accounts w (a y)) \<Longrightarrow> (\<And>y. x = Inr y \<Longrightarrow> accounts w (b y))
   \<Longrightarrow> accounts w (case x of Inl y \<Rightarrow> a y | Inr y \<Rightarrow> b y)"
  by (cases x) simp_all

lemma accounts_case_prod [acct]:
  "(\<And>a b. x = (a, b) \<Longrightarrow> accounts w (g a b)) \<Longrightarrow> accounts w (case x of (a, b) \<Rightarrow> g a b)"
  by (cases x) simp_all

text \<open>A handler that issues no call, notifies no file error and raises.\<close>

lemma accounts_try_except:
  assumes "accounts w m" and "\<And>e. preserves fs_calls (h e)"
    and "\<And>e. preserves (emitted FILE_ERROR) (h e)" and "\<And>e. yields (\<lambda>_. False) (h e)"
  shows "accounts w (try_except m h)"
proof (rule accountsI)
  fix s r s'
  assume "try_except m h s = (r, s')"
  then show "\<exists>xs. fs_calls s' = fs_calls s @ xs \<and>
      (case r of
         Inr _ \<Rightarrow> emitted FILE_ERROR s' = emitted FILE_ERROR s \<and> (\<forall>c \<in> set xs. raises w c = None)
       | Inl _ \<Rightarrow> emitted FILE_ERROR s' = emitted FILE_ERROR s + file_errors w xs)"
  proof (cases rule: try_except_cases)
    case (caught e s1)
    from accounts_pairD[OF assms(1) caught(1)] obtain xs where
      1: "fs_calls s1 = fs_calls s @ xs"
         "emitted FILE_ERROR s1 = emitted FILE_ERROR s + file_errors w xs"
      by auto
    from caught(2) assms(4)[of e] obtain e' where "r = Inl e'"
      by (cases r) (auto simp: yields_def)
    with 1 preserves_pairD[OF assms(2) caught(2)] preserves_pairD[OF assms(3) caught(2)]
    have "fs_calls s' = fs_calls s @ xs \<and>
      (case r of
         Inr _ \<Rightarrow> emitted FILE_ERROR s' = emitted FILE_ERROR s \<and> (\<forall>c \<in> set xs. raises w c = None)
       | Inl _ \<Rightarrow> emitted FILE_ERROR s' = emitted FILE_ERROR s + file_errors w xs)"
      by simp
    then show ?thesis by (rule exI)
  next
    case (passed x)
    with accounts_pairD[OF assms(1) passed(1)] show ?thesis by simp
  qed
qed

lemma accounts_fs_call:
  "(case c of Mkdir _ \<Rightarrow> False | Symlink _ _ \<Rightarrow> False | _ \<Rightarrow> True) \<Longrightarrow> accounts w (fs_call w c)"
  unfolding accounts_def fs_call_def
  by (auto simp: emitted_def file_errors_def notifies_file_error_def split: option.splits fs_call.splits)

lemma accounts_linking:
  "(case c of Mkdir _ \<Rightarrow> True | Symlink _ _ \<Rightarrow> True | _ \<Rightarrow> False) \<Longrightarrow>
   accounts w (try_except (fs_call w c)
       (\<lambda>e. if is_OSError e then thenM (notify FILE_ERROR) (raiseM FileErrorProblem) else raiseM e))"
  unfolding accounts_def try_except_def fs_call_def thenM_def bindM_def raiseM_def
  by (auto simp: notify_eq emitted_def file_errors_def notifies_file_error_def
      split: option.splits fs_call.splits)

lemma raising_handlers:
  "yields (\<lambda>_. False) (if c then thenM (notify k) (raiseM e1) else raiseM e2)"
  "yields (\<lambda>_. False) (thenM (notify k) (raiseM e1))"
  by (simp_all add: yield)

lemma accounts_primitives [acct]:
  "accounts w (mkdir w d)"
  "accounts w (mksymlink w p t)"
  "accounts w (move w p t c)"
  "accounts w (unpack w up orig)"
  "accounts w (build_histogram w hp)"
proof -
  show "accounts w (mkdir w d)" "accounts w (mksymlink w p t)"
    unfolding mkdir_def mksymlink_def by (simp_all add: accounts_linking)
  show "accounts w (move w p t c)"
    unfolding move_def
    by (rule accounts_try_except)
       (auto intro!: accounts_fs_call comb calls_notify keep_notify raising_handlers yields_raiseM)
  show "accounts w (unpack w up orig)"
    unfolding unpack_def
    by (rule accounts_try_except)
       (auto intro!: acct accounts_fs_call comb calls_notify keep_notify raising_handlers yields_raiseM)
  show "accounts w (build_histogram w hp)"
    unfolding build_histogram_def
    by (rule accounts_try_except)
       (auto intro!: accounts_fs_call comb calls_notify keep_notify raising_handlers yields_raiseM)
qed

lemma accounts_in_processed_dir [acct]: "accounts w (in_processed_dir n)"
  unfolding in_processed_dir_def by (intro acct)

lemma accounts_convert_spatial [acct]: "accounts w (convert_spatial w fmt)"
  unfolding convert_spatial_def
  by (rule accounts_try_except)
     (auto intro!: acct accounts_fs_call comb calls_notify keep_notify raising_handlers yields_raiseM)

lemma accounts_detect_format [acct]: "accounts w (detect_format w up)"
  unfolding detect_format_def by (intro acct; simp)

lemma calls_sequential_imports: "preserves fs_calls (sequential_imports w ts)"
proof -
  have "fs_calls (snd (sequential_imports w ts s)) = fs_calls s" for s
    by (induction ts arbitrary: s) (auto split: option.splits)
  then show ?thesis by (simp add: preserves_def)
qed

lemma calls_celery_imports: "preserves fs_calls (celery_imports w ts)"
  by (simp add: preserves_def celery_imports_def)

lemma calls_register_children: "preserves fs_calls (register_children c pc children tasks)"
proof -
  have "fs_calls (snd (register_children c pc children tasks s)) = fs_calls s" for s
  proof (induction children arbitrary: tasks s)
    case Nil
    then show ?case by simp
  next
    case (Cons ch children)
    show ?case
    proof (cases "notify REGISTER_FILE s")
      case (Pair r s1)
      with preserves_pairD[OF calls_notify] have "fs_calls s1 = fs_calls s" by blast
      with Pair Cons show ?thesis by (cases r) auto
    qed
  qed
  then show ?thesis by (simp add: preserves_def)
qed

lemma calls_import_collection: "preserves fs_calls (import_collection w coll pc)"
  unfolding import_collection_def dispatch_def
  by (intro comb calls_register_children calls_sequential_imports calls_celery_imports)

lemma accounts_import_collection [acct]: "accounts w (import_collection w coll pc)"
  by (intro accounts_pure calls_import_collection keep_import_collection) simp

lemma accounts_deploy_spatial [acct]: "accounts w (deploy_spatial w fmt)"
  unfolding deploy_spatial_def by (intro acct; simp)

lemma accounts_deploy_histogram [acct]: "accounts w (deploy_histogram w)"
  unfolding deploy_histogram_def by (intro acct; simp)

lemma accounts_relocate [acct]: "accounts w (relocate w pc)"
  unfolding relocate_def by (intro acct; simp)

lemma accounts_make_original [acct]: "accounts w (make_original w pc ud up fmt ia)"
  unfolding make_original_def Let_def by (intro acct; simp)

lemma accounts_deploy [acct]: "accounts w (deploy w fmt up orig)"
  unfolding deploy_def by (intro acct; simp)

lemma accounts_run_body: "accounts w (run_body w pc)"
  unfolding run_body_def by (intro acct; simp)


subsection \<open>The collection branch, and a failing upload directory\<close>

lemma detect_format_returns:
  assumes "detect_format w up s = (Inr (f, ia), s')"
  shows "(importable_match w up = Some f \<and> \<not> ia)
       \<or> (importable_match w up = None \<and> archive_from_path w up = Some f \<and> ia)"
  using assms unfolding detect_format_def
  by (auto simp: succ split: option.splits)

lemma make_original_returns:
  assumes "make_original w pc ud up f ia s = (Inr z, s')"
  shows "(\<exists>c. z = Inl c) \<longleftrightarrow> ia \<and> importable_match w (original_of w ud f) = None"
proof (cases ia)
  case False
  with assms show ?thesis
    unfolding make_original_def Let_def by (auto simp: succ)
next
  case True
  show ?thesis
  proof (cases "importable_match w
                  (joinpath (joinpath ud (Path (PROCESSED_DIR w)))
                     (Path (ORIGINAL_STEM w @ ''.'' @ get_identifier f)))")
    case (Some f')
    with assms True show ?thesis
      unfolding make_original_def Let_def original_of_def by (auto simp: succ)
  next
    case None
    with assms True show ?thesis
      unfolding make_original_def Let_def original_of_def by (auto simp: succ)
  qed
qed

lemma run_body_collection:
  assumes "run_body w pc s = (Inr r, s')" and "extracted_dir s = None"
  shows "extracted_dir s' \<noteq> None \<longleftrightarrow> is_collection w (new_upload_dir w) (new_upload_path w s)"
  using assms(1)[unfolded run_body_eq]
proof (cases rule: bindM_cases)
  case (raised e)
  then show ?thesis by simp
next
  case (returned x s1)
  from relocate_returns[OF returned(1)] have x: "x = (new_upload_dir w, new_upload_path w s)" .
  define ud where "ud = new_upload_dir w"
  define up where "up = new_upload_path w s"
  from preserves_pairD[OF inert_actions2(4)[OF inert_fields(4)] returned(1)] assms(2)
  have d1: "extracted_dir s1 = None" by simp
  from returned(2) x have "run_rest w pc ud up s1 = (Inr r, s')" by (simp add: ud_def up_def)
  then have "extracted_dir s' \<noteq> None \<longleftrightarrow> is_collection w ud up" unfolding run_rest_def
  proof (cases rule: bindM_cases)
    case (raised e)
    then show ?thesis by simp
  next
    case (returned y s2)
    from preserves_pairD[OF inert_actions(9)[OF inert_fields(4)] returned(1)] d1
    have d2: "extracted_dir s2 = None" by simp
    obtain f ia where y: "y = (f, ia)" by (cases y)
    note df = detect_format_returns[OF returned(1)[unfolded y]]
    from returned(2) y
    have "bindM (make_original w pc ud up f ia)
            (\<lambda>r. case r of Inl collection \<Rightarrow> returnM collection
                   | Inr (fmt', up', orig) \<Rightarrow> deploy w fmt' up' orig) s2 = (Inr r, s')"
      by simp
    then show ?thesis
    proof (cases rule: bindM_cases)
      case (raised e)
      then show ?thesis by simp
    next
      case (returned z s3)
      note ed = make_original_extracted[OF returned(1)]
      note mr = make_original_returns[OF returned(1)]
      show ?thesis
      proof (cases z)
        case (Inl collection)
        with returned(2) have "s' = s3" by (simp add: returnM_def)
        with ed Inl mr df show ?thesis by (auto simp: is_collection_def)
      next
        case (Inr t)
        obtain f' u orig where t: "t = (f', u, orig)" by (cases t)
        with Inr returned(2) have dep: "deploy w f' u orig s3 = (Inr r, s')" by simp
        from ed Inr d2 have d3: "extracted_dir s3 = None" by simp
        from preserves_pairD[OF inert_deploy[OF inert_fields(4)] dep] d3
        have "extracted_dir s' = None" by simp
        with Inr mr df show ?thesis by (auto simp: is_collection_def)
      qed
    qed
  qed
  then show ?thesis by (simp add: ud_def up_def)
qed

lemma relocate_mkdir_fails:
  assumes "sanctioned w (pending_file s)" and "path_exists w (pending_file s)"
    and "notify_raises START_DATA_EXTRACTION (listeners s) = None"
    and "raises w (Mkdir (new_upload_dir w)) = Some x"
  shows "\<exists>e. fst (relocate w pc s) = Inl e"
    and "fs_calls (snd (relocate w pc s)) = fs_calls s @ [Mkdir (new_upload_dir w)]"
proof -
  define s1 where "s1 = snd (notify START_DATA_EXTRACTION s)"
  define s2 where "s2 = s1\<lparr>upload_dir := Some (new_upload_dir w)\<rparr>"
  define tail where "tail =
    thenM (update (\<lambda>s. s\<lparr>upload_path := Some (new_upload_path w s1)\<rparr>))
   (thenM (move w (pending_file s1) (new_upload_path w s1) pc)
   (thenM (if \<not> pc \<and> is_extracted w (pending_file s1)
           then mksymlink w (pending_file s1) (new_upload_path w s1)
           else returnM ())
   (thenM (notify MOVED_PENDING_FILE)
   (thenM (notify END_DATA_EXTRACTION)
          (returnM (new_upload_dir w, new_upload_path w s1))))))"
  have n: "notify START_DATA_EXTRACTION s = (Inr (), s1)"
    using assms(3) by (simp add: s1_def notify_eq)
  have pf: "pending_file s1 = pending_file s" by (simp add: s1_def notify_eq)
  have eq: "relocate w pc s = thenM (mkdir w (new_upload_dir w)) tail s2"
    using assms(1,2) pf
    by (auto simp: relocate_def
        thenM_step[where m="notify START_DATA_EXTRACTION" and s=s and ?s1.0=s1, OF n]
        with_self_def sanctioned_def tail_def s2_def thenM_update)
  have c2: "fs_calls s2 = fs_calls s" by (simp add: s2_def s1_def notify_eq)
  obtain r3 s3 where m: "mkdir w (new_upload_dir w) s2 = (r3, s3)"
    by (cases "mkdir w (new_upload_dir w) s2")
  from m primitive_calls(1)[of w "new_upload_dir w" s2]
  have c3: "fs_calls s3 = fs_calls s @ [Mkdir (new_upload_dir w)]" by (simp add: c2)
  from m assms(4) obtain e where r3: "r3 = Inl e"
    by (cases r3) (auto simp: primitives_Inr)
  from m r3 eq have "relocate w pc s = (Inl e, s3)" by (simp add: thenM_pair)
  with c3 show "\<exists>e. fst (relocate w pc s) = Inl e"
    and "fs_calls (snd (relocate w pc s)) = fs_calls s @ [Mkdir (new_upload_dir w)]"
    by simp_all
qed

text \<open>
  C1 (as amended). When \<open>run\<close> returns normally, no generic file-error event has been
  notified and the successful-import event has been notified exactly once, except on the
  archive-collection branch, which returns without any terminal event; that branch is
  the one that sets \<open>extracted_dir\<close>, taken exactly when the upload is an archive holding a
  collection. When \<open>run\<close> raises, the wrapper has notified one generic file-error event,
  and the events of that kind are two in all exactly when the last file-system call was a
  \<open>mkdir\<close> or \<open>mksymlink\<close> that raised an \<open>OSError\<close> (these notify a file error of their
  own), and one otherwise; at most one successful-import event has been notified, none
  unless a listener raised while handling it. In particular a run whose upload directory
  cannot be made raises with two generic file-error events.
\<close>

theorem run_terminal_events:
  "(fst (run w pc (FileImporter pf pn (Some ls))) = Inr r \<longrightarrow>
      emitted FILE_ERROR (snd (run w pc (FileImporter pf pn (Some ls)))) = 0
    \<and> emitted END_SUCCESSFUL_IMPORT (snd (run w pc (FileImporter pf pn (Some ls))))
        = (if extracted_dir (snd (run w pc (FileImporter pf pn (Some ls)))) = None then 1 else 0)
    \<and> (extracted_dir (snd (run w pc (FileImporter pf pn (Some ls)))) \<noteq> None
         \<longleftrightarrow> is_collection w (new_upload_dir w) (new_upload_path w (FileImporter pf pn (Some ls)))))
 \<and> (fst (run w pc (FileImporter pf pn (Some ls))) = Inl e \<longrightarrow>
      emitted FILE_ERROR (snd (run w pc (FileImporter pf pn (Some ls))))
        = (if fs_calls (snd (run w pc (FileImporter pf pn (Some ls)))) \<noteq> []
              \<and> notifies_file_error w (last (fs_calls (snd (run w pc (FileImporter pf pn (Some ls))))))
           then 2 else 1)
    \<and> emitted END_SUCCESSFUL_IMPORT (snd (run w pc (FileImporter pf pn (Some ls)))) \<le> 1
    \<and> (notify_raises END_SUCCESSFUL_IMPORT ls = None \<longrightarrow>
          emitted END_SUCCESSFUL_IMPORT (snd (run w pc (FileImporter pf pn (Some ls)))) = 0))
 \<and> (sanctioned w pf \<and> path_exists w pf \<and> notify_raises START_DATA_EXTRACTION ls = None
      \<and> raises w (Mkdir (new_upload_dir w)) = Some x \<and> is_OSError x \<longrightarrow>
      (\<exists>e'. fst (run w pc (FileImporter pf pn (Some ls))) = Inl e')
    \<and> emitted FILE_ERROR (snd (run w pc (FileImporter pf pn (Some ls)))) = 2)"
proof -
  define s0 where "s0 = FileImporter pf pn (Some ls)"
  obtain rr s' where run: "run w pc s0 = (rr, s')" by (cases "run w pc s0")
  have i: "emitted FILE_ERROR s0 = 0" "emitted END_SUCCESSFUL_IMPORT s0 = 0"
    "extracted_dir s0 = None" "listeners s0 = ls" "fs_calls s0 = []" "pending_file s0 = pf"
    by (simp_all add: s0_def emitted_init init_fields)
  have main: "(rr = Inr r \<longrightarrow> emitted FILE_ERROR s' = 0
          \<and> emitted END_SUCCESSFUL_IMPORT s' = (if extracted_dir s' = None then 1 else 0)
          \<and> (extracted_dir s' \<noteq> None \<longleftrightarrow> is_collection w (new_upload_dir w) (new_upload_path w s0)))
      \<and> (rr = Inl e \<longrightarrow> emitted FILE_ERROR s' = 1 + file_errors w (fs_calls s')
          \<and> emitted END_SUCCESSFUL_IMPORT s' \<le> 1
          \<and> (notify_raises END_SUCCESSFUL_IMPORT ls = None \<longrightarrow> emitted END_SUCCESSFUL_IMPORT s' = 0))"
    using run[unfolded run_eq]
  proof (cases rule: try_except_cases)
    case (passed x)
    from guards_pairD[OF guards_run_body passed(1)] i
    have "emitted FILE_ERROR s' = 0" by simp
    moreover from run_body_count[OF passed(1) i(3)] i
    have "emitted END_SUCCESSFUL_IMPORT s' = (if extracted_dir s' = None then 1 else 0)" by simp
    moreover from run_body_collection[OF passed(1) i(3)]
    have "extracted_dir s' \<noteq> None \<longleftrightarrow> is_collection w (new_upload_dir w) (new_upload_path w s0)" .
    ultimately show ?thesis using passed(2) by simp
  next
    case (caught e0 s1)
    from accounts_pairD[OF accounts_run_body caught(1)] i
    have f1: "emitted FILE_ERROR s1 = file_errors w (fs_calls s1)" by auto
    from run_body_count[OF caught(1) i(3)] i
    have u1: "emitted END_SUCCESSFUL_IMPORT s1 \<le> 1"
      "notify_raises END_SUCCESSFUL_IMPORT ls = None \<Longrightarrow> emitted END_SUCCESSFUL_IMPORT s1 = 0"
      by simp_all
    note oe = on_error_pair[OF caught(2)]
    from oe(2) have "emitted FILE_ERROR s' = emitted FILE_ERROR s1 + 1"
      "emitted END_SUCCESSFUL_IMPORT s' = emitted END_SUCCESSFUL_IMPORT s1"
      by (simp_all add: emitted_def)
    with f1 u1 oe(1,3) show ?thesis by auto
  qed
  have mk: "(\<exists>e'. rr = Inl e') \<and> emitted FILE_ERROR s' = 2"
    if ok: "sanctioned w pf" "path_exists w pf" "notify_raises START_DATA_EXTRACTION ls = None"
      and x: "raises w (Mkdir (new_upload_dir w)) = Some x" "is_OSError x"
  proof -
    obtain r1 s1 where rel: "relocate w pc s0 = (r1, s1)" by (cases "relocate w pc s0")
    from relocate_mkdir_fails[of w s0 x pc] ok x(1) rel i obtain e1
      where r1: "r1 = Inl e1" and c1: "fs_calls s1 = [Mkdir (new_upload_dir w)]"
      by auto
    from run_after_relocate[OF rel] r1 run have oe: "on_error e1 s1 = (rr, s')" by simp
    from on_error_pair(1)[OF oe] obtain e' where rr: "rr = Inl e'" ..
    from on_error_pair(3)[OF oe] c1 have c: "fs_calls s' = [Mkdir (new_upload_dir w)]" by simp
    from run[unfolded run_eq] have "emitted FILE_ERROR s' = 1 + file_errors w (fs_calls s')"
    proof (cases rule: try_except_cases)
      case (passed y)
      with rr show ?thesis by simp
    next
      case (caught e0 s2)
      from accounts_pairD[OF accounts_run_body caught(1)] i
      have f1: "emitted FILE_ERROR s2 = file_errors w (fs_calls s2)" by auto
      note oe2 = on_error_pair[OF caught(2)]
      from oe2(2) have "emitted FILE_ERROR s' = emitted FILE_ERROR s2 + 1" by (simp add: emitted_def)
      with f1 oe2(3) show ?thesis by simp
    qed
    with c x rr show ?thesis by (simp add: file_errors_def notifies_file_error_def)
  qed
  from main mk run show ?thesis by (auto simp: s0_def file_errors_def)
qed


lemma plain_run:
  "fst (run plain_world False (FileImporter slide None (Some [stdout_listener])))
     = Inr [[''data'', ''upload1'', ''slide.ext'']]"
  "extracted_dir (snd (run plain_world False (FileImporter slide None (Some [stdout_listener])))) = None"
  "fst (run plain_world False (FileImporter stray None (Some [stdout_listener])))
     = Inl FilepathNotFoundProblem"
  by code_simp+

lemma archive_run:
  "fst (run archive_world False (FileImporter slide None (Some [stdout_listener]))) = Inr []"
  "is_collection archive_world (new_upload_dir archive_world)
     (new_upload_path archive_world (FileImporter slide None (Some [stdout_listener])))"
  by code_simp+

lemma stray_run:
  "fs_calls (snd (run plain_world False (FileImporter stray None (Some [stdout_listener])))) = []"
  by code_simp

lemma readonly_world_facts:
  "sanctioned readonly_world slide"
  "path_exists readonly_world p"
  "raises readonly_world c = Some OSError"
  by (simp_all add: readonly_world_def plain_world_def sanctioned_def slide_def parent_def
        is_absolute_def)

theorem run_terminal_events_witness:
  "emitted FILE_ERROR (snd (run plain_world False (FileImporter slide None (Some [stdout_listener])))) = 0
   \<and> emitted END_SUCCESSFUL_IMPORT
        (snd (run plain_world False (FileImporter slide None (Some [stdout_listener])))) = 1
   \<and> emitted FILE_ERROR (snd (run archive_world False (FileImporter slide None (Some [stdout_listener])))) = 0
   \<and> emitted END_SUCCESSFUL_IMPORT
        (snd (run archive_world False (FileImporter slide None (Some [stdout_listener])))) = 0
   \<and> emitted FILE_ERROR
        (snd (run plain_world False (FileImporter stray None (Some [stdout_listener])))) = 1
   \<and> emitted END_SUCCESSFUL_IMPORT
        (snd (run plain_world False (FileImporter stray None (Some [stdout_listener])))) = 0
   \<and> emitted FILE_ERROR
        (snd (run readonly_world False (FileImporter slide None (Some [stdout_listener])))) = 2"
  using run_terminal_events[of plain_world False slide None "[stdout_listener]"
          "[[''data'', ''upload1'', ''slide.ext'']]" FilepathNotFoundProblem OSError]
    run_terminal_events[of archive_world False slide None "[stdout_listener]"
          "[]" FilepathNotFoundProblem OSError]
    run_terminal_events[of plain_world False stray None "[stdout_listener]"
          "[]" FilepathNotFoundProblem OSError]
    run_terminal_events[of readonly_world False slide None "[stdout_listener]"
          "[]" FilepathNotFoundProblem OSError]
    plain_run archive_run stray_run readonly_world_facts stdout_delivers
  by simp

text \<open>
  C1 as stated fails: the run of an archive that holds a collection returns normally
  without any terminal event, and a run whose upload directory cannot be made notifies
  two generic file-error events.
\<close>

theorem run_terminal_events_not_exactly_one:
  "fst (run archive_world False (FileImporter slide None (Some [stdout_listener]))) = Inr []
   \<and> events (snd (run archive_world False (FileImporter slide None (Some [stdout_listener]))))
       = [START_DATA_EXTRACTION, MOVED_PENDING_FILE, END_DATA_EXTRACTION,
          START_FORMAT_DETECTION, END_FORMAT_DETECTION, START_UNPACKING,
          REGISTER_FILE, REGISTER_FILE, END_UNPACKING]
   \<and> fst (run readonly_world False (FileImporter slide None (Some [stdout_listener])))
       = Inl FileErrorProblem
   \<and> events (snd (run readonly_world False (FileImporter slide None (Some [stdout_listener]))))
       = [START_DATA_EXTRACTION, FILE_ERROR, FILE_ERROR]"
  by code_simp

end
